theory Spec2Isabelle
  imports Complex_Main
begin

section \<open>Go primitives used by the conversational engine\<close>

subsection \<open>float64\<close>

text \<open>
  Go's \<^verbatim>\<open>float64\<close> is IEEE-754 binary64. A finite value is carried as the real number it
  denotes; every arithmetic operation computes the exact result and rounds it to the nearest
  value with a 53-bit significand, ties to even (\<open>round64\<close>). Below \<open>2^-1022\<close> the
  spacing is the fixed subnormal spacing \<open>2^-1074\<close>. Infinities and NaN are outside the
  carrier: the places where the code can divide by zero are written out in the functions
  that do so, and \<open>round64\<close> does not overflow: a result of magnitude \<open>2^1024\<close> or more,
  which Go rounds to an infinity, stays finite here. The properties below that state
  rounded values keep their arguments in a range where no result reaches \<open>2^1024\<close>. Each operation is rounded on its own (no fused multiply-add).
\<close>

type_synonym float64 = real

definition rne :: "real \<Rightarrow> int" where
  "rne q = (let f = \<lfloor>q\<rfloor>; r = q - of_int f in
     if r < 1/2 then f else if 1/2 < r then f + 1 else if even f then f else f + 1)"

lemma ceiling_half_less: "1 < (y::real) \<Longrightarrow> \<lceil>y / 2\<rceil> < \<lceil>y\<rceil>"
proof -
  assume y: "1 < y"
  have c: "y \<le> of_int \<lceil>y\<rceil>" by (rule le_of_int_ceiling)
  have "2 \<le> \<lceil>y\<rceil>" using y by linarith
  then have c2: "(2::real) \<le> of_int \<lceil>y\<rceil>" by linarith
  have "y / 2 \<le> of_int \<lceil>y\<rceil> - 1" using c c2 by linarith
  then show ?thesis by (simp only: ceiling_less_iff)
qed

function scale_round :: "real \<Rightarrow> real" where
  "scale_round x =
     (if x \<le> 0 then 0
      else if 2 ^ 53 \<le> x then 2 * scale_round (x / 2)
      else if x < 2 ^ 52 then scale_round (2 * x) / 2
      else of_int (rne x))"
  by pat_completeness auto
termination
proof (relation "measure (\<lambda>x. if x \<le> 0 then 0 else if 2 ^ 53 \<le> x then nat \<lceil>x\<rceil> + 1
                                else if x < 2 ^ 52 then nat \<lceil>2 ^ 52 / x\<rceil> + 1 else 0)", goal_cases)
  case 1 show ?case by simp
next
  case (2 x)
  have k: "(2::real) ^ 53 = 2 * 2 ^ 52" "(0::real) < 2 ^ 52" "(1::real) < 2 ^ 52" by simp_all
  from 2 have x: "2 ^ 53 \<le> x" by simp
  then have "1 < x" using k by linarith
  then have l: "\<lceil>x / 2\<rceil> < \<lceil>x\<rceil>" by (rule ceiling_half_less)
  have p: "0 < \<lceil>x\<rceil>" using \<open>1 < x\<close> by linarith
  have h: "\<not> x / 2 \<le> 0" "\<not> x \<le> 0" using \<open>1 < x\<close> by linarith+
  have n: "\<not> x / 2 < 2 ^ 52" using x k by linarith
  have m: "nat \<lceil>x / 2\<rceil> < nat \<lceil>x\<rceil>" using l p by linarith
  show ?case unfolding in_measure using x h n m
    by (simp only: if_True if_False split: if_split) linarith
next
  case (3 x)
  have k: "(2::real) ^ 53 = 2 * 2 ^ 52" "(0::real) < 2 ^ 52" by simp_all
  from 3 have x: "0 < x" "x < 2 ^ 52" by auto
  then have y: "1 < 2 ^ 52 / x" by (simp only: less_divide_eq_1_pos)
  have e: "2 ^ 52 / (2 * x) = (2 ^ 52 / x) / 2" by (simp only: divide_divide_eq_left mult.commute)
  have l: "\<lceil>2 ^ 52 / (2 * x)\<rceil> < \<lceil>2 ^ 52 / x\<rceil>"
    unfolding e using y by (rule ceiling_half_less)
  have p: "0 < \<lceil>2 ^ 52 / x\<rceil>" using y by linarith
  have h: "\<not> x \<le> 0" "\<not> 2 * x \<le> 0" "\<not> 2 ^ 53 \<le> x" "\<not> 2 ^ 53 \<le> 2 * x"
    using x k by linarith+
  have m: "nat \<lceil>2 ^ 52 / (2 * x)\<rceil> < nat \<lceil>2 ^ 52 / x\<rceil>" using l p by linarith
  show ?case unfolding in_measure using x h m
    by (simp only: if_True if_False split: if_split) linarith
qed

declare scale_round.simps [simp del]

definition round64 :: "real \<Rightarrow> float64" where
  "round64 x =
     (if x = 0 then 0
      else if \<bar>x\<bar> < 1 / 2 ^ 1022 then of_int (rne (x * 2 ^ 1074)) / 2 ^ 1074
      else if x < 0 then - scale_round (- x) else scale_round x)"

definition f64_of_int :: "int \<Rightarrow> float64" where
  "f64_of_int n = round64 (of_int n)"

definition f64_add :: "float64 \<Rightarrow> float64 \<Rightarrow> float64" where
  "f64_add x y = round64 (x + y)"

definition f64_mul :: "float64 \<Rightarrow> float64 \<Rightarrow> float64" where
  "f64_mul x y = round64 (x * y)"

text \<open>Division by a non-zero divisor; callers decide what a zero divisor means.\<close>

definition f64_div :: "float64 \<Rightarrow> float64 \<Rightarrow> float64" where
  "f64_div x y = round64 (x / y)"

text \<open>A decimal literal of the source denotes the nearest float64.\<close>

definition f64_lit :: "real \<Rightarrow> float64" where
  "f64_lit x = round64 x"

text \<open>The conversion \<^verbatim>\<open>int(f)\<close> discards the fraction (truncation towards zero).\<close>

definition int_of_f64 :: "float64 \<Rightarrow> int" where
  "int_of_f64 x = (if 0 \<le> x then \<lfloor>x\<rfloor> else \<lceil>x\<rceil>)"

subsection \<open>JSON values\<close>

text \<open>
  The value \<^verbatim>\<open>interface{}\<close> that \<^verbatim>\<open>encoding/json\<close> decodes into: an object is a
  \<^verbatim>\<open>map[string]interface{}\<close>, carried as an association list with distinct keys and read
  with \<open>map_of\<close>; a number is a float64.
\<close>

datatype json =
    JNull
  | JBool bool
  | JNumber float64
  | JString string
  | JArray "json list"
  | JObject "(string \<times> json) list"

type_synonym json_object = "(string \<times> json) list"

text \<open>
  \<^verbatim>\<open>json.Marshal\<close> and \<^verbatim>\<open>json.Unmarshal\<close> belong to the standard library. Functions that
  call them take the serializer (\<open>None\<close> for an error) or the parser as an argument.
\<close>

type_synonym marshal = "json_object \<Rightarrow> string option"

section \<open>Messages (internal/providers/provider.go)\<close>

type_synonym MessageRole = string

definition RoleUser :: MessageRole where "RoleUser = ''user''"
definition RoleAssistant :: MessageRole where "RoleAssistant = ''assistant''"
definition RoleSystem :: MessageRole where "RoleSystem = ''system''"
definition RoleTool :: MessageRole where "RoleTool = ''tool''"

record ImageSource =
  Type :: string
  MediaType :: string
  Data :: string

text \<open>A nil \<^verbatim>\<open>Input\<close> map is \<open>None\<close>.\<close>

record ToolUseContent =
  ID :: string
  Name :: string
  Input :: "json_object option"

text \<open>
  The field \<^verbatim>\<open>Content\<close> of \<^verbatim>\<open>ToolResultContent\<close> is \<open>ResultContent\<close> here, since
  \<^verbatim>\<open>Message\<close> has a field of the same name.
\<close>

record ToolResultContent =
  ToolUseID :: string
  ResultContent :: string
  IsError :: bool

text \<open>
  \<^verbatim>\<open>ContentBlock\<close> is an interface with four implementations; a type switch on it is a
  case distinction on the constructor.
\<close>

datatype ContentBlock =
    TextBlock string
  | ImageBlock ImageSource
  | ToolUseBlock ToolUseContent
  | ToolResultBlock ToolResultContent

record Message =
  Role :: MessageRole
  Content :: "ContentBlock list"

section \<open>Token estimation (internal/context, SimpleEstimator)\<close>

record SimpleEstimator =
  CharsPerToken :: float64

definition NewSimpleEstimator :: SimpleEstimator where
  "NewSimpleEstimator = \<lparr>CharsPerToken = 4\<rparr>"

text \<open>
  \<^verbatim>\<open>len(text)\<close> is the number of bytes of the string, which is what \<open>length\<close> counts on
  a \<open>string\<close>. A non-positive \<^verbatim>\<open>CharsPerToken\<close> is replaced by 4.0; the source stores the
  replacement in the estimator, which changes no later result.
\<close>

definition EstimateTokens :: "SimpleEstimator \<Rightarrow> string \<Rightarrow> int" where
  "EstimateTokens e text =
     (let cpt = (if CharsPerToken e \<le> 0 then 4 else CharsPerToken e)
      in int_of_f64 (f64_div (f64_of_int (int (length text))) cpt))"

fun block_tokens :: "marshal \<Rightarrow> SimpleEstimator \<Rightarrow> ContentBlock \<Rightarrow> int" where
  "block_tokens mar e (TextBlock t) = EstimateTokens e t"
| "block_tokens mar e (ToolUseBlock b) =
     20 + EstimateTokens e (Name b) +
     (case Input b of
        None \<Rightarrow> 0
      | Some inp \<Rightarrow> (case mar inp of None \<Rightarrow> 0 | Some js \<Rightarrow> EstimateTokens e js))"
| "block_tokens mar e (ToolResultBlock b) = 10 + EstimateTokens e (ResultContent b)"
| "block_tokens mar e (ImageBlock i) = 1500"

text \<open>The argument is a pointer; nil is \<open>None\<close>.\<close>

fun EstimateMessage :: "marshal \<Rightarrow> SimpleEstimator \<Rightarrow> Message option \<Rightarrow> int" where
  "EstimateMessage mar e None = 0"
| "EstimateMessage mar e (Some msg) =
     fold (\<lambda>block total. total + block_tokens mar e block) (Content msg) 4"

definition EstimateMessages :: "marshal \<Rightarrow> SimpleEstimator \<Rightarrow> Message list \<Rightarrow> int" where
  "EstimateMessages mar e msgs = fold (\<lambda>m total. total + EstimateMessage mar e (Some m)) msgs 0"

definition EstimateSystemPrompt :: "string \<Rightarrow> int" where
  "EstimateSystemPrompt prompt = EstimateTokens NewSimpleEstimator prompt + 10"

text \<open>
  \<^verbatim>\<open>TokenInfo\<close>: the fields \<^verbatim>\<open>Role\<close> and \<^verbatim>\<open>ToolUseID\<close> carry the prefix \<open>Info\<close>
  (\<^verbatim>\<open>Message\<close> and \<^verbatim>\<open>ToolResultContent\<close> have fields of these names). The timestamp is
  never read and is left out.
\<close>

record TokenInfo =
  MessageIndex :: int
  Tokens :: int
  InfoRole :: MessageRole
  IsPrunable :: bool
  ToolName :: string
  InfoToolUseID :: string

section \<open>Pruner (internal/context)\<close>

definition DefaultProtectedTools :: "string list" where
  "DefaultProtectedTools = [''file_read'', ''read_file'', ''search_content'', ''grep'', ''glob'']"

text \<open>A \<^verbatim>\<open>map[string]bool\<close>; a missing key reads as false.\<close>

record Pruner =
  protectedTools :: "string \<rightharpoonup> bool"
  protectionRatio :: float64

record PrunerConfig =
  ProtectedTools :: "string list"
  ProtectionRatio :: float64

record PruneResult =
  OriginalMessages :: int
  PrunedMessages :: int
  TokensSaved :: int
  MessagesPruned :: int

definition NewPruner :: "PrunerConfig \<Rightarrow> Pruner" where
  "NewPruner cfg =
     (let m0 = fold (\<lambda>tool m. m(tool \<mapsto> True)) DefaultProtectedTools Map.empty;
          m1 = fold (\<lambda>tool m. m(tool \<mapsto> True)) (ProtectedTools cfg) m0;
          ratio = (if ProtectionRatio cfg \<le> 0 \<or> 1 \<le> ProtectionRatio cfg
                   then f64_lit (3 / 10) else ProtectionRatio cfg)
      in \<lparr>protectedTools = m1, protectionRatio = ratio\<rparr>)"

definition isProtectedTool :: "Pruner \<Rightarrow> string \<Rightarrow> bool" where
  "isProtectedTool p toolName = (case protectedTools p toolName of Some b \<Rightarrow> b | None \<Rightarrow> False)"

definition AddProtectedTool :: "Pruner \<Rightarrow> string \<Rightarrow> Pruner" where
  "AddProtectedTool p toolName = p\<lparr>protectedTools := (protectedTools p)(toolName \<mapsto> True)\<rparr>"

definition RemoveProtectedTool :: "Pruner \<Rightarrow> string \<Rightarrow> Pruner" where
  "RemoveProtectedTool p toolName = p\<lparr>protectedTools := (protectedTools p)(toolName := None)\<rparr>"

definition PrunedPlaceholder :: string where
  "PrunedPlaceholder = ''[Previous tool result pruned for context management]''"

fun pruneBlock :: "ContentBlock \<Rightarrow> ContentBlock" where
  "pruneBlock (ToolResultBlock b) =
     ToolResultBlock \<lparr>ToolUseID = ToolUseID b, ResultContent = PrunedPlaceholder, IsError = IsError b\<rparr>"
| "pruneBlock block = block"

definition pruneMessage :: "Message \<Rightarrow> Message" where
  "pruneMessage msg =
     \<lparr>Role = Role msg,
      Content = fold (\<lambda>block newContent. newContent @ [pruneBlock block]) (Content msg) []\<rparr>"

text \<open>
  The backwards scan for the cutoff: \<open>n\<close> is one more than the index visited next,
  \<open>dflt\<close> the value the cutoff keeps when the loop ends without a break.
\<close>

fun cutoff_scan :: "TokenInfo list \<Rightarrow> int \<Rightarrow> nat \<Rightarrow> int \<Rightarrow> nat \<Rightarrow> nat" where
  "cutoff_scan tokenInfo threshold 0 running dflt = dflt"
| "cutoff_scan tokenInfo threshold (Suc i) running dflt =
     (let running' = running + Tokens (tokenInfo ! i)
      in if threshold \<le> running' then i
         else cutoff_scan tokenInfo threshold i running' dflt)"

text \<open>The loop over the messages; \<open>i\<close> is the index of the head of the remaining list.\<close>

fun prune_loop ::
  "marshal \<Rightarrow> Pruner \<Rightarrow> TokenInfo list \<Rightarrow> nat \<Rightarrow> nat \<Rightarrow> Message list \<Rightarrow>
   Message list \<times> PruneResult \<Rightarrow> Message list \<times> PruneResult" where
  "prune_loop mar p tokenInfo cutoffIndex i [] acc = acc"
| "prune_loop mar p tokenInfo cutoffIndex i (msg # rest) (prunedMessages, result) =
     (if cutoffIndex \<le> i then
        prune_loop mar p tokenInfo cutoffIndex (Suc i) rest (prunedMessages @ [msg], result)
      else if i < length tokenInfo \<and> IsPrunable (tokenInfo ! i) then
        (if isProtectedTool p (ToolName (tokenInfo ! i)) then
           prune_loop mar p tokenInfo cutoffIndex (Suc i) rest (prunedMessages @ [msg], result)
         else
           (let prunedMsg = pruneMessage msg;
                oldTokens = Tokens (tokenInfo ! i);
                newTokens = EstimateMessage mar NewSimpleEstimator (Some prunedMsg);
                result' = result\<lparr>TokensSaved := TokensSaved result + (oldTokens - newTokens),
                                 MessagesPruned := MessagesPruned result + 1\<rparr>
            in prune_loop mar p tokenInfo cutoffIndex (Suc i) rest
                 (prunedMessages @ [prunedMsg], result')))
      else
        prune_loop mar p tokenInfo cutoffIndex (Suc i) rest (prunedMessages @ [msg], result))"

definition sum_tokens :: "TokenInfo list \<Rightarrow> int" where
  "sum_tokens tokenInfo = fold (\<lambda>info total. total + Tokens info) tokenInfo 0"

definition Prune ::
  "marshal \<Rightarrow> Pruner \<Rightarrow> Message list \<Rightarrow> TokenInfo list \<Rightarrow> Message list \<times> PruneResult" where
  "Prune mar p messages tokenInfo =
     (let result = \<lparr>OriginalMessages = int (length messages), PrunedMessages = 0,
                    TokensSaved = 0, MessagesPruned = 0\<rparr>
      in if length messages = 0 \<or> length tokenInfo = 0 then
           (messages, result\<lparr>PrunedMessages := int (length messages)\<rparr>)
         else
           (let totalTokens = sum_tokens tokenInfo;
                protectedThreshold = int_of_f64 (f64_mul (f64_of_int totalTokens) (protectionRatio p));
                cutoffIndex = cutoff_scan tokenInfo protectedThreshold (length tokenInfo) 0
                                (length messages);
                (prunedMessages, result') =
                   prune_loop mar p tokenInfo cutoffIndex 0 messages ([], result)
            in (prunedMessages, result'\<lparr>PrunedMessages := int (length prunedMessages)\<rparr>)))"

text \<open>
  \<^verbatim>\<open>ShouldPrune\<close>: with a positive prunable count and a zero total the quotient is
  \<open>+Inf\<close>, which is at least 0.10.
\<close>

definition ShouldPrune :: "Pruner \<Rightarrow> TokenInfo list \<Rightarrow> bool" where
  "ShouldPrune p tokenInfo =
     (let totalTokens = sum_tokens tokenInfo;
          prunableTokens =
            fold (\<lambda>info total.
                    if IsPrunable info \<and> \<not> isProtectedTool p (ToolName info)
                    then total + Tokens info else total) tokenInfo 0
      in 0 < prunableTokens \<and>
         (if f64_of_int totalTokens = 0 then True
          else f64_lit (1 / 10) \<le> f64_div (f64_of_int prunableTokens) (f64_of_int totalTokens)))"

section \<open>Properties of the pruner\<close>

lemma fold_snoc_map: "fold (\<lambda>x acc. acc @ [f x]) xs ys = ys @ map f xs"
  by (induction xs arbitrary: ys) simp_all

lemma pruneMessage_Content: "Content (pruneMessage msg) = map pruneBlock (Content msg)"
  by (simp add: pruneMessage_def fold_snoc_map)

lemma pruneMessage_Role: "Role (pruneMessage msg) = Role msg"
  by (simp add: pruneMessage_def)

lemma pruneBlock_idem: "pruneBlock (pruneBlock b) = pruneBlock b"
  by (cases b) simp_all

lemma pruneMessage_idem: "pruneMessage (pruneMessage msg) = pruneMessage msg"
  by (simp add: pruneMessage_def fold_snoc_map pruneBlock_idem)

text \<open>
  Claim C8. Pruning one message keeps the role, replaces the content of every ToolResult
  block by the constant placeholder while keeping that block's tool_use_id and is_error,
  leaves every other block as it is, and pruning an already pruned message gives the same
  message again.
\<close>

theorem pruneMessage_placeholder_idempotent:
  "Role (pruneMessage msg) = Role msg \<and>
   Content (pruneMessage msg) =
     map (\<lambda>block. case block of
            ToolResultBlock b \<Rightarrow>
              ToolResultBlock \<lparr>ToolUseID = ToolUseID b, ResultContent = PrunedPlaceholder,
                               IsError = IsError b\<rparr>
          | _ \<Rightarrow> block) (Content msg) \<and>
   pruneMessage (pruneMessage msg) = pruneMessage msg"
proof -
  have "pruneBlock = (\<lambda>block. case block of
            ToolResultBlock b \<Rightarrow>
              ToolResultBlock \<lparr>ToolUseID = ToolUseID b, ResultContent = PrunedPlaceholder,
                               IsError = IsError b\<rparr>
          | _ \<Rightarrow> block)"
    by (rule ext) (simp split: ContentBlock.split)
  then show ?thesis
    using pruneMessage_Content[of msg] pruneMessage_Role[of msg] pruneMessage_idem[of msg]
    by simp
qed

lemma prune_loop_shape:
  "\<exists>ys r'. prune_loop mar p info c i msgs (acc, r) = (acc @ ys, r') \<and> length ys = length msgs"
proof (induction msgs arbitrary: i acc r)
  case Nil
  show ?case by simp
next
  case (Cons msg rest)
  obtain m' r1 where e: "prune_loop mar p info c i (msg # rest) (acc, r)
                = prune_loop mar p info c (Suc i) rest (acc @ [m'], r1)"
    by (cases "c \<le> i"; cases "i < length info \<and> IsPrunable (info ! i)";
        cases "isProtectedTool p (ToolName (info ! i))") (auto simp: Let_def)
  from Cons.IH[of "Suc i" "acc @ [m']" r1] obtain ys r' where
    "prune_loop mar p info c (Suc i) rest (acc @ [m'], r1) = ((acc @ [m']) @ ys, r')"
    "length ys = length rest" by blast
  then show ?case unfolding e by (intro exI[of _ "m' # ys"] exI[of _ r']) simp
qed

lemma prune_loop_keeps:
  assumes "j < length msgs"
    and "c \<le> i + j \<or> \<not> (i + j < length info \<and> IsPrunable (info ! (i + j)))
         \<or> isProtectedTool p (ToolName (info ! (i + j)))"
  shows "fst (prune_loop mar p info c i msgs (acc, r)) ! (length acc + j) = msgs ! j"
  using assms
proof (induction msgs arbitrary: i j acc r)
  case Nil
  then show ?case by simp
next
  case (Cons msg rest)
  show ?case
  proof (cases j)
    case 0
    with Cons.prems have keep: "c \<le> i \<or> \<not> (i < length info \<and> IsPrunable (info ! i))
         \<or> isProtectedTool p (ToolName (info ! i))" by simp
    then have e: "prune_loop mar p info c i (msg # rest) (acc, r)
              = prune_loop mar p info c (Suc i) rest (acc @ [msg], r)"
      by auto
    obtain ys r' where "prune_loop mar p info c (Suc i) rest (acc @ [msg], r) = ((acc @ [msg]) @ ys, r')"
      using prune_loop_shape by blast
    then show ?thesis using 0 e by (simp add: nth_append)
  next
    case (Suc j')
    obtain m' r1 where e: "prune_loop mar p info c i (msg # rest) (acc, r)
                = prune_loop mar p info c (Suc i) rest (acc @ [m'], r1)"
      by (cases "c \<le> i"; cases "i < length info \<and> IsPrunable (info ! i)";
          cases "isProtectedTool p (ToolName (info ! i))") (auto simp: Let_def)
    have "fst (prune_loop mar p info c (Suc i) rest (acc @ [m'], r1)) ! (length (acc @ [m']) + j') = rest ! j'"
      using Cons.prems Suc by (intro Cons.IH) auto
    then show ?thesis using Suc e by simp
  qed
qed

lemma NewPruner_protects_defaults:
  "tool \<in> set DefaultProtectedTools \<Longrightarrow> isProtectedTool (NewPruner cfg) tool"
proof -
  have keep: "m tool = Some True \<Longrightarrow> fold (\<lambda>t m. m(t \<mapsto> True)) ts m tool = Some True"
    for ts and m :: "string \<rightharpoonup> bool"
    by (induction ts arbitrary: m) simp_all
  assume "tool \<in> set DefaultProtectedTools"
  then have "fold (\<lambda>t m. m(t \<mapsto> True)) DefaultProtectedTools Map.empty tool = Some True"
    by (auto simp: DefaultProtectedTools_def)
  then show ?thesis
    by (simp add: NewPruner_def isProtectedTool_def Let_def keep)
qed

text \<open>
  Claim C5. \<^verbatim>\<open>Prune\<close> never rewrites a message whose token-info entry names a protected
  tool: the output has the length of the input and holds the input message at that index,
  whatever the token counts, the protection ratio and the position of the cutoff are.
\<close>

theorem Prune_protected_unchanged:
  assumes "i < length messages" and "i < length tokenInfo"
    and "isProtectedTool p (ToolName (tokenInfo ! i))"
  shows "length (fst (Prune mar p messages tokenInfo)) = length messages \<and>
         fst (Prune mar p messages tokenInfo) ! i = messages ! i"
proof -
  let ?thr = "int_of_f64 (f64_mul (f64_of_int (sum_tokens tokenInfo)) (protectionRatio p))"
  let ?c = "cutoff_scan tokenInfo ?thr (length tokenInfo) 0 (length messages)"
  let ?r0 = "\<lparr>OriginalMessages = int (length messages), PrunedMessages = 0,
                    TokensSaved = 0, MessagesPruned = 0\<rparr>"
  from assms have ne: "length messages \<noteq> 0" "length tokenInfo \<noteq> 0" by auto
  obtain ys r' where s: "prune_loop mar p tokenInfo ?c 0 messages ([], ?r0) = ([] @ ys, r')"
    "length ys = length messages" using prune_loop_shape by blast
  have f: "fst (Prune mar p messages tokenInfo) = ys"
    using ne s by (simp add: Prune_def Let_def)
  have "fst (prune_loop mar p tokenInfo ?c 0 messages ([], ?r0)) ! (length ([]::Message list) + i) = messages ! i"
    using assms by (intro prune_loop_keeps) auto
  then show ?thesis using f s by simp
qed


text \<open>
  The witness: a pruner with the default configuration, a 1000-token \<^verbatim>\<open>grep\<close> result
  before the cutoff and a later user message.
\<close>

theorem Prune_protected_unchanged_witness:
  "(let p = NewPruner \<lparr>ProtectedTools = [], ProtectionRatio = 0\<rparr>;
        messages =
          [\<lparr>Role = RoleTool,
            Content = [ToolResultBlock \<lparr>ToolUseID = ''t1'', ResultContent = ''match'',
                                        IsError = False\<rparr>]\<rparr>,
           \<lparr>Role = RoleUser, Content = [TextBlock ''next'']\<rparr>];
        tokenInfo =
          [\<lparr>MessageIndex = 0, Tokens = 1000, InfoRole = RoleTool, IsPrunable = True,
            ToolName = ''grep'', InfoToolUseID = ''t1''\<rparr>,
           \<lparr>MessageIndex = 1, Tokens = 1000, InfoRole = RoleUser, IsPrunable = False,
            ToolName = [], InfoToolUseID = []\<rparr>]
    in 0 < length messages \<and> 0 < length tokenInfo \<and>
       isProtectedTool p (ToolName (tokenInfo ! 0)) \<and>
       length (fst (Prune (\<lambda>_. None) p messages tokenInfo)) = length messages \<and>
       fst (Prune (\<lambda>_. None) p messages tokenInfo) ! 0 = messages ! 0)"
proof -
  let ?p = "NewPruner \<lparr>ProtectedTools = [], ProtectionRatio = 0\<rparr>"
  have g: "isProtectedTool ?p ''grep''"
    by (rule NewPruner_protects_defaults) (simp add: DefaultProtectedTools_def)
  show ?thesis
    using g Prune_protected_unchanged[of 0
        "[\<lparr>Role = RoleTool,
            Content = [ToolResultBlock \<lparr>ToolUseID = ''t1'', ResultContent = ''match'',
                                        IsError = False\<rparr>]\<rparr>,
           \<lparr>Role = RoleUser, Content = [TextBlock ''next'']\<rparr>]"
        "[\<lparr>MessageIndex = 0, Tokens = 1000, InfoRole = RoleTool, IsPrunable = True,
            ToolName = ''grep'', InfoToolUseID = ''t1''\<rparr>,
           \<lparr>MessageIndex = 1, Tokens = 1000, InfoRole = RoleUser, IsPrunable = False,
            ToolName = [], InfoToolUseID = []\<rparr>]" ?p "\<lambda>_. None"]
    by (simp add: Let_def)
qed

section \<open>Properties of the token estimator\<close>

text \<open>
  Exactness of \<open>round64\<close> on dyadic rationals with a significand below \<open>2^53\<close>: the
  conversion of a small integer and its division by 4 lose nothing.
\<close>

lemma rne_of_int: "rne (of_int k) = k"
  by (simp add: rne_def)

lemma scale_round_dyadic_aux:
  "\<forall>m b. x = of_int m / 2 ^ b \<longrightarrow> 0 < m \<longrightarrow> m < 2 ^ 53 \<longrightarrow> scale_round x = x"
proof (induction x rule: scale_round.induct)
  case (1 x)
  show ?case
  proof (intro allI impI)
    fix m :: int and b :: nat
    assume x: "x = of_int m / 2 ^ b" and m: "0 < m" "m < 2 ^ 53"
    have xpos: "0 < x" using x m by simp
    have mr: "(of_int m :: real) < 2 ^ 53" using m(2) by (metis of_int_less_numeral_power_cancel_iff)
    have p1: "(1::real) \<le> 2 ^ b" by simp
    have "x \<le> of_int m" unfolding x using m(1) p1
      by (simp add: divide_le_eq)
    then have x53: "x < 2 ^ 53" using mr by linarith
    show "scale_round x = x"
    proof (cases "x < 2 ^ 52")
      case True
      have "\<exists>m' b'. 2 * x = of_int m' / 2 ^ b' \<and> 0 < m' \<and> m' < 2 ^ 53"
      proof (cases b)
        case 0
        then have xm: "x = of_int m" using x by simp
        then have "(of_int m :: real) < 2 ^ 52" using True by simp
        then have "m < 2 ^ 52" by (metis of_int_less_numeral_power_cancel_iff)
        then have "2 * m < 2 ^ 53" by simp
        moreover have "2 * x = of_int (2 * m) / 2 ^ 0" using xm by simp
        ultimately show ?thesis using m(1) by (intro exI[of _ "2 * m"] exI[of _ 0]) simp
      next
        case (Suc b')
        then have "2 * x = of_int m / 2 ^ b'" using x by simp
        then show ?thesis using m by blast
      qed
      then obtain m' b' where "2 * x = of_int m' / 2 ^ b'" "0 < m'" "m' < 2 ^ 53" by blast
      moreover have "\<not> x \<le> 0" "\<not> 2 ^ 53 \<le> x" using xpos x53 by simp_all
      ultimately have "scale_round (2 * x) = 2 * x" using "1.IH"(2) True by blast
      then show ?thesis using True xpos x53 by (subst scale_round.simps) simp
    next
      case False
      have "b = 0"
      proof (rule ccontr)
        assume "b \<noteq> 0"
        then obtain b' where b: "b = Suc b'" by (cases b) auto
        have "(1::real) \<le> 2 ^ b'" by simp
        then have "of_int m / 2 ^ b' \<le> (of_int m :: real)" using m(1) by (simp add: divide_le_eq)
        moreover have "x = (of_int m / 2 ^ b') / 2" using x b by simp
        ultimately have "x < 2 ^ 52" using mr by simp
        with False show False by simp
      qed
      then have "x = of_int m" using x by simp
      then show ?thesis using False xpos x53 by (subst scale_round.simps) (simp add: rne_of_int)
    qed
  qed
qed

lemma round64_dyadic:
  assumes "0 \<le> m" and "m < 2 ^ 53" and "b \<le> 1022"
  shows "round64 (of_int m / 2 ^ b) = of_int m / 2 ^ b"
proof (cases "m = 0")
  case True
  then show ?thesis by (simp add: round64_def)
next
  case False
  with assms have m: "0 < m" by simp
  then have "(1::real) \<le> of_int m" by simp
  moreover have "(2::real) ^ b \<le> 2 ^ 1022" using assms(3) by (intro power_increasing) simp_all
  ultimately have lo: "1 / 2 ^ 1022 \<le> (of_int m :: real) / 2 ^ b"
    by (intro frac_le) simp_all
  have pos: "0 < (of_int m :: real) / 2 ^ b" using m by simp
  have c: "(of_int m :: real) / 2 ^ b \<noteq> 0" "\<not> \<bar>(of_int m :: real) / 2 ^ b\<bar> < 1 / 2 ^ 1022"
    "\<not> (of_int m :: real) / 2 ^ b < 0"
    using lo pos by linarith+
  have "scale_round (of_int m / 2 ^ b) = of_int m / 2 ^ b"
    using scale_round_dyadic_aux[of "of_int m / 2 ^ b"] m assms(2) by blast
  then show ?thesis unfolding round64_def using c by (simp only: if_False)
qed

lemma f64_of_int_exact: "0 \<le> n \<Longrightarrow> n < 2 ^ 53 \<Longrightarrow> f64_of_int n = of_int n"
  using round64_dyadic[of n 0] by (simp add: f64_of_int_def)

lemma EstimateTokens_default:
  assumes "length text < 2 ^ 53"
  shows "EstimateTokens NewSimpleEstimator text = int (length text) div 4"
proof -
  let ?n = "int (length text)"
  have n: "0 \<le> ?n" "?n < 2 ^ 53" using assms by simp_all
  have "f64_div (f64_of_int ?n) 4 = round64 (of_int ?n / 2 ^ 2)"
    using f64_of_int_exact[OF n] by (simp add: f64_div_def)
  also have "\<dots> = of_int ?n / 2 ^ 2" using n by (intro round64_dyadic) simp_all
  finally have q: "f64_div (f64_of_int ?n) 4 = of_int ?n / of_int 4" by simp
  have nn: "0 \<le> (of_int ?n :: real) / of_int 4" by simp
  have "EstimateTokens NewSimpleEstimator text = int_of_f64 (f64_div (f64_of_int ?n) 4)"
    by (simp add: EstimateTokens_def NewSimpleEstimator_def)
  also have "\<dots> = \<lfloor>(of_int ?n :: real) / of_int 4\<rfloor>"
    unfolding q int_of_f64_def using nn by (simp only: if_True)
  also have "\<dots> = ?n div 4" by (rule floor_divide_of_int_eq)
  finally show ?thesis .
qed


lemma fold_plus_sum_list:
  "fold (\<lambda>x (total::int). total + f x) xs a = a + sum_list (map f xs)"
  by (induction xs arbitrary: a) simp_all

text \<open>
  The text cost as claim C6 words it: a quarter of the number of characters. In a UTF-8
  string a character is one byte that is not a continuation byte (\<open>0x80\<close> to \<open>0xBF\<close>)
  followed by its continuation bytes.
\<close>

definition spec_len_chars :: "string \<Rightarrow> nat" where
  "spec_len_chars s = length (filter (\<lambda>c. \<not> (128 \<le> (of_char c :: nat) \<and> (of_char c :: nat) < 192)) s)"

definition spec_estimate_text :: "string \<Rightarrow> int" where
  "spec_estimate_text s = int (spec_len_chars s) div 4"

text \<open>
  Claim C6 as stated fails: the estimator divides the number of bytes. The four characters
  of the UTF-8 string \<^verbatim>\<open>C3 A9 C3 A9 C3 A9 C3 A9\<close> (four times e-acute) cost 2 tokens, not 1.
\<close>

theorem EstimateTokens_counts_bytes_counterexample:
  "EstimateTokens NewSimpleEstimator
     [CHR 0xC3, CHR 0xA9, CHR 0xC3, CHR 0xA9, CHR 0xC3, CHR 0xA9, CHR 0xC3, CHR 0xA9] = 2 \<and>
   spec_estimate_text
     [CHR 0xC3, CHR 0xA9, CHR 0xC3, CHR 0xA9, CHR 0xC3, CHR 0xA9, CHR 0xC3, CHR 0xA9] = 1"
proof -
  have "EstimateTokens NewSimpleEstimator
     [CHR 0xC3, CHR 0xA9, CHR 0xC3, CHR 0xA9, CHR 0xC3, CHR 0xA9, CHR 0xC3, CHR 0xA9] = 2"
    by (subst EstimateTokens_default) simp_all
  moreover have "spec_estimate_text
     [CHR 0xC3, CHR 0xA9, CHR 0xC3, CHR 0xA9, CHR 0xC3, CHR 0xA9, CHR 0xC3, CHR 0xA9] = 1"
    by (simp add: spec_estimate_text_def spec_len_chars_def)
  ultimately show ?thesis by simp
qed

text \<open>
  Claim C6, amended. The estimate of a message is 4 plus, per content block: the text's
  tokens for Text; 20 plus the name's tokens plus, when the input is not nil and
  serializes, the tokens of its JSON serialization for ToolUse; 10 plus the content's
  tokens for ToolResult; 1500 for Image. The text cost of the default estimator is the
  number of bytes of the string divided by 4, rounded down (for strings shorter than
  \<open>2^53\<close> bytes, where the conversion to float64 is exact).
\<close>

theorem EstimateMessage_per_block:
  "EstimateMessage mar e (Some msg) =
     4 + sum_list (map (\<lambda>block. case block of
            TextBlock t \<Rightarrow> EstimateTokens e t
          | ToolUseBlock u \<Rightarrow>
              20 + EstimateTokens e (Name u) +
              (case Input u of
                 None \<Rightarrow> 0
               | Some inp \<Rightarrow> (case mar inp of None \<Rightarrow> 0 | Some js \<Rightarrow> EstimateTokens e js))
          | ToolResultBlock r \<Rightarrow> 10 + EstimateTokens e (ResultContent r)
          | ImageBlock i \<Rightarrow> 1500) (Content msg)) \<and>
   (length text < 2 ^ 53 \<longrightarrow>
      EstimateTokens NewSimpleEstimator text = int (length text) div 4)"
proof -
  have "block_tokens mar e = (\<lambda>block. case block of
            TextBlock t \<Rightarrow> EstimateTokens e t
          | ToolUseBlock u \<Rightarrow>
              20 + EstimateTokens e (Name u) +
              (case Input u of
                 None \<Rightarrow> 0
               | Some inp \<Rightarrow> (case mar inp of None \<Rightarrow> 0 | Some js \<Rightarrow> EstimateTokens e js))
          | ToolResultBlock r \<Rightarrow> 10 + EstimateTokens e (ResultContent r)
          | ImageBlock i \<Rightarrow> 1500)"
    by (rule ext) (simp split: ContentBlock.split)
  then have "EstimateMessage mar e (Some msg) = 4 + sum_list (map (\<lambda>block. case block of
            TextBlock t \<Rightarrow> EstimateTokens e t
          | ToolUseBlock u \<Rightarrow>
              20 + EstimateTokens e (Name u) +
              (case Input u of
                 None \<Rightarrow> 0
               | Some inp \<Rightarrow> (case mar inp of None \<Rightarrow> 0 | Some js \<Rightarrow> EstimateTokens e js))
          | ToolResultBlock r \<Rightarrow> 10 + EstimateTokens e (ResultContent r)
          | ImageBlock i \<Rightarrow> 1500) (Content msg))"
    using fold_plus_sum_list[of "block_tokens mar e" "Content msg" 4] by simp
  then show ?thesis using EstimateTokens_default by blast
qed

text \<open>
  The witness: an assistant message with a text, a tool call without input, a tool result
  and an image costs 4 + 2 + (20 + 2) + (10 + 1) + 1500 tokens.
\<close>

theorem EstimateMessage_per_block_witness:
  "length ''hello world'' < (2::nat) ^ 53 \<and>
   EstimateTokens NewSimpleEstimator ''hello world'' = 2 \<and>
   EstimateMessage (\<lambda>_. None) NewSimpleEstimator
     (Some \<lparr>Role = RoleAssistant,
            Content = [TextBlock ''hello world'',
                       ToolUseBlock \<lparr>ID = ''t1'', Name = ''file_read'', Input = None\<rparr>,
                       ToolResultBlock \<lparr>ToolUseID = ''t1'', ResultContent = ''BODY'',
                                        IsError = False\<rparr>,
                       ImageBlock \<lparr>Type = ''base64'', MediaType = ''image/png'',
                                   Data = ''AAAA''\<rparr>]\<rparr>) = 1539"
proof -
  have t: "EstimateTokens NewSimpleEstimator ''hello world'' = 2"
    "EstimateTokens NewSimpleEstimator ''file_read'' = 2"
    "EstimateTokens NewSimpleEstimator ''BODY'' = 1"
    using EstimateMessage_per_block[of _ _ _ "''hello world''"]
      EstimateMessage_per_block[of _ _ _ "''file_read''"]
      EstimateMessage_per_block[of _ _ _ "''BODY''"]
    by simp_all
  show ?thesis
    using t EstimateMessage_per_block[of "\<lambda>_. None" NewSimpleEstimator
      "\<lparr>Role = RoleAssistant,
            Content = [TextBlock ''hello world'',
                       ToolUseBlock \<lparr>ID = ''t1'', Name = ''file_read'', Input = None\<rparr>,
                       ToolResultBlock \<lparr>ToolUseID = ''t1'', ResultContent = ''BODY'',
                                        IsError = False\<rparr>,
                       ImageBlock \<lparr>Type = ''base64'', MediaType = ''image/png'',
                                   Data = ''AAAA''\<rparr>]\<rparr>" "''hello world''"]
    by simp
qed

section \<open>Budget (internal/context/budget.go)\<close>

text \<open>
  Token counts are Go \<^verbatim>\<open>int\<close>s, carried as unbounded integers: the sums of this theory
  stay far below \<open>2^63\<close>. The mutex of the source orders concurrent calls; the functions
  here are the calls themselves. The fields of \<^verbatim>\<open>BudgetConfig\<close> carry the prefix
  \<open>Budget\<close>.
\<close>

record Budget =
  maxTokens :: int
  reserveForResponse :: int
  modelContextSize :: int
  totalInputTokens :: int
  totalOutputTokens :: int
  sessionCost :: float64
  inputPricePer1M :: float64
  outputPricePer1M :: float64
  warnThreshold :: float64
  compactThreshold :: float64

record BudgetConfig =
  BudgetMaxTokens :: int
  BudgetReserveForResponse :: int
  BudgetModelContextSize :: int
  BudgetWarnThreshold :: float64
  BudgetCompactThreshold :: float64

record BudgetSnapshot =
  CurrentContextTokens :: int
  MaxContextTokens :: int
  UsagePercent :: float64
  SessionInputTokens :: int
  SessionOutputTokens :: int
  SessionCost :: float64
  RemainingTokens :: int
  AtWarningLevel :: bool
  AtCompactLevel :: bool

definition NewBudget :: "BudgetConfig \<Rightarrow> Budget" where
  "NewBudget cfg =
     \<lparr>maxTokens = BudgetMaxTokens cfg,
      reserveForResponse = BudgetReserveForResponse cfg,
      modelContextSize = BudgetModelContextSize cfg,
      totalInputTokens = 0,
      totalOutputTokens = 0,
      sessionCost = 0,
      inputPricePer1M = 0,
      outputPricePer1M = 0,
      warnThreshold = (if BudgetWarnThreshold cfg \<le> 0 then f64_lit (8 / 10)
                       else BudgetWarnThreshold cfg),
      compactThreshold = (if BudgetCompactThreshold cfg \<le> 0 then f64_lit (9 / 10)
                          else BudgetCompactThreshold cfg)\<rparr>"

definition SetPricing :: "Budget \<Rightarrow> float64 \<Rightarrow> float64 \<Rightarrow> Budget" where
  "SetPricing b inputPer1M outputPer1M =
     b\<lparr>inputPricePer1M := inputPer1M, outputPricePer1M := outputPer1M\<rparr>"

definition RecordUsage :: "Budget \<Rightarrow> int \<Rightarrow> int \<Rightarrow> Budget" where
  "RecordUsage b inputTokens outputTokens =
     (let inputCost = f64_mul (f64_div (f64_of_int inputTokens) 1000000) (inputPricePer1M b);
          outputCost = f64_mul (f64_div (f64_of_int outputTokens) 1000000) (outputPricePer1M b)
      in b\<lparr>totalInputTokens := totalInputTokens b + inputTokens,
            totalOutputTokens := totalOutputTokens b + outputTokens,
            sessionCost := f64_add (sessionCost b) (f64_add inputCost outputCost)\<rparr>)"

definition GetEffectiveLimit :: "Budget \<Rightarrow> int" where
  "GetEffectiveLimit b =
     (let limit = (if 0 < modelContextSize b \<and> modelContextSize b < maxTokens b
                   then modelContextSize b else maxTokens b)
      in limit - reserveForResponse b)"

definition GetSnapshot :: "Budget \<Rightarrow> int \<Rightarrow> BudgetSnapshot" where
  "GetSnapshot b currentContextTokens =
     (let effectiveMax = GetEffectiveLimit b;
          usagePercent =
            (if 0 < effectiveMax
             then f64_mul (f64_div (f64_of_int currentContextTokens) (f64_of_int effectiveMax)) 100
             else 0)
      in \<lparr>CurrentContextTokens = currentContextTokens,
          MaxContextTokens = effectiveMax,
          UsagePercent = usagePercent,
          SessionInputTokens = totalInputTokens b,
          SessionOutputTokens = totalOutputTokens b,
          SessionCost = sessionCost b,
          RemainingTokens = effectiveMax - currentContextTokens,
          AtWarningLevel = (f64_mul (warnThreshold b) 100 \<le> usagePercent),
          AtCompactLevel = (f64_mul (compactThreshold b) 100 \<le> usagePercent)\<rparr>)"

definition ShouldWarn :: "Budget \<Rightarrow> int \<Rightarrow> bool" where
  "ShouldWarn b currentContextTokens =
     (let effectiveMax = GetEffectiveLimit b
      in if effectiveMax \<le> 0 then False
         else warnThreshold b \<le> f64_div (f64_of_int currentContextTokens) (f64_of_int effectiveMax))"

definition ShouldCompact :: "Budget \<Rightarrow> int \<Rightarrow> bool" where
  "ShouldCompact b currentContextTokens =
     (let effectiveMax = GetEffectiveLimit b
      in if effectiveMax \<le> 0 then False
         else compactThreshold b \<le> f64_div (f64_of_int currentContextTokens) (f64_of_int effectiveMax))"

definition Reset :: "Budget \<Rightarrow> Budget" where
  "Reset b = b\<lparr>totalInputTokens := 0, totalOutputTokens := 0, sessionCost := 0\<rparr>"

definition UpdateModelContextSize :: "Budget \<Rightarrow> int \<Rightarrow> Budget" where
  "UpdateModelContextSize b n = b\<lparr>modelContextSize := n\<rparr>"

section \<open>Properties of the budget\<close>

text \<open>Evaluating a rounding at a concrete argument.\<close>

lemma scale_round_shift:
  "0 < x \<Longrightarrow> 2 ^ 52 \<le> x * 2 ^ k \<Longrightarrow> x * 2 ^ k < 2 ^ 53 \<Longrightarrow>
   scale_round x = of_int (rne (x * 2 ^ k)) / 2 ^ k"
proof (induction k arbitrary: x)
  case 0
  then show ?case by (subst scale_round.simps) simp
next
  case (Suc k)
  have "(2::real) \<le> 2 ^ Suc k" by simp
  then have "2 * x \<le> x * 2 ^ Suc k" using Suc.prems(1) by (simp add: mult.commute)
  then have x: "x < 2 ^ 52" using Suc.prems(3) by simp
  have "scale_round (2 * x) = of_int (rne (2 * x * 2 ^ k)) / 2 ^ k"
    using Suc.prems by (intro Suc.IH) (simp_all add: mult.assoc mult.left_commute)
  then show ?case using x Suc.prems(1)
    by (subst scale_round.simps) (simp add: mult.assoc mult.left_commute mult.commute)
qed

lemma round64_shift:
  "1 / 2 ^ 1022 \<le> x \<Longrightarrow> 2 ^ 52 \<le> x * 2 ^ k \<Longrightarrow> x * 2 ^ k < 2 ^ 53 \<Longrightarrow>
   round64 x = of_int (rne (x * 2 ^ k)) / 2 ^ k"
proof -
  assume a: "1 / 2 ^ 1022 \<le> x" "2 ^ 52 \<le> x * 2 ^ k" "x * 2 ^ k < 2 ^ 53"
  have "(0::real) < 1 / 2 ^ 1022" by simp
  then have p: "0 < x" using a(1) by linarith
  then have c: "x \<noteq> 0" "\<not> \<bar>x\<bar> < 1 / 2 ^ 1022" "\<not> x < 0" using a(1) by linarith+
  show ?thesis unfolding round64_def using c scale_round_shift[OF p a(2,3)]
    by (simp only: if_False)
qed

text \<open>
  Claim C7 as stated fails for the session cost, which is a float64 sum. With the prices
  3.00 and 15.00 per million tokens, recording the usages (0, 1) and (0, 2) accumulates
  \<^verbatim>\<open>0x1.797cc39ffd60ep-15\<close>, recording (0, 3) at once gives \<^verbatim>\<open>0x1.797cc39ffd60fp-15\<close>.
\<close>

theorem RecordUsage_cost_counterexample:
  "sessionCost (RecordUsage (RecordUsage (SetPricing (NewBudget
       \<lparr>BudgetMaxTokens = 100000, BudgetReserveForResponse = 8192,
        BudgetModelContextSize = 200000, BudgetWarnThreshold = 0,
        BudgetCompactThreshold = 0\<rparr>) 3 15) 0 1) 0 2)
     = 3320413933267719 / 73786976294838206464 \<and>
   sessionCost (RecordUsage (SetPricing (NewBudget
       \<lparr>BudgetMaxTokens = 100000, BudgetReserveForResponse = 8192,
        BudgetModelContextSize = 200000, BudgetWarnThreshold = 0,
        BudgetCompactThreshold = 0\<rparr>) 3 15) (0 + 0) (1 + 2))
     = 6640827866535439 / 147573952589676412928 \<and>
   sessionCost (RecordUsage (RecordUsage (SetPricing (NewBudget
       \<lparr>BudgetMaxTokens = 100000, BudgetReserveForResponse = 8192,
        BudgetModelContextSize = 200000, BudgetWarnThreshold = 0,
        BudgetCompactThreshold = 0\<rparr>) 3 15) 0 1) 0 2)
     \<noteq> sessionCost (RecordUsage (SetPricing (NewBudget
       \<lparr>BudgetMaxTokens = 100000, BudgetReserveForResponse = 8192,
        BudgetModelContextSize = 200000, BudgetWarnThreshold = 0,
        BudgetCompactThreshold = 0\<rparr>) 3 15) (0 + 0) (1 + 2))"
proof -
  have o1: "f64_mul (f64_div (f64_of_int 1) 1000000) 15 = 1106804644422573 / 73786976294838206464"
    by (simp add: f64_add_def f64_mul_def f64_div_def f64_of_int_def round64_def
        scale_round.simps rne_def Let_def)
  have o2: "f64_mul (f64_div (f64_of_int 2) 1000000) 15 = 1106804644422573 / 36893488147419103232"
    by (simp add: f64_add_def f64_mul_def f64_div_def f64_of_int_def round64_def
        scale_round.simps rne_def Let_def)
  have o3: "f64_mul (f64_div (f64_of_int 3) 1000000) 15 = 6640827866535439 / 147573952589676412928"
    by (simp add: f64_add_def f64_mul_def f64_div_def f64_of_int_def round64_def
        scale_round.simps rne_def Let_def)
  have z: "f64_mul (f64_div (f64_of_int 0) 1000000) 3 = 0"
    by (simp add: f64_add_def f64_mul_def f64_div_def f64_of_int_def round64_def
        scale_round.simps rne_def Let_def)
  have a1: "f64_add 0 (f64_add 0 (1106804644422573 / 73786976294838206464))
              = 1106804644422573 / 73786976294838206464"
    by (simp add: f64_add_def f64_mul_def f64_div_def f64_of_int_def round64_def
        scale_round.simps rne_def Let_def)
  have a2: "f64_add (1106804644422573 / 73786976294838206464)
              (f64_add 0 (1106804644422573 / 36893488147419103232))
              = 3320413933267719 / 73786976294838206464"
    by (simp add: f64_add_def f64_mul_def f64_div_def f64_of_int_def round64_def
        scale_round.simps rne_def Let_def)
  have a3: "f64_add 0 (f64_add 0 (6640827866535439 / 147573952589676412928))
              = 6640827866535439 / 147573952589676412928"
    by (simp add: f64_add_def f64_mul_def f64_div_def f64_of_int_def round64_def
        scale_round.simps rne_def Let_def)
  have c12: "sessionCost (RecordUsage (RecordUsage (SetPricing (NewBudget
       \<lparr>BudgetMaxTokens = 100000, BudgetReserveForResponse = 8192,
        BudgetModelContextSize = 200000, BudgetWarnThreshold = 0,
        BudgetCompactThreshold = 0\<rparr>) 3 15) 0 1) 0 2)
     = 3320413933267719 / 73786976294838206464"
    by (simp add: RecordUsage_def SetPricing_def NewBudget_def o1 o2 z a1 a2)
  have c3: "sessionCost (RecordUsage (SetPricing (NewBudget
       \<lparr>BudgetMaxTokens = 100000, BudgetReserveForResponse = 8192,
        BudgetModelContextSize = 200000, BudgetWarnThreshold = 0,
        BudgetCompactThreshold = 0\<rparr>) 3 15) (0 + 0) (1 + 2))
     = 6640827866535439 / 147573952589676412928"
    by (simp add: RecordUsage_def SetPricing_def NewBudget_def o3 z a3)
  show ?thesis unfolding c12 c3 by simp
qed

text \<open>
  The error of one rounding. \<open>unit_roundoff\<close> is half the distance from 1 to the next
  float64. A result that is zero or at least \<open>2^-1022\<close> (the normal range) is rounded with
  a relative error of at most \<open>unit_roundoff\<close>. \<open>rounded k x X\<close> says that \<open>x\<close> lies
  within \<open>k\<close> such roundings of the non-negative exact value \<open>X\<close>.
\<close>

definition unit_roundoff :: real where
  "unit_roundoff = 1 / 2 ^ 53"

lemma rne_error: "\<bar>of_int (rne q) - q\<bar> \<le> 1 / 2"
proof -
  have "of_int \<lfloor>q\<rfloor> \<le> q" "q < of_int \<lfloor>q\<rfloor> + 1" by linarith+
  then show ?thesis by (auto simp: rne_def Let_def)
qed

lemma scale_round_error: "0 < x \<longrightarrow> \<bar>scale_round x - x\<bar> \<le> x * unit_roundoff"
proof (induction x rule: scale_round.induct)
  case (1 x)
  show ?case
  proof
    assume p: "0 < x"
    consider (big) "2 ^ 53 \<le> x" | (small) "x < 2 ^ 52" | (mid) "2 ^ 52 \<le> x" "x < 2 ^ 53"
      by linarith
    then show "\<bar>scale_round x - x\<bar> \<le> x * unit_roundoff"
    proof cases
      case big
      have "\<bar>scale_round (x / 2) - x / 2\<bar> \<le> (x / 2) * unit_roundoff"
        using "1.IH"(1) p big by simp
      moreover have "(x / 2) * unit_roundoff = (x * unit_roundoff) / 2" by simp
      moreover have "scale_round x = 2 * scale_round (x / 2)"
        using p big by (subst scale_round.simps) simp
      ultimately show ?thesis by linarith
    next
      case small
      have n: "\<not> 2 ^ 53 \<le> x" using small by simp
      have "\<bar>scale_round (2 * x) - 2 * x\<bar> \<le> (2 * x) * unit_roundoff"
        using "1.IH"(2) p small n by simp
      moreover have "(2 * x) * unit_roundoff = 2 * (x * unit_roundoff)" by simp
      moreover have "scale_round x = scale_round (2 * x) / 2"
        using p small n by (subst scale_round.simps) simp
      ultimately show ?thesis by linarith
    next
      case mid
      have "scale_round x = of_int (rne x)"
        using p mid by (subst scale_round.simps) simp
      moreover have "2 ^ 52 * unit_roundoff \<le> x * unit_roundoff"
        using mid(1) by (intro mult_right_mono) (simp_all add: unit_roundoff_def)
      moreover have "2 ^ 52 * unit_roundoff = 1 / 2" by (simp add: unit_roundoff_def)
      ultimately show ?thesis using rne_error[of x] by linarith
    qed
  qed
qed

lemma round64_error:
  assumes "x = 0 \<or> 1 / 2 ^ 1022 \<le> x"
  shows "x * (1 - unit_roundoff) \<le> round64 x \<and> round64 x \<le> x * (1 + unit_roundoff)"
proof (cases "x = 0")
  case True
  then show ?thesis by (simp add: round64_def)
next
  case False
  then have lo: "1 / 2 ^ 1022 \<le> x" using assms by simp
  have "(0::real) < 1 / 2 ^ 1022" by simp
  then have p: "0 < x" using lo by linarith
  then have c: "x \<noteq> 0" "\<not> \<bar>x\<bar> < 1 / 2 ^ 1022" "\<not> x < 0" using lo by linarith+
  have r: "round64 x = scale_round x" unfolding round64_def using c by (simp only: if_False)
  have e: "\<bar>scale_round x - x\<bar> \<le> x * unit_roundoff" using scale_round_error p by blast
  have d: "x * (1 - unit_roundoff) = x - x * unit_roundoff"
          "x * (1 + unit_roundoff) = x + x * unit_roundoff"
    by (simp_all add: algebra_simps)
  show ?thesis unfolding r d using e by linarith
qed

definition rounded :: "nat \<Rightarrow> real \<Rightarrow> real \<Rightarrow> bool" where
  "rounded k x X = (X * (1 - unit_roundoff) ^ k \<le> x \<and> x \<le> X * (1 + unit_roundoff) ^ k)"

lemma unit_roundoff_bounds: "0 < unit_roundoff" "unit_roundoff < 1"
  by (simp_all add: unit_roundoff_def)

lemma rounded_exact: "rounded 0 x x"
  by (simp add: rounded_def)

lemma rounded_mono:
  assumes "rounded k x X" and "k \<le> j" and "0 \<le> X"
  shows "rounded j x X"
proof -
  have "(1 - unit_roundoff) ^ j \<le> (1 - unit_roundoff) ^ k"
    using assms(2) unit_roundoff_bounds by (intro power_decreasing) simp_all
  then have "X * (1 - unit_roundoff) ^ j \<le> X * (1 - unit_roundoff) ^ k"
    using assms(3) by (rule mult_left_mono)
  moreover have "(1 + unit_roundoff) ^ k \<le> (1 + unit_roundoff) ^ j"
    using assms(2) unit_roundoff_bounds by (intro power_increasing) simp_all
  then have "X * (1 + unit_roundoff) ^ k \<le> X * (1 + unit_roundoff) ^ j"
    using assms(3) by (rule mult_left_mono)
  ultimately show ?thesis using assms(1) unfolding rounded_def by linarith
qed

lemma rounded_add: "rounded k x X \<Longrightarrow> rounded k y Y \<Longrightarrow> rounded k (x + y) (X + Y)"
  unfolding rounded_def by (simp only: distrib_right) linarith

lemma rounded_mult: "rounded k x X \<Longrightarrow> 0 \<le> p \<Longrightarrow> rounded k (x * p) (X * p)"
proof -
  assume w: "rounded k x X" and p: "0 \<le> p"
  have "X * (1 - unit_roundoff) ^ k * p \<le> x * p" "x * p \<le> X * (1 + unit_roundoff) ^ k * p"
    using w p unfolding rounded_def by (simp_all add: mult_right_mono)
  then show ?thesis unfolding rounded_def by (simp add: mult.assoc mult.left_commute mult.commute)
qed

lemma rounded_zero: "rounded k x 0 \<Longrightarrow> x = 0"
  by (simp add: rounded_def)

lemma rounded_nonneg: "rounded k x X \<Longrightarrow> 0 \<le> X \<Longrightarrow> 0 \<le> x"
proof -
  assume w: "rounded k x X" and X: "0 \<le> X"
  have "0 \<le> (1 - unit_roundoff) ^ k" using unit_roundoff_bounds by simp
  then have "0 \<le> X * (1 - unit_roundoff) ^ k" using X by simp
  then show ?thesis using w unfolding rounded_def by linarith
qed

lemma Bernoulli_down: "1 - of_nat k * unit_roundoff \<le> (1 - unit_roundoff) ^ k"
  using Bernoulli_inequality[of "- unit_roundoff" k] unit_roundoff_bounds by simp

lemma rounded_round:
  assumes w: "rounded k x X" and k: "k \<le> 5" and X: "X = 0 \<or> 2 / 2 ^ 1022 \<le> X"
  shows "rounded (Suc k) (round64 x) X"
proof -
  have X0: "0 \<le> X" using X by (auto intro: order_trans[of 0 "2 / 2 ^ 1022"])
  have x0: "0 \<le> x" using w X0 by (rule rounded_nonneg)
  have "x = 0 \<or> 1 / 2 ^ 1022 \<le> x"
  proof (cases "X = 0")
    case True
    then show ?thesis using w rounded_zero by blast
  next
    case False
    then have b: "2 / 2 ^ 1022 \<le> X" using X by simp
    have "of_nat k * unit_roundoff \<le> 5 * unit_roundoff"
      using k unit_roundoff_bounds by (intro mult_right_mono) simp_all
    also have "\<dots> \<le> 1 / 2" by (simp add: unit_roundoff_def)
    finally have "1 / 2 \<le> (1 - unit_roundoff) ^ k" using Bernoulli_down[of k] by linarith
    then have "X * (1 / 2) \<le> X * (1 - unit_roundoff) ^ k" using X0 by (rule mult_left_mono)
    then have "X / 2 \<le> x" using w unfolding rounded_def by simp
    then show ?thesis using b by simp
  qed
  from round64_error[OF this]
  have r: "x * (1 - unit_roundoff) \<le> round64 x" "round64 x \<le> x * (1 + unit_roundoff)" by simp_all
  have "X * (1 - unit_roundoff) ^ k * (1 - unit_roundoff) \<le> x * (1 - unit_roundoff)"
    using w unit_roundoff_bounds unfolding rounded_def by (intro mult_right_mono) simp_all
  moreover have "x * (1 + unit_roundoff) \<le> X * (1 + unit_roundoff) ^ k * (1 + unit_roundoff)"
    using w unit_roundoff_bounds unfolding rounded_def by (intro mult_right_mono) simp_all
  moreover have "X * (1 - unit_roundoff) ^ Suc k = X * (1 - unit_roundoff) ^ k * (1 - unit_roundoff)"
    "X * (1 + unit_roundoff) ^ Suc k = X * (1 + unit_roundoff) ^ k * (1 + unit_roundoff)"
    by (simp_all only: power_Suc2 mult.assoc)
  ultimately show ?thesis using r unfolding rounded_def by linarith
qed

lemma tiny_bounds:
  "(2::real) / 2 ^ 1022 \<le> 1 / 1000000"
  "(2::real) / 2 ^ 1022 \<le> 1 / 1000000 * (1 / 2 ^ 1000)"
  by simp_all

lemma rounded_sum_floor:
  "X = 0 \<or> 2 / 2 ^ 1022 \<le> X \<Longrightarrow> Y = 0 \<or> 2 / 2 ^ 1022 \<le> Y \<Longrightarrow>
   X + Y = 0 \<or> 2 / 2 ^ 1022 \<le> (X + Y :: real)"
proof -
  assume a: "X = 0 \<or> 2 / 2 ^ 1022 \<le> X" "Y = 0 \<or> 2 / 2 ^ 1022 \<le> Y"
  have "(0::real) \<le> 2 / 2 ^ 1022" by simp
  then show ?thesis using a by linarith
qed

lemma token_cost_rounded:
  assumes n: "0 \<le> n" "n < 2 ^ 53" and p: "p = 0 \<or> 1 / 2 ^ 1000 \<le> p"
  shows "rounded 2 (f64_mul (f64_div (f64_of_int n) 1000000) p) (of_int n / 1000000 * p) \<and>
         (of_int n / 1000000 * p = 0 \<or> 2 / 2 ^ 1022 \<le> of_int n / 1000000 * p)"
proof -
  let ?T = "of_int n / 1000000 :: real"
  have p0: "0 \<le> p" using p by (auto intro: order_trans[of 0 "1 / 2 ^ 1000"])
  have T: "?T = 0 \<or> 2 / 2 ^ 1022 \<le> ?T"
  proof (cases "n = 0")
    case True then show ?thesis by simp
  next
    case False
    then have "1 \<le> n" using n(1) by simp
    then have "(1::real) \<le> of_int n" by simp
    then have "1 / 1000000 \<le> ?T" by (simp add: divide_right_mono)
    then show ?thesis using tiny_bounds(1) by linarith
  qed
  have TP: "?T * p = 0 \<or> 2 / 2 ^ 1022 \<le> ?T * p"
  proof (cases "n = 0 \<or> p = 0")
    case True then show ?thesis by auto
  next
    case False
    then have "1 \<le> n" "1 / 2 ^ 1000 \<le> p" using n(1) p by simp_all
    then have "(1::real) \<le> of_int n" by simp
    then have "1 / 1000000 \<le> ?T" by (simp add: divide_right_mono)
    then have "1 / 1000000 * (1 / 2 ^ 1000) \<le> ?T * p"
      using \<open>1 / 2 ^ 1000 \<le> p\<close> by (intro mult_mono) simp_all
    then show ?thesis using tiny_bounds(2) by linarith
  qed
  have "f64_div (f64_of_int n) 1000000 = round64 ?T"
    using f64_of_int_exact[OF n] by (simp add: f64_div_def)
  moreover have "rounded (Suc 0) (round64 ?T) ?T"
    using rounded_exact T by (intro rounded_round) simp_all
  ultimately have "rounded (Suc 0) (f64_div (f64_of_int n) 1000000) ?T" by simp
  then have "rounded (Suc 0) (f64_div (f64_of_int n) 1000000 * p) (?T * p)"
    using p0 by (rule rounded_mult)
  then have "rounded (Suc (Suc 0)) (round64 (f64_div (f64_of_int n) 1000000 * p)) (?T * p)"
    using TP by (intro rounded_round) simp_all
  then show ?thesis using TP by (simp add: f64_mul_def numeral_2_eq_2)
qed

lemma RecordUsage_cost_rounded:
  assumes i: "0 \<le> i" "i < 2 ^ 53" and o: "0 \<le> j" "j < 2 ^ 53"
    and pin: "inputPricePer1M b = 0 \<or> 1 / 2 ^ 1000 \<le> inputPricePer1M b"
    and pout: "outputPricePer1M b = 0 \<or> 1 / 2 ^ 1000 \<le> outputPricePer1M b"
    and c: "rounded k (sessionCost b) C" "C = 0 \<or> 2 / 2 ^ 1022 \<le> C" and k: "3 \<le> k" "k \<le> 4"
  shows "rounded (Suc k) (sessionCost (RecordUsage b i j))
           (C + (of_int i / 1000000 * inputPricePer1M b + of_int j / 1000000 * outputPricePer1M b)) \<and>
         (C + (of_int i / 1000000 * inputPricePer1M b + of_int j / 1000000 * outputPricePer1M b) = 0 \<or>
          2 / 2 ^ 1022 \<le> C + (of_int i / 1000000 * inputPricePer1M b + of_int j / 1000000 * outputPricePer1M b))"
proof -
  let ?XI = "of_int i / 1000000 * inputPricePer1M b"
  let ?XO = "of_int j / 1000000 * outputPricePer1M b"
  let ?I = "f64_mul (f64_div (f64_of_int i) 1000000) (inputPricePer1M b)"
  let ?O = "f64_mul (f64_div (f64_of_int j) 1000000) (outputPricePer1M b)"
  from token_cost_rounded[OF i pin] have I: "rounded 2 ?I ?XI" "?XI = 0 \<or> 2 / 2 ^ 1022 \<le> ?XI"
    by simp_all
  from token_cost_rounded[OF o pout] have O: "rounded 2 ?O ?XO" "?XO = 0 \<or> 2 / 2 ^ 1022 \<le> ?XO"
    by simp_all
  have S: "?XI + ?XO = 0 \<or> 2 / 2 ^ 1022 \<le> ?XI + ?XO" using I(2) O(2) by (rule rounded_sum_floor)
  have "rounded 2 (?I + ?O) (?XI + ?XO)" using I(1) O(1) by (rule rounded_add)
  then have "rounded (Suc 2) (round64 (?I + ?O)) (?XI + ?XO)" using S by (intro rounded_round) simp_all
  then have s3: "rounded 3 (f64_add ?I ?O) (?XI + ?XO)"
    by (simp add: f64_add_def numeral_3_eq_3 numeral_2_eq_2)
  have S0: "0 \<le> ?XI + ?XO" using S by (auto intro: order_trans[of 0 "2 / 2 ^ 1022"])
  have sk: "rounded k (f64_add ?I ?O) (?XI + ?XO)" using s3 k(1) S0 by (rule rounded_mono)
  have T: "C + (?XI + ?XO) = 0 \<or> 2 / 2 ^ 1022 \<le> C + (?XI + ?XO)"
    using c(2) S by (rule rounded_sum_floor)
  have "rounded k (sessionCost b + f64_add ?I ?O) (C + (?XI + ?XO))" using c(1) sk by (rule rounded_add)
  then have "rounded (Suc k) (round64 (sessionCost b + f64_add ?I ?O)) (C + (?XI + ?XO))"
    using T k(2) by (intro rounded_round) simp_all
  moreover have "sessionCost (RecordUsage b i j) = round64 (sessionCost b + f64_add ?I ?O)"
    by (simp add: RecordUsage_def Let_def f64_add_def)
  ultimately show ?thesis using T by simp
qed

lemma rounded5_bounds:
  assumes "rounded 5 x E" and "0 \<le> E"
  shows "\<bar>x - E\<bar> \<le> E / 2 ^ 50"
proof -
  define d where "d = E / 2 ^ 50"
  have up: "(1 + unit_roundoff) ^ 5 \<le> 1 + 1 / 2 ^ 50"
    by (simp add: unit_roundoff_def power_divide divide_simps)
  have "1 - 1 / 2 ^ 50 \<le> 1 - of_nat 5 * unit_roundoff" by (simp add: unit_roundoff_def)
  then have lo: "1 - 1 / 2 ^ 50 \<le> (1 - unit_roundoff) ^ 5"
    using Bernoulli_down[of 5] by linarith
  have l: "E * (1 - 1 / 2 ^ 50) \<le> E * (1 - unit_roundoff) ^ 5"
    using lo assms(2) by (rule mult_left_mono)
  have u: "E * (1 + unit_roundoff) ^ 5 \<le> E * (1 + 1 / 2 ^ 50)"
    using up assms(2) by (rule mult_left_mono)
  have e: "E * (1 - 1 / 2 ^ 50) = E - d" "E * (1 + 1 / 2 ^ 50) = E + d"
    unfolding d_def by (simp_all only: right_diff_distrib distrib_left mult_1_right times_divide_eq_right)
  have w: "E * (1 - unit_roundoff) ^ 5 \<le> x" "x \<le> E * (1 + unit_roundoff) ^ 5"
    using assms(1) by (simp_all add: rounded_def)
  have "\<bar>x - E\<bar> \<le> d" using l u w unfolding e by linarith
  then show ?thesis unfolding d_def .
qed

lemma token_cost_bound:
  assumes "0 \<le> n" "n < 2 ^ 53" "0 \<le> p" "p \<le> 2 ^ 900"
  shows "of_int n / 1000000 * p \<le> (2 ^ 953 :: real)"
proof -
  have "(of_int n :: real) < 2 ^ 53" using assms(2) by (metis of_int_less_numeral_power_cancel_iff)
  moreover have "(of_int n :: real) / 1000000 \<le> of_int n" using assms(1) by simp
  ultimately have "(of_int n :: real) / 1000000 \<le> 2 ^ 53" by linarith
  then have "of_int n / 1000000 * p \<le> 2 ^ 53 * (2 ^ 900 :: real)"
    using assms(1,3,4) by (intro mult_mono) simp_all
  also have "\<dots> = 2 ^ 953" by (simp only: power_add[symmetric]) simp
  finally show ?thesis .
qed


text \<open>
  Claim C7, amended. For all integers and any pricing, two calls of \<^verbatim>\<open>RecordUsage\<close> leave
  the same session input tokens, the same session output tokens and the same other fields
  as the single call with the sums; the session cost is excepted. For non-negative token
  counts whose sums are below \<open>2^53\<close>, prices that are zero or between \<open>2^-1000\<close> and
  \<open>2^900\<close>, and an accumulated cost that is zero or between \<open>2^-1021\<close> and \<open>2^1000\<close>, the
  session cost of either sequence differs from the exact cost
  \<open>cost + (a + c) / 1e6 * input_price + (b + d) / 1e6 * output_price\<close> by at most \<open>2^-50\<close>
  times that cost; the two session costs differ by at most \<open>2^-49\<close> times it, and both stay
  below \<open>2^1002\<close>, far from the largest float64.
\<close>

theorem RecordUsage_additive_up_to_rounding:
  "totalInputTokens (RecordUsage (RecordUsage b a1 o1) a2 o2)
     = totalInputTokens (RecordUsage b (a1 + a2) (o1 + o2)) \<and>
   totalOutputTokens (RecordUsage (RecordUsage b a1 o1) a2 o2)
     = totalOutputTokens (RecordUsage b (a1 + a2) (o1 + o2)) \<and>
   (RecordUsage (RecordUsage b a1 o1) a2 o2)\<lparr>sessionCost := 0\<rparr>
     = (RecordUsage b (a1 + a2) (o1 + o2))\<lparr>sessionCost := 0\<rparr> \<and>
   (0 \<le> a1 \<and> 0 \<le> a2 \<and> a1 + a2 < 2 ^ 53 \<and> 0 \<le> o1 \<and> 0 \<le> o2 \<and> o1 + o2 < 2 ^ 53 \<and>
    (inputPricePer1M b = 0 \<or> 1 / 2 ^ 1000 \<le> inputPricePer1M b \<and> inputPricePer1M b \<le> 2 ^ 900) \<and>
    (outputPricePer1M b = 0 \<or> 1 / 2 ^ 1000 \<le> outputPricePer1M b \<and> outputPricePer1M b \<le> 2 ^ 900) \<and>
    (sessionCost b = 0 \<or> 1 / 2 ^ 1021 \<le> sessionCost b \<and> sessionCost b \<le> 2 ^ 1000) \<longrightarrow>
    (let exact = sessionCost b + of_int (a1 + a2) / 1000000 * inputPricePer1M b
                   + of_int (o1 + o2) / 1000000 * outputPricePer1M b;
         twice = sessionCost (RecordUsage (RecordUsage b a1 o1) a2 o2);
         once = sessionCost (RecordUsage b (a1 + a2) (o1 + o2))
     in \<bar>twice - exact\<bar> \<le> exact / 2 ^ 50 \<and> \<bar>once - exact\<bar> \<le> exact / 2 ^ 50 \<and>
        \<bar>twice - once\<bar> \<le> exact / 2 ^ 49 \<and> twice \<le> 2 ^ 1002 \<and> once \<le> 2 ^ 1002))"
proof -
  have tokens: "totalInputTokens (RecordUsage (RecordUsage b a1 o1) a2 o2)
     = totalInputTokens (RecordUsage b (a1 + a2) (o1 + o2)) \<and>
   totalOutputTokens (RecordUsage (RecordUsage b a1 o1) a2 o2)
     = totalOutputTokens (RecordUsage b (a1 + a2) (o1 + o2)) \<and>
   (RecordUsage (RecordUsage b a1 o1) a2 o2)\<lparr>sessionCost := 0\<rparr>
     = (RecordUsage b (a1 + a2) (o1 + o2))\<lparr>sessionCost := 0\<rparr>"
    by (simp add: RecordUsage_def Let_def)
  let ?pi = "inputPricePer1M b" and ?po = "outputPricePer1M b" and ?c0 = "sessionCost b"
  let ?E = "?c0 + of_int (a1 + a2) / 1000000 * ?pi + of_int (o1 + o2) / 1000000 * ?po"
  let ?twice = "sessionCost (RecordUsage (RecordUsage b a1 o1) a2 o2)"
  let ?once = "sessionCost (RecordUsage b (a1 + a2) (o1 + o2))"
  have cost: "\<bar>?twice - ?E\<bar> \<le> ?E / 2 ^ 50 \<and> \<bar>?once - ?E\<bar> \<le> ?E / 2 ^ 50 \<and>
        \<bar>?twice - ?once\<bar> \<le> ?E / 2 ^ 49 \<and> ?twice \<le> 2 ^ 1002 \<and> ?once \<le> 2 ^ 1002"
    if a: "0 \<le> a1" "0 \<le> a2" "a1 + a2 < 2 ^ 53" and o: "0 \<le> o1" "0 \<le> o2" "o1 + o2 < 2 ^ 53"
      and pi: "?pi = 0 \<or> 1 / 2 ^ 1000 \<le> ?pi \<and> ?pi \<le> 2 ^ 900"
      and po: "?po = 0 \<or> 1 / 2 ^ 1000 \<le> ?po \<and> ?po \<le> 2 ^ 900"
      and c0: "?c0 = 0 \<or> 1 / 2 ^ 1021 \<le> ?c0 \<and> ?c0 \<le> 2 ^ 1000"
  proof -
    have pi': "?pi = 0 \<or> 1 / 2 ^ 1000 \<le> ?pi" and po': "?po = 0 \<or> 1 / 2 ^ 1000 \<le> ?po"
      using pi po by auto
    have pi0: "0 \<le> ?pi" "?pi \<le> 2 ^ 900" and po0: "0 \<le> ?po" "?po \<le> 2 ^ 900"
      using pi po by (auto intro: order_trans[of 0 "1 / 2 ^ 1000"])
    have c0': "?c0 = 0 \<or> 2 / 2 ^ 1022 \<le> ?c0" using c0 by auto
    have c00: "0 \<le> ?c0" "?c0 \<le> 2 ^ 1000" using c0 by (auto intro: order_trans[of 0 "1 / 2 ^ 1021"])
    have r0: "rounded 3 ?c0 ?c0" using rounded_exact _ c00(1) by (rule rounded_mono) simp
    let ?b1 = "RecordUsage b a1 o1"
    have b1: "inputPricePer1M ?b1 = ?pi" "outputPricePer1M ?b1 = ?po"
      by (simp_all add: RecordUsage_def Let_def)
    let ?C1 = "?c0 + (of_int a1 / 1000000 * ?pi + of_int o1 / 1000000 * ?po)"
    let ?X2 = "of_int a2 / 1000000 * ?pi + of_int o2 / 1000000 * ?po"
    have a1: "a1 < 2 ^ 53" and a2: "a2 < 2 ^ 53" and o1: "o1 < 2 ^ 53" and o2: "o2 < 2 ^ 53"
      using a o by linarith+
    have a12: "0 \<le> a1 + a2" and o12: "0 \<le> o1 + o2" using a o by linarith+
    from RecordUsage_cost_rounded[OF a(1) a1 o(1) o1 pi' po' r0 c0']
    have s1: "rounded 4 (sessionCost ?b1) ?C1" "?C1 = 0 \<or> 2 / 2 ^ 1022 \<le> ?C1"
      by simp_all
    have pi1: "inputPricePer1M ?b1 = 0 \<or> 1 / 2 ^ 1000 \<le> inputPricePer1M ?b1"
      and po1: "outputPricePer1M ?b1 = 0 \<or> 1 / 2 ^ 1000 \<le> outputPricePer1M ?b1"
      unfolding b1 using pi' po' by simp_all
    from RecordUsage_cost_rounded[OF a(2) a2 o(2) o2 pi1 po1 s1]
    have r2: "rounded (Suc 4) ?twice (?C1 + ?X2)" unfolding b1 by simp
    have eq: "?C1 + ?X2 = ?E" by (simp add: add_divide_distrib distrib_right)
    have t5: "rounded 5 ?twice ?E" using r2 unfolding eq by simp
    from RecordUsage_cost_rounded[OF a12 a(3) o12 o(3) pi' po' r0 c0']
    have "rounded 4 ?once (?c0 + (of_int (a1 + a2) / 1000000 * ?pi + of_int (o1 + o2) / 1000000 * ?po))"
      by simp
    then have o4: "rounded 4 ?once ?E" by (simp add: add.assoc)
    have bi: "of_int (a1 + a2) / 1000000 * ?pi \<le> 2 ^ 953"
      using a12 a(3) pi0 by (rule token_cost_bound)
    have bo: "of_int (o1 + o2) / 1000000 * ?po \<le> 2 ^ 953"
      using o12 o(3) po0 by (rule token_cost_bound)
    have "(0::real) \<le> of_int (a1 + a2) / 1000000 * ?pi" "(0::real) \<le> of_int (o1 + o2) / 1000000 * ?po"
      using a12 o12 pi0(1) po0(1) by simp_all
    then have E0: "0 \<le> ?E" using c00(1) by linarith
    have "(2::real) ^ 1000 + 2 ^ 953 + 2 ^ 953 \<le> 2 ^ 1001" by simp
    then have E1: "?E \<le> 2 ^ 1001" using bi bo c00(2) by linarith
    have o5: "rounded 5 ?once ?E" using o4 _ E0 by (rule rounded_mono) simp
    have dt: "\<bar>?twice - ?E\<bar> \<le> ?E / 2 ^ 50" using t5 E0 by (rule rounded5_bounds)
    have do: "\<bar>?once - ?E\<bar> \<le> ?E / 2 ^ 50" using o5 E0 by (rule rounded5_bounds)
    define d where "d = ?E / 2 ^ 50"
    have h: "?E / 2 ^ 49 = d + d" unfolding d_def by simp
    have g: "e / 2 ^ 50 \<le> e" if "0 \<le> e" for e :: real
      using that by (simp add: divide_le_eq)
    have "d \<le> ?E" unfolding d_def using E0 by (rule g)
    moreover have "(2::real) ^ 1001 + 2 ^ 1001 = 2 ^ 1002" by simp
    ultimately have m: "?E + d \<le> 2 ^ 1002" using E1 by linarith
    have dt': "\<bar>?twice - ?E\<bar> \<le> d" and do': "\<bar>?once - ?E\<bar> \<le> d"
      using dt do unfolding d_def by simp_all
    have "\<bar>?twice - ?E\<bar> \<le> d \<and> \<bar>?once - ?E\<bar> \<le> d \<and>
          \<bar>?twice - ?once\<bar> \<le> d + d \<and> ?twice \<le> 2 ^ 1002 \<and> ?once \<le> 2 ^ 1002"
      using dt' do' m by linarith
    then show ?thesis unfolding h unfolding d_def .
  qed
  show ?thesis using tokens cost by (simp add: Let_def)
qed

text \<open>
  The witness: the prices 3.00 and 15.00 per million tokens and the usages (0, 1) and
  (0, 2), whose exact cost is 0.000045.
\<close>

theorem RecordUsage_additive_up_to_rounding_witness:
  "(let b = SetPricing (NewBudget
              \<lparr>BudgetMaxTokens = 100000, BudgetReserveForResponse = 8192,
               BudgetModelContextSize = 200000, BudgetWarnThreshold = 0,
               BudgetCompactThreshold = 0\<rparr>) 3 15
    in inputPricePer1M b = 3 \<and> outputPricePer1M b = 15 \<and> sessionCost b = 0 \<and>
       \<bar>sessionCost (RecordUsage (RecordUsage b 0 1) 0 2) - 45 / 1000000\<bar>
         \<le> (45 / 1000000) / 2 ^ 50 \<and>
       \<bar>sessionCost (RecordUsage b (0 + 0) (1 + 2)) - 45 / 1000000\<bar>
         \<le> (45 / 1000000) / 2 ^ 50 \<and>
       \<bar>sessionCost (RecordUsage (RecordUsage b 0 1) 0 2)
          - sessionCost (RecordUsage b (0 + 0) (1 + 2))\<bar> \<le> (45 / 1000000) / 2 ^ 49)"
  using RecordUsage_additive_up_to_rounding[of "SetPricing (NewBudget
              \<lparr>BudgetMaxTokens = 100000, BudgetReserveForResponse = 8192,
               BudgetModelContextSize = 200000, BudgetWarnThreshold = 0,
               BudgetCompactThreshold = 0\<rparr>) 3 15" 0 1 0 2]
  by (simp add: SetPricing_def NewBudget_def Let_def)

section \<open>Requests, events and the world outside the program\<close>

text \<open>\<^verbatim>\<open>providers.Tool\<close>: name, description and input schema.\<close>

datatype ProviderTool = ProviderTool string string "json_object option"

record ChatRequest =
  Messages :: "Message list"
  Tools :: "ProviderTool list"
  MaxTokens :: int
  Temperature :: float64
  Model :: string
  System :: string

record Usage =
  InputTokens :: int
  OutputTokens :: int
  TotalTokens :: int

text \<open>
  \<^verbatim>\<open>ChatEvent\<close> is a struct with a type tag; a consumer switches on the tag and reads the
  field that belongs to it, so an event is a value of a tagged union. An error is carried
  as its message.
\<close>

datatype ChatEvent =
    ChatMessageStart
  | ChatTextDelta string
  | ChatToolUse ToolUseContent
  | ChatMessageDone "Usage option"
  | ChatError string

text \<open>
  The agent's \<^verbatim>\<open>TokenUpdateInfo\<close>: current tokens, maximum, usage percent, session tokens,
  cost, at-warning flag.
\<close>

datatype TokenUpdateInfo = TokenUpdateInfo int int float64 int float64 bool

datatype Event =
    EventTextDelta string
  | EventToolCall ToolUseContent
  | EventToolResult ToolResultContent
  | EventMessageDone "Usage option"
  | EventError string
  | EventTokenUpdate TokenUpdateInfo
  | EventContextUpdate string
  | EventToolPreview string ToolUseContent

text \<open>
  \<^verbatim>\<open>ContextEvent\<close>: type, current tokens, maximum, usage percent, message, cost, error.
\<close>

datatype ContextEvent = ContextEvent string int int float64 string float64 "string option"

text \<open>
  Everything outside the program (the model behind the provider, the file system, the
  user at the terminal) is a state of type \<open>'x\<close> that the collaborators read and change.
  The world also records what the program did to its collaborators: the chat requests it
  issued, the tool actions it invoked, the events it sent to the terminal and to the
  context-event channel.
\<close>

record 'x World =
  ext :: 'x
  chatLog :: "ChatRequest list"
  execLog :: "(string \<times> json_object option) list"
  agentEvents :: "Event list"
  contextEvents :: "ContextEvent list"

text \<open>
  A provider's \<^verbatim>\<open>Chat\<close>: an error before the stream starts, or the events the stream
  delivers until its channel is closed.
\<close>

type_synonym 'x Provider = "'x \<Rightarrow> ChatRequest \<Rightarrow> (string + ChatEvent list) \<times> 'x"

definition callChat :: "'x Provider \<Rightarrow> 'x World \<Rightarrow> ChatRequest \<Rightarrow> (string + ChatEvent list) \<times> 'x World" where
  "callChat provider w req =
     (let (r, x') = provider (ext w) req
      in (r, w\<lparr>ext := x', chatLog := chatLog w @ [req]\<rparr>))"

section \<open>Compactor (internal/context)\<close>

definition DefaultProtectedMessages :: int where "DefaultProtectedMessages = 6"
definition DefaultMaxSummaryTokens :: int where "DefaultMaxSummaryTokens = 1000"

definition SummarySystemPrompt :: string where
  "SummarySystemPrompt = ''You are a conversation summarizer. Be concise and preserve key technical details. Focus on information that would be needed to continue the conversation effectively.''"

text \<open>The summary prompt; the argument stands where the template has \<^verbatim>\<open>%s\<close>.\<close>

definition SummaryPromptTemplate :: "string \<Rightarrow> string" where
  "SummaryPromptTemplate conversation =
     ''Summarize this conversation concisely, preserving:\<newline>'' @
     ''1. Key decisions made\<newline>'' @
     ''2. Important file paths and code discussed\<newline>'' @
     ''3. Any errors encountered and solutions found\<newline>'' @
     ''4. Current task state and next steps\<newline>'' @
     ''\<newline>'' @
     ''Keep the summary focused and actionable. Maximum 500 words.\<newline>'' @
     ''\<newline>'' @
     ''Conversation:\<newline>'' @
     conversation @
     ''\<newline>\<newline>Provide a concise summary:''"

text \<open>
  The provider is the \<^verbatim>\<open>Chat\<close> function of the interface value; the estimator is the
  simple estimator, the only implementation. \<^verbatim>\<open>NewCompactor\<close> stores positive numbers.
\<close>

record 'x Compactor =
  provider :: "'x Provider"
  estimator :: SimpleEstimator
  protectedMessages :: nat
  maxSummaryTokens :: int

record 'x CompactorConfig =
  CompactorProvider :: "'x Provider"
  CompactorEstimator :: "SimpleEstimator option"
  ProtectedMessages :: int
  MaxSummaryTokens :: int

record CompactResult =
  CompactOriginalMessages :: int
  CompactedMessages :: int
  OriginalTokens :: int
  CompactedTokens :: int
  SummarizedMessages :: int
  Summary :: string

definition NewCompactor :: "'x CompactorConfig \<Rightarrow> 'x Compactor" where
  "NewCompactor cfg =
     \<lparr>provider = CompactorProvider cfg,
      estimator = (case CompactorEstimator cfg of None \<Rightarrow> NewSimpleEstimator | Some e \<Rightarrow> e),
      protectedMessages = nat (if ProtectedMessages cfg \<le> 0 then DefaultProtectedMessages
                               else ProtectedMessages cfg),
      maxSummaryTokens = (if MaxSummaryTokens cfg \<le> 0 then DefaultMaxSummaryTokens
                          else MaxSummaryTokens cfg)\<rparr>"

definition formatRole :: "MessageRole \<Rightarrow> string" where
  "formatRole role =
     (if role = RoleUser then ''User''
      else if role = RoleAssistant then ''Assistant''
      else if role = RoleSystem then ''System''
      else if role = RoleTool then ''Tool''
      else role)"

fun formatBlock :: "string \<Rightarrow> ContentBlock \<Rightarrow> string" where
  "formatBlock role (TextBlock t) = role @ '': '' @ t @ ''\<newline>''"
| "formatBlock role (ToolUseBlock b) = role @ '': [Called tool: '' @ Name b @ '']\<newline>''"
| "formatBlock role (ToolResultBlock b) =
     (let content = (if 500 < length (ResultContent b)
                     then take 500 (ResultContent b) @ ''...[truncated]''
                     else ResultContent b);
          status = (if IsError b then ''error'' else ''success'')
      in ''Tool Result ('' @ status @ ''): '' @ content @ ''\<newline>'')"
| "formatBlock role (ImageBlock i) = []"

definition formatConversation :: "Message list \<Rightarrow> string" where
  "formatConversation messages =
     fold (\<lambda>msg builder.
             fold (\<lambda>block builder'. builder' @ formatBlock (formatRole (Role msg)) block)
                  (Content msg) builder)
          messages []"

subsection \<open>strings.TrimSpace\<close>

text \<open>
  The white space of \<^verbatim>\<open>unicode.IsSpace\<close> in UTF-8: the six ASCII characters, U+0085,
  U+00A0, U+1680, U+2000 to U+200A, U+2028, U+2029, U+202F, U+205F and U+3000.
\<close>

definition unicode_spaces :: "string list" where
  "unicode_spaces =
     [[CHR 0x09], [CHR 0x0A], [CHR 0x0B], [CHR 0x0C], [CHR 0x0D], [CHR 0x20],
      [CHR 0xC2, CHR 0x85], [CHR 0xC2, CHR 0xA0], [CHR 0xE1, CHR 0x9A, CHR 0x80],
      [CHR 0xE2, CHR 0x80, CHR 0x80], [CHR 0xE2, CHR 0x80, CHR 0x81],
      [CHR 0xE2, CHR 0x80, CHR 0x82], [CHR 0xE2, CHR 0x80, CHR 0x83],
      [CHR 0xE2, CHR 0x80, CHR 0x84], [CHR 0xE2, CHR 0x80, CHR 0x85],
      [CHR 0xE2, CHR 0x80, CHR 0x86], [CHR 0xE2, CHR 0x80, CHR 0x87],
      [CHR 0xE2, CHR 0x80, CHR 0x88], [CHR 0xE2, CHR 0x80, CHR 0x89],
      [CHR 0xE2, CHR 0x80, CHR 0x8A], [CHR 0xE2, CHR 0x80, CHR 0xA8],
      [CHR 0xE2, CHR 0x80, CHR 0xA9], [CHR 0xE2, CHR 0x80, CHR 0xAF],
      [CHR 0xE2, CHR 0x81, CHR 0x9F], [CHR 0xE3, CHR 0x80, CHR 0x80]]"

text \<open>
  Removing leading white space; the fuel bounds the number of characters removed and the
  length of the string is enough.
\<close>

fun trim_left :: "nat \<Rightarrow> string list \<Rightarrow> string \<Rightarrow> string" where
  "trim_left 0 spaces s = s"
| "trim_left (Suc n) spaces s =
     (case find (\<lambda>p. take (length p) s = p) spaces of
        None \<Rightarrow> s
      | Some p \<Rightarrow> trim_left n spaces (drop (length p) s))"

definition TrimSpace :: "string \<Rightarrow> string" where
  "TrimSpace s =
     (let l = trim_left (length s) unicode_spaces s
      in rev (trim_left (length l) (map rev unicode_spaces) (rev l)))"

subsection \<open>Compaction\<close>

text \<open>The loop of \<^verbatim>\<open>generateSummary\<close> over the events of the stream.\<close>

fun collect_summary :: "ChatEvent list \<Rightarrow> string \<Rightarrow> string + string" where
  "collect_summary [] summary = Inr summary"
| "collect_summary (ChatTextDelta t # events) summary = collect_summary events (summary @ t)"
| "collect_summary (ChatError err # events) summary = Inl err"
| "collect_summary (event # events) summary = collect_summary events summary"

definition generateSummary ::
  "'x Compactor \<Rightarrow> 'x World \<Rightarrow> Message list \<Rightarrow> (string + string) \<times> 'x World" where
  "generateSummary c w messages =
     (let conversationText = formatConversation messages;
          summarizePrompt = SummaryPromptTemplate conversationText;
          req = \<lparr>Messages = [\<lparr>Role = RoleUser, Content = [TextBlock summarizePrompt]\<rparr>],
                 Tools = [], MaxTokens = maxSummaryTokens c, Temperature = 0, Model = [],
                 System = SummarySystemPrompt\<rparr>;
          (r, w') = callChat (provider c) w req
      in case r of
           Inl err \<Rightarrow> (Inl (''provider chat failed: '' @ err), w')
         | Inr events \<Rightarrow>
             (case collect_summary events [] of
                Inl err \<Rightarrow> (Inl err, w')
              | Inr summary \<Rightarrow> (Inr (TrimSpace summary), w')))"

definition SummaryMessage :: "string \<Rightarrow> Message" where
  "SummaryMessage summary =
     \<lparr>Role = RoleUser,
      Content = [TextBlock (''[Previous Conversation Summary]\<newline>'' @ summary @
                            ''\<newline>[End Summary]'')]\<rparr>"

definition AcknowledgmentMessage :: Message where
  "AcknowledgmentMessage =
     \<lparr>Role = RoleAssistant,
      Content = [TextBlock ''I understand the context from our previous conversation. I'll continue helping you with this understanding.'']\<rparr>"

text \<open>
  \<^verbatim>\<open>Compact\<close> returns the messages (nil on an error), the result record and the error.
\<close>

definition Compact ::
  "marshal \<Rightarrow> 'x Compactor \<Rightarrow> 'x World \<Rightarrow> Message list \<Rightarrow>
   (Message list \<times> CompactResult \<times> string option) \<times> 'x World" where
  "Compact mar c w messages =
     (let result = \<lparr>CompactOriginalMessages = int (length messages), CompactedMessages = 0,
                    OriginalTokens = EstimateMessages mar (estimator c) messages,
                    CompactedTokens = 0, SummarizedMessages = 0, Summary = []\<rparr>
      in if length messages \<le> protectedMessages c then
           ((messages,
             result\<lparr>CompactedMessages := int (length messages),
                    CompactedTokens := OriginalTokens result\<rparr>,
             None), w)
         else
           (let toSummarize = take (length messages - protectedMessages c) messages;
                toPreserve = drop (length messages - protectedMessages c) messages;
                result1 = result\<lparr>SummarizedMessages := int (length toSummarize)\<rparr>;
                (s, w') = generateSummary c w toSummarize
            in case s of
                 Inl err \<Rightarrow> (([], result1, Some (''failed to generate summary: '' @ err)), w')
               | Inr summary \<Rightarrow>
                   (let result2 = result1\<lparr>Summary := summary\<rparr>;
                        compactedMessages =
                          [SummaryMessage summary, AcknowledgmentMessage] @ toPreserve
                    in ((compactedMessages,
                         result2\<lparr>CompactedMessages := int (length compactedMessages),
                                 CompactedTokens :=
                                   EstimateMessages mar (estimator c) compactedMessages\<rparr>,
                         None), w'))))"

definition CompactorShouldCompact :: "'x Compactor \<Rightarrow> Message list \<Rightarrow> int \<Rightarrow> int \<Rightarrow> bool" where
  "CompactorShouldCompact c messages currentTokens maxTokens' =
     (if length messages \<le> protectedMessages c + 2 then False
      else f64_mul (f64_of_int maxTokens') (f64_lit (9 / 10)) \<le> f64_of_int currentTokens)"

definition EstimateSavings :: "marshal \<Rightarrow> 'x Compactor \<Rightarrow> Message list \<Rightarrow> int" where
  "EstimateSavings mar c messages =
     (if length messages \<le> protectedMessages c then 0
      else
        (let toSummarize = take (length messages - protectedMessages c) messages;
             toSummarizeTokens = EstimateMessages mar (estimator c) toSummarize;
             estimatedSummaryTokens =
               int_of_f64 (f64_mul (f64_of_int toSummarizeTokens) (f64_lit (2 / 10))) + 200
         in toSummarizeTokens - estimatedSummaryTokens))"

section \<open>Properties of the compactor\<close>

lemma NewCompactor_protectedMessages:
  "protectedMessages (NewCompactor cfg) =
     (if ProtectedMessages cfg \<le> 0 then 6 else nat (ProtectedMessages cfg))"
  by (simp add: NewCompactor_def DefaultProtectedMessages_def)

text \<open>
  Claim C10. For a message list no longer than the protected count (6 by default)
  \<^verbatim>\<open>Compact\<close> returns the list unchanged with no error and leaves the world as it was:
  in particular the log of chat requests is the same, so the provider's \<^verbatim>\<open>Chat\<close> was
  not called.
\<close>

theorem Compact_short_unchanged:
  assumes "length messages \<le> protectedMessages c"
  shows "fst (fst (Compact mar c w messages)) = messages \<and>
         snd (snd (fst (Compact mar c w messages))) = None \<and>
         snd (Compact mar c w messages) = w \<and>
         chatLog (snd (Compact mar c w messages)) = chatLog w \<and>
         protectedMessages (NewCompactor cfg) =
           (if ProtectedMessages cfg \<le> 0 then 6 else nat (ProtectedMessages cfg))"
  using assms by (simp add: Compact_def Let_def NewCompactor_protectedMessages)

text \<open>The witness: two messages and the default protected count, 6.\<close>

theorem Compact_short_unchanged_witness:
  "(let c = NewCompactor \<lparr>CompactorProvider = (\<lambda>x req. (Inl ''unreachable'', x)),
                           CompactorEstimator = None, ProtectedMessages = 0,
                           MaxSummaryTokens = 0\<rparr>;
        w = \<lparr>ext = (), chatLog = [], execLog = [], agentEvents = [], contextEvents = []\<rparr>;
        messages = [\<lparr>Role = RoleUser, Content = [TextBlock ''hi'']\<rparr>,
                    \<lparr>Role = RoleAssistant, Content = [TextBlock ''Hello world'']\<rparr>]
    in length messages \<le> protectedMessages c \<and>
       fst (fst (Compact (\<lambda>_. None) c w messages)) = messages \<and>
       snd (snd (fst (Compact (\<lambda>_. None) c w messages))) = None \<and>
       chatLog (snd (Compact (\<lambda>_. None) c w messages)) = [])"
proof -
  let ?c = "NewCompactor \<lparr>CompactorProvider = (\<lambda>x req. (Inl ''unreachable'', x)),
                           CompactorEstimator = None, ProtectedMessages = 0,
                           MaxSummaryTokens = 0\<rparr> :: unit Compactor"
  let ?w = "\<lparr>ext = (), chatLog = [], execLog = [], agentEvents = [], contextEvents = []\<rparr>"
  let ?m = "[\<lparr>Role = RoleUser, Content = [TextBlock ''hi'']\<rparr>,
             \<lparr>Role = RoleAssistant, Content = [TextBlock ''Hello world'']\<rparr>]"
  have h: "length ?m \<le> protectedMessages ?c"
    by (simp add: NewCompactor_protectedMessages)
  show ?thesis
    using h Compact_short_unchanged[OF h, where mar = "\<lambda>_. None" and w = ?w
        and cfg = "\<lparr>CompactorProvider = (\<lambda>x req. (Inl ''unreachable'', x)),
                           CompactorEstimator = None, ProtectedMessages = 0,
                           MaxSummaryTokens = 0\<rparr> :: unit CompactorConfig"]
    by (simp add: Let_def)
qed

text \<open>
  Claim C4. For a list of more than P messages and a successful summary generation,
  \<^verbatim>\<open>Compact\<close> returns without error exactly P + 2 messages: the user-role message with
  the summary between its markers, the assistant-role acknowledgment, and the last P input
  messages unchanged and in order.
\<close>

theorem Compact_returns_summary_and_suffix:
  assumes "protectedMessages c < length messages"
    and "fst (generateSummary c w (take (length messages - protectedMessages c) messages))
           = Inr summary"
  shows "fst (fst (Compact mar c w messages)) =
           [\<lparr>Role = RoleUser,
             Content = [TextBlock (''[Previous Conversation Summary]\<newline>'' @ summary @
                                   ''\<newline>[End Summary]'')]\<rparr>,
            \<lparr>Role = RoleAssistant,
             Content = [TextBlock ''I understand the context from our previous conversation. I'll continue helping you with this understanding.'']\<rparr>]
           @ drop (length messages - protectedMessages c) messages \<and>
         length (fst (fst (Compact mar c w messages))) = protectedMessages c + 2 \<and>
         length (drop (length messages - protectedMessages c) messages) = protectedMessages c \<and>
         snd (snd (fst (Compact mar c w messages))) = None"
proof -
  obtain w' where g: "generateSummary c w (take (length messages - protectedMessages c) messages)
                      = (Inr summary, w')"
    using assms(2) by (cases "generateSummary c w (take (length messages - protectedMessages c) messages)") auto
  have n: "\<not> length messages \<le> protectedMessages c" using assms(1) by simp
  have "fst (Compact mar c w messages) =
          ([SummaryMessage summary, AcknowledgmentMessage]
             @ drop (length messages - protectedMessages c) messages,
           fst (snd (fst (Compact mar c w messages))), None)"
    using n g by (simp add: Compact_def Let_def)
  then have e: "fst (fst (Compact mar c w messages)) =
           [SummaryMessage summary, AcknowledgmentMessage]
             @ drop (length messages - protectedMessages c) messages"
    and r: "snd (snd (fst (Compact mar c w messages))) = None"
    by (metis fst_conv, metis snd_conv)
  have l: "length (drop (length messages - protectedMessages c) messages) = protectedMessages c"
    using assms(1) by simp
  show ?thesis unfolding e using l r
    by (simp add: SummaryMessage_def AcknowledgmentMessage_def)
qed


text \<open>
  The witness: eight messages, the default P = 6, and a provider whose stream carries the
  text \<^verbatim>\<open>" SUM"\<close> and a newline.
\<close>

theorem Compact_returns_summary_and_suffix_witness:
  "(let c = NewCompactor \<lparr>CompactorProvider =
               (\<lambda>x req. (Inr [ChatMessageStart, ChatTextDelta '' SUM'', ChatTextDelta [CHR 0x0A],
                                 ChatMessageDone None], x)),
             CompactorEstimator = None, ProtectedMessages = 0, MaxSummaryTokens = 0\<rparr>;
        w = \<lparr>ext = (), chatLog = [], execLog = [], agentEvents = [], contextEvents = []\<rparr>;
        messages = [\<lparr>Role = RoleUser, Content = [TextBlock ''read foo'']\<rparr>,
              \<lparr>Role = RoleAssistant, Content = [TextBlock ''reading'']\<rparr>,
              \<lparr>Role = RoleUser, Content = [TextBlock ''one'']\<rparr>,
              \<lparr>Role = RoleAssistant, Content = [TextBlock ''two'']\<rparr>,
              \<lparr>Role = RoleUser, Content = [TextBlock ''three'']\<rparr>,
              \<lparr>Role = RoleAssistant, Content = [TextBlock ''four'']\<rparr>,
              \<lparr>Role = RoleUser, Content = [TextBlock ''five'']\<rparr>,
              \<lparr>Role = RoleAssistant, Content = [TextBlock ''six'']\<rparr>]
    in protectedMessages c < length messages \<and>
       fst (generateSummary c w (take (length messages - protectedMessages c) messages))
         = Inr ''SUM'' \<and>
       fst (fst (Compact (\<lambda>_. None) c w messages)) =
         [\<lparr>Role = RoleUser,
           Content = [TextBlock ''[Previous Conversation Summary]\<newline>SUM\<newline>[End Summary]'']\<rparr>,
          \<lparr>Role = RoleAssistant,
           Content = [TextBlock ''I understand the context from our previous conversation. I'll continue helping you with this understanding.'']\<rparr>]
         @ [\<lparr>Role = RoleUser, Content = [TextBlock ''one'']\<rparr>,
              \<lparr>Role = RoleAssistant, Content = [TextBlock ''two'']\<rparr>,
              \<lparr>Role = RoleUser, Content = [TextBlock ''three'']\<rparr>,
              \<lparr>Role = RoleAssistant, Content = [TextBlock ''four'']\<rparr>,
              \<lparr>Role = RoleUser, Content = [TextBlock ''five'']\<rparr>,
              \<lparr>Role = RoleAssistant, Content = [TextBlock ''six'']\<rparr>] \<and>
       length (fst (fst (Compact (\<lambda>_. None) c w messages))) = 6 + 2)"
proof -
  let ?c = "NewCompactor \<lparr>CompactorProvider =
               (\<lambda>x req. (Inr [ChatMessageStart, ChatTextDelta '' SUM'', ChatTextDelta [CHR 0x0A],
                                 ChatMessageDone None], x)),
             CompactorEstimator = None, ProtectedMessages = 0, MaxSummaryTokens = 0\<rparr> :: unit Compactor"
  let ?w = "\<lparr>ext = (), chatLog = [], execLog = [], agentEvents = [], contextEvents = []\<rparr>"
  let ?m = "[\<lparr>Role = RoleUser, Content = [TextBlock ''read foo'']\<rparr>,
              \<lparr>Role = RoleAssistant, Content = [TextBlock ''reading'']\<rparr>,
              \<lparr>Role = RoleUser, Content = [TextBlock ''one'']\<rparr>,
              \<lparr>Role = RoleAssistant, Content = [TextBlock ''two'']\<rparr>,
              \<lparr>Role = RoleUser, Content = [TextBlock ''three'']\<rparr>,
              \<lparr>Role = RoleAssistant, Content = [TextBlock ''four'']\<rparr>,
              \<lparr>Role = RoleUser, Content = [TextBlock ''five'']\<rparr>,
              \<lparr>Role = RoleAssistant, Content = [TextBlock ''six'']\<rparr>]"
  have p: "protectedMessages ?c = 6" by (simp add: NewCompactor_protectedMessages)
  have h1: "protectedMessages ?c < length ?m" unfolding p by simp
  have t: "TrimSpace ('' SUM'' @ [CHR 0x0A]) = ''SUM''"
    by (simp add: TrimSpace_def unicode_spaces_def)
  have h2: "fst (generateSummary ?c ?w (take (length ?m - protectedMessages ?c) ?m)) = Inr ''SUM''"
    unfolding p using t by (simp add: generateSummary_def callChat_def NewCompactor_def Let_def)
  show ?thesis
    using h1 h2 Compact_returns_summary_and_suffix[OF h1 h2, of "\<lambda>_. None"] p
    by (simp add: Let_def)
qed

section \<open>Tools, settings and the executor (internal/tools, internal/permissions, internal/agent/executor.go)\<close>

text \<open>\<^verbatim>\<open>tools.Result\<close>; the error is carried as its message.\<close>

record Result =
  Success :: bool
  Output :: string
  ResultError :: "string option"

definition NewResult :: "string \<Rightarrow> Result" where
  "NewResult output = \<lparr>Success = True, Output = output, ResultError = None\<rparr>"

definition NewErrorResult :: "string \<Rightarrow> Result" where
  "NewErrorResult err = \<lparr>Success = False, Output = err, ResultError = Some err\<rparr>"

text \<open>
  A tool: name, description, schema and the action. The action receives the parameters
  and the state of the outside world; it returns an error or a result and the world it
  leaves behind.
\<close>

record 'x Tool =
  toolName :: string
  toolDescription :: string
  toolSchema :: "json_object option"
  toolExecute :: "'x \<Rightarrow> json_object option \<Rightarrow> (string + Result) \<times> 'x"

text \<open>
  The registry is a \<^verbatim>\<open>map[string]Tool\<close>. It is carried as an association list, the first
  entry of a name being the tool stored under it; the order of the list is one of the
  orders in which Go may iterate over the map.
\<close>

type_synonym 'x Registry = "(string \<times> 'x Tool) list"

definition Register :: "'x Registry \<Rightarrow> 'x Tool \<Rightarrow> 'x Registry" where
  "Register r tool = (toolName tool, tool) # filter (\<lambda>(n, t). n \<noteq> toolName tool) r"

definition Get :: "'x Registry \<Rightarrow> string \<Rightarrow> string + 'x Tool" where
  "Get r name = (case map_of r name of
                   None \<Rightarrow> Inl (''tool not found: '' @ name)
                 | Some tool \<Rightarrow> Inr tool)"

definition ToProviderTools :: "'x Registry \<Rightarrow> ProviderTool list" where
  "ToProviderTools r =
     concat (map (\<lambda>n. case map_of r n of
                        None \<Rightarrow> []
                      | Some tool \<Rightarrow>
                          [ProviderTool (toolName tool) (toolDescription tool) (toolSchema tool)])
               (remdups (map fst r)))"

record Settings =
  path :: string
  Permissions :: "string \<rightharpoonup> string"

text \<open>
  What the executor takes from the standard library and the file system: Unicode
  lower-casing (\<^verbatim>\<open>strings.ToLower\<close>), the preview of a tool call (\<^verbatim>\<open>generatePreview\<close>, which
  reads the files the call names in the working directory and changes nothing), and the
  write of the settings file (\<^verbatim>\<open>Settings.Save\<close>, whose error the executor ignores).
\<close>

record 'x Os =
  ToLower :: "string \<Rightarrow> string"
  generatePreview :: "'x \<Rightarrow> string \<Rightarrow> ToolUseContent \<Rightarrow> string"
  Save :: "'x \<Rightarrow> Settings \<Rightarrow> 'x"

definition IsAllowed :: "'x Os \<Rightarrow> Settings \<Rightarrow> string \<Rightarrow> bool" where
  "IsAllowed os s tool = (Permissions s (ToLower os tool) = Some ''allow'')"

definition SetAllow :: "'x Os \<Rightarrow> Settings \<Rightarrow> string \<Rightarrow> Settings" where
  "SetAllow os s tool = s\<lparr>Permissions := (Permissions s)(ToLower os tool \<mapsto> ''allow'')\<rparr>"

type_synonym Decision = string

definition DecisionApprove :: Decision where "DecisionApprove = ''approve''"
definition DecisionDeny :: Decision where "DecisionDeny = ''deny''"
definition DecisionAlwaysAllow :: Decision where "DecisionAlwaysAllow = ''always_allow''"

text \<open>
  \<^verbatim>\<open>ConfirmFunc\<close>: tool name, action and preview go to the user; the answer is a decision
  and an error (\<open>None\<close> for nil).
\<close>

type_synonym 'x ConfirmFunc =
  "'x World \<Rightarrow> string \<Rightarrow> string \<Rightarrow> string \<Rightarrow> (Decision \<times> string option) \<times> 'x World"

record 'x Executor =
  registry :: "'x Registry"
  confirmFn :: "'x ConfirmFunc option"
  settings :: "Settings option"
  workDir :: string

definition needsConfirmation :: "'x Os \<Rightarrow> 'x Executor \<Rightarrow> string \<Rightarrow> bool" where
  "needsConfirmation os e name =
     (if (case settings e of None \<Rightarrow> False | Some s \<Rightarrow> IsAllowed os s name) then False
      else name \<in> {''file_write'', ''file_edit'', ''file_delete'', ''bash''})"

text \<open>The type assertion \<^verbatim>\<open>toolUse.Input[key].(string)\<close>.\<close>

definition input_string :: "json_object option \<Rightarrow> string \<Rightarrow> string option" where
  "input_string inp key =
     (case inp of
        None \<Rightarrow> None
      | Some obj \<Rightarrow> (case map_of obj key of Some (JString s) \<Rightarrow> Some s | _ \<Rightarrow> None))"

definition describeAction :: "ToolUseContent \<Rightarrow> string" where
  "describeAction toolUse =
     (if Name toolUse = ''file_write'' then
        (case input_string (Input toolUse) ''path'' of
           Some p \<Rightarrow> ''Create file: '' @ p | None \<Rightarrow> ''Create file'')
      else if Name toolUse = ''file_edit'' then
        (case input_string (Input toolUse) ''path'' of
           Some p \<Rightarrow> ''Edit file: '' @ p | None \<Rightarrow> ''Edit file'')
      else if Name toolUse = ''file_delete'' then
        (case input_string (Input toolUse) ''path'' of
           Some p \<Rightarrow> ''Delete file: '' @ p | None \<Rightarrow> ''Delete file'')
      else if Name toolUse = ''bash'' then
        (case input_string (Input toolUse) ''command'' of
           Some cmd \<Rightarrow> (if 50 < length cmd then ''Run: '' @ take 50 cmd @ ''...''
                        else ''Run: '' @ cmd)
         | None \<Rightarrow> ''Execute bash command'')
      else Name toolUse)"

text \<open>
  The last step of \<^verbatim>\<open>Execute\<close>: the tool's action runs, which the world records.
\<close>

definition invokeTool ::
  "'x Tool \<Rightarrow> 'x World \<Rightarrow> ToolUseContent \<Rightarrow> (Result option \<times> string option) \<times> 'x World" where
  "invokeTool tool w toolUse =
     (let (r, x') = toolExecute tool (ext w) (Input toolUse);
          w' = w\<lparr>ext := x', execLog := execLog w @ [(Name toolUse, Input toolUse)]\<rparr>
      in case r of
           Inl err \<Rightarrow> ((None, Some (''tool execution failed: '' @ err)), w')
         | Inr result \<Rightarrow> ((Some result, None), w'))"

text \<open>
  \<^verbatim>\<open>Execute\<close> returns the result pointer (nil is \<open>None\<close>), the error, the executor (whose
  settings an always-allow answer changes) and the world.
\<close>

definition Execute ::
  "'x Os \<Rightarrow> 'x Executor \<Rightarrow> 'x World \<Rightarrow> ToolUseContent \<Rightarrow>
   (Result option \<times> string option) \<times> 'x Executor \<times> 'x World" where
  "Execute os e w toolUse =
     (case Get (registry e) (Name toolUse) of
        Inl err \<Rightarrow> ((None, Some (''tool not found: '' @ Name toolUse)), e, w)
      | Inr tool \<Rightarrow>
          (case (if needsConfirmation os e (Name toolUse) then confirmFn e else None) of
             None \<Rightarrow> (let (r, w') = invokeTool tool w toolUse in (r, e, w'))
           | Some confirm \<Rightarrow>
               (let preview = generatePreview os (ext w) (workDir e) toolUse;
                    action = describeAction toolUse;
                    ((decision, err), w1) = confirm w (Name toolUse) action preview
                in case err of
                     Some msg \<Rightarrow>
                       ((Some (NewErrorResult (''confirmation failed: '' @ msg)), None), e, w1)
                   | None \<Rightarrow>
                       if decision = DecisionDeny then
                         ((Some (NewErrorResult ''operation denied by user''), None), e, w1)
                       else if decision = DecisionAlwaysAllow then
                         (case settings e of
                            None \<Rightarrow> (let (r, w') = invokeTool tool w1 toolUse in (r, e, w'))
                          | Some s \<Rightarrow>
                              (let s' = SetAllow os s (Name toolUse);
                                   w2 = w1\<lparr>ext := Save os (ext w1) s'\<rparr>;
                                   (r, w') = invokeTool tool w2 toolUse
                               in (r, e\<lparr>settings := Some s'\<rparr>, w')))
                       else (let (r, w') = invokeTool tool w1 toolUse in (r, e, w')))))"

text \<open>
  How the agent loop wraps the outcome of \<^verbatim>\<open>Execute\<close> into the ToolResult block of a
  tool call (the loop over \<^verbatim>\<open>toolCalls\<close> in \<^verbatim>\<open>processLoop\<close>). A nil result with a nil
  error makes the source dereference nil; \<^verbatim>\<open>Execute\<close> never returns that pair.
\<close>

fun toolResultOf :: "ToolUseContent \<Rightarrow> Result option \<times> string option \<Rightarrow> ToolResultContent" where
  "toolResultOf toolCall (r, Some err) =
     \<lparr>ToolUseID = ID toolCall, ResultContent = err, IsError = True\<rparr>"
| "toolResultOf toolCall (Some result, None) =
     \<lparr>ToolUseID = ID toolCall, ResultContent = Output result, IsError = (\<not> Success result)\<rparr>"
| "toolResultOf toolCall (None, None) =
     \<lparr>ToolUseID = ID toolCall, ResultContent = [], IsError = True\<rparr>"

section \<open>Properties of the executor\<close>

lemma Execute_result_or_error: "fst (Execute os e w toolUse) \<noteq> (None, None)"
  by (auto simp: Execute_def invokeTool_def Let_def
           split: sum.splits option.splits prod.splits if_splits)

text \<open>
  Claim C9. For a registered tool whose name requires confirmation, with a confirmation
  function installed that answers Deny, \<^verbatim>\<open>Execute\<close> returns a result that is not a
  success and no error, the loop turns it into a ToolResult with is_error true, and
  the world after \<^verbatim>\<open>Execute\<close> is the world the confirmation left: the tool's action
  was not invoked. With a nil error beside the Deny the result is the synthetic
  "operation denied by user".
\<close>

theorem Execute_deny_skips_tool:
  assumes "map_of (registry e) (Name toolUse) = Some tool"
    and "needsConfirmation os e (Name toolUse)"
    and "confirmFn e = Some confirm"
    and "confirm w (Name toolUse) (describeAction toolUse)
           (generatePreview os (ext w) (workDir e) toolUse) = ((DecisionDeny, err), w1)"
  shows "(\<exists>result. fst (Execute os e w toolUse) = (Some result, None) \<and> \<not> Success result) \<and>
         IsError (toolResultOf toolUse (fst (Execute os e w toolUse))) \<and>
         snd (snd (Execute os e w toolUse)) = w1 \<and>
         execLog (snd (snd (Execute os e w toolUse))) = execLog w1 \<and>
         (err = None \<longrightarrow>
            fst (Execute os e w toolUse) = (Some (NewErrorResult ''operation denied by user''), None))"
proof -
  have g: "Get (registry e) (Name toolUse) = Inr tool"
    using assms(1) by (simp add: Get_def)
  show ?thesis
  proof (cases err)
    case None
    then have "Execute os e w toolUse =
                 ((Some (NewErrorResult ''operation denied by user''), None), e, w1)"
      using g assms(2,3,4) by (simp add: Execute_def Let_def)
    then show ?thesis using None by (simp add: NewErrorResult_def)
  next
    case (Some msg)
    then have "Execute os e w toolUse =
                 ((Some (NewErrorResult (''confirmation failed: '' @ msg)), None), e, w1)"
      using g assms(2,3,4) by (simp add: Execute_def Let_def)
    then show ?thesis using Some by (simp add: NewErrorResult_def)
  qed
qed


text \<open>The witness: a registered \<^verbatim>\<open>bash\<close> tool, no settings, and a user who denies.\<close>

theorem Execute_deny_skips_tool_witness:
  "(let os = \<lparr>ToLower = (\<lambda>s. s), generatePreview = (\<lambda>x dir t. ''$ rm -r x''), Save = (\<lambda>x s. x)\<rparr>;
        tool = \<lparr>toolName = ''bash'', toolDescription = ''run a command'', toolSchema = None,
               toolExecute = (\<lambda>x params. (Inr (NewResult ''removed''), x))\<rparr>;
        e = \<lparr>registry = [(''bash'', \<lparr>toolName = ''bash'', toolDescription = ''run a command'', toolSchema = None,
               toolExecute = (\<lambda>x params. (Inr (NewResult ''removed''), x))\<rparr>)],
             confirmFn = Some (\<lambda>w name action preview. ((DecisionDeny, None), w)),
             settings = None, workDir = ''/work''\<rparr>;
        w = \<lparr>ext = (), chatLog = [], execLog = [], agentEvents = [], contextEvents = []\<rparr>;
        toolUse = \<lparr>ID = ''t1'', Name = ''bash'', Input = Some [(''command'', JString ''rm -r x'')]\<rparr>
    in map_of (registry e) (Name toolUse) = Some tool \<and>
       needsConfirmation os e (Name toolUse) \<and>
       fst (Execute os e w toolUse) = (Some (NewErrorResult ''operation denied by user''), None) \<and>
       IsError (toolResultOf toolUse (fst (Execute os e w toolUse))) \<and>
       execLog (snd (snd (Execute os e w toolUse))) = [])"
proof -
  let ?os = "\<lparr>ToLower = (\<lambda>s. s), generatePreview = (\<lambda>x dir t. ''$ rm -r x''), Save = (\<lambda>x s. x)\<rparr> :: unit Os"
  let ?tool = "\<lparr>toolName = ''bash'', toolDescription = ''run a command'', toolSchema = None,
               toolExecute = (\<lambda>x params. (Inr (NewResult ''removed''), x))\<rparr> :: unit Tool"
  let ?conf = "(\<lambda>w name action preview. ((DecisionDeny, None), w)) :: unit ConfirmFunc"
  let ?e = "\<lparr>registry = [(''bash'', ?tool)], confirmFn = Some ?conf,
             settings = None, workDir = ''/work''\<rparr>"
  let ?w = "\<lparr>ext = (), chatLog = [], execLog = [], agentEvents = [], contextEvents = []\<rparr>"
  let ?t = "\<lparr>ID = ''t1'', Name = ''bash'', Input = Some [(''command'', JString ''rm -r x'')]\<rparr>"
  have h1: "map_of (registry ?e) (Name ?t) = Some ?tool" by simp
  have h2: "needsConfirmation ?os ?e (Name ?t)" by (simp add: needsConfirmation_def)
  have h3: "confirmFn ?e = Some ?conf" by simp
  have h4: "?conf ?w (Name ?t) (describeAction ?t) (generatePreview ?os (ext ?w) (workDir ?e) ?t)
              = ((DecisionDeny, None), ?w)" by simp
  show ?thesis
    using h1 h2 Execute_deny_skips_tool[OF h1 h2 h3 h4]
    by (simp add: Let_def NewErrorResult_def)
qed

section \<open>Provider adapters: the stream readers\<close>

text \<open>
  What \<^verbatim>\<open>json.Unmarshal\<close> makes of a text when the target is a
  \<^verbatim>\<open>map[string]interface{}\<close>: an error, or the map (\<open>None\<close> is the nil map that the text
  \<^verbatim>\<open>null\<close> leaves). Reading a key of the nil map finds nothing.
\<close>

datatype Unmarshaled = UnmarshalError string | Unmarshaled "json_object option"

type_synonym unmarshal = "string \<Rightarrow> Unmarshaled"

definition nil_map :: "json_object option \<Rightarrow> json_object" where
  "nil_map m = (case m of None \<Rightarrow> [] | Some obj \<Rightarrow> obj)"

text \<open>The checked type assertions \<^verbatim>\<open>v.(T)\<close> with \<^verbatim>\<open>ok\<close> on a value read from a map.\<close>

definition as_object :: "json option \<Rightarrow> json_object option" where
  "as_object v = (case v of Some (JObject obj) \<Rightarrow> Some obj | _ \<Rightarrow> None)"

definition as_array :: "json option \<Rightarrow> json list option" where
  "as_array v = (case v of Some (JArray xs) \<Rightarrow> Some xs | _ \<Rightarrow> None)"

definition as_string :: "json option \<Rightarrow> string option" where
  "as_string v = (case v of Some (JString s) \<Rightarrow> Some s | _ \<Rightarrow> None)"

definition as_bool :: "json option \<Rightarrow> bool option" where
  "as_bool v = (case v of Some (JBool b) \<Rightarrow> Some b | _ \<Rightarrow> None)"

text \<open>
  The response body as the \<^verbatim>\<open>bufio.Scanner\<close> delivers it: the lines, each with the
  error \<^verbatim>\<open>scanner.Err()\<close> would report right after that line was delivered (\<open>None\<close>
  unless a read returned data and an error at once), and the error it reports once
  \<^verbatim>\<open>Scan\<close> has returned false (\<open>None\<close> at a clean end).
  A stream reader runs on its own goroutine and sends its events on a channel that it
  closes when it returns; the list is what the channel delivers. An unchecked type
  assertion that fails panics: the events sent so far stay sent.
\<close>

record Body =
  bodyLines :: "(string \<times> string option) list"
  bodyErr :: "string option"

definition scanner_error :: "string option \<Rightarrow> ChatEvent list" where
  "scanner_error err =
     (case err of None \<Rightarrow> [] | Some e \<Rightarrow> [ChatError (''scanner error: '' @ e)])"

datatype StreamEnd = StreamClosed | StreamPanicked

datatype 's ChunkStep = Emitted "ChatEvent list" 's | Panicked "ChatEvent list"

subsection \<open>OpenAI\<close>

text \<open>The tool call under accumulation: id, name, and the arguments text so far.\<close>

type_synonym ToolCallState = "string option \<times> string option \<times> string"

fun openai_tool_calls :: "json list \<Rightarrow> ToolCallState \<Rightarrow> ToolCallState option" where
  "openai_tool_calls [] st = Some st"
| "openai_tool_calls (tc # tcs) (cid, cname, args) =
     (case tc of
        JObject toolCall \<Rightarrow>
          (let cid' = (case as_string (map_of toolCall ''id'') of
                         Some i \<Rightarrow> Some i | None \<Rightarrow> cid);
               st' = (case as_object (map_of toolCall ''function'') of
                        None \<Rightarrow> (cid', cname, args)
                      | Some function \<Rightarrow>
                          (cid',
                           (case as_string (map_of function ''name'') of
                              Some n \<Rightarrow> Some n | None \<Rightarrow> cname),
                           (case as_string (map_of function ''arguments'') of
                              Some a \<Rightarrow> args @ a | None \<Rightarrow> args)))
           in openai_tool_calls tcs st')
      | _ \<Rightarrow> None)"

text \<open>
  The arguments are parsed with the error ignored: on an error the input stays nil.
\<close>

definition parsed_input :: "unmarshal \<Rightarrow> string \<Rightarrow> json_object option" where
  "parsed_input unm args = (case unm args of UnmarshalError e \<Rightarrow> None | Unmarshaled m \<Rightarrow> m)"

definition openai_chunk :: "unmarshal \<Rightarrow> json_object \<Rightarrow> ToolCallState \<Rightarrow> ToolCallState ChunkStep" where
  "openai_chunk unm chunk st =
     (case as_array (map_of chunk ''choices'') of
        None \<Rightarrow> Emitted [] st
      | Some [] \<Rightarrow> Emitted [] st
      | Some (c # cs) \<Rightarrow>
          (case c of
             JObject choice \<Rightarrow>
               (case as_object (map_of choice ''delta'') of
                  None \<Rightarrow> Emitted [] st
                | Some delta \<Rightarrow>
                    (let text = (case as_string (map_of delta ''content'') of
                                   Some content \<Rightarrow>
                                     if content \<noteq> [] then [ChatTextDelta content] else []
                                 | None \<Rightarrow> [])
                     in case (case as_array (map_of delta ''tool_calls'') of
                                Some tcs \<Rightarrow> openai_tool_calls tcs st
                              | None \<Rightarrow> Some st) of
                          None \<Rightarrow> Panicked text
                        | Some (cid, cname, args) \<Rightarrow>
                            Emitted
                              (text @
                               (if as_string (map_of choice ''finish_reason'') = Some ''tool_calls''
                                then (case (cid, cname) of
                                        (Some i, Some n) \<Rightarrow>
                                          [ChatToolUse \<lparr>ID = i, Name = n,
                                                        Input = parsed_input unm args\<rparr>]
                                      | _ \<Rightarrow> [])
                                else []))
                              (cid, cname, args)))
           | _ \<Rightarrow> Panicked []))"

fun openai_loop ::
  "unmarshal \<Rightarrow> (string \<times> string option) list \<Rightarrow> string option \<Rightarrow> ToolCallState \<Rightarrow>
   ChatEvent list \<Rightarrow> ChatEvent list \<times> StreamEnd" where
  "openai_loop unm [] scanErr st events =
     (events @ [ChatMessageDone None] @ scanner_error scanErr, StreamClosed)"
| "openai_loop unm ((line, pending) # rest) scanErr st events =
     (if take 6 line \<noteq> ''data: '' then openai_loop unm rest scanErr st events
      else
        (let data = drop 6 line
         in if data = ''[DONE]''
            then (events @ [ChatMessageDone None] @ scanner_error pending, StreamClosed)
            else
              (case unm data of
                 UnmarshalError e \<Rightarrow>
                   (events @ [ChatError (''failed to parse chunk: '' @ e)], StreamClosed)
               | Unmarshaled chunk \<Rightarrow>
                   (case openai_chunk unm (nil_map chunk) st of
                      Panicked evs \<Rightarrow> (events @ evs, StreamPanicked)
                    | Emitted evs st' \<Rightarrow> openai_loop unm rest scanErr st' (events @ evs)))))"

definition openai_streamResponse :: "unmarshal \<Rightarrow> Body \<Rightarrow> ChatEvent list \<times> StreamEnd" where
  "openai_streamResponse unm body =
     openai_loop unm (bodyLines body) (bodyErr body) (None, None, []) [ChatMessageStart]"

subsection \<open>Ollama\<close>

fun ollama_tool_calls :: "json list \<Rightarrow> ChatEvent list \<Rightarrow> unit ChunkStep" where
  "ollama_tool_calls [] events = Emitted events ()"
| "ollama_tool_calls (tc # tcs) events =
     (case tc of
        JObject toolCall \<Rightarrow>
          (case as_object (map_of toolCall ''function'') of
             None \<Rightarrow> ollama_tool_calls tcs events
           | Some function \<Rightarrow>
               (let name = (case as_string (map_of function ''name'') of
                              Some n \<Rightarrow> n | None \<Rightarrow> []);
                    arguments = as_object (map_of function ''arguments'')
                in ollama_tool_calls tcs
                     (events @ [ChatToolUse \<lparr>ID = ''tool_'' @ name, Name = name,
                                             Input = arguments\<rparr>])))
      | _ \<Rightarrow> Panicked events)"

definition ollama_chunk :: "json_object \<Rightarrow> unit ChunkStep" where
  "ollama_chunk chunk =
     (case as_object (map_of chunk ''message'') of
        None \<Rightarrow> Emitted [] ()
      | Some message \<Rightarrow>
          (let text = (case as_string (map_of message ''content'') of
                         Some content \<Rightarrow> if content \<noteq> [] then [ChatTextDelta content] else []
                       | None \<Rightarrow> [])
           in case as_array (map_of message ''tool_calls'') of
                None \<Rightarrow> Emitted text ()
              | Some tcs \<Rightarrow> ollama_tool_calls tcs text))"

fun ollama_loop ::
  "unmarshal \<Rightarrow> (string \<times> string option) list \<Rightarrow> string option \<Rightarrow> ChatEvent list \<Rightarrow>
   ChatEvent list \<times> StreamEnd" where
  "ollama_loop unm [] scanErr events = (events @ scanner_error scanErr, StreamClosed)"
| "ollama_loop unm ((line, pending) # rest) scanErr events =
     (case unm line of
        UnmarshalError e \<Rightarrow>
          (events @ [ChatError (''failed to parse chunk: '' @ e)], StreamClosed)
      | Unmarshaled chunk \<Rightarrow>
          if as_bool (map_of (nil_map chunk) ''done'') = Some True
          then (events @ [ChatMessageDone None] @ scanner_error pending, StreamClosed)
          else
            (case ollama_chunk (nil_map chunk) of
               Panicked evs \<Rightarrow> (events @ evs, StreamPanicked)
             | Emitted evs u \<Rightarrow> ollama_loop unm rest scanErr (events @ evs)))"

definition ollama_streamResponse :: "unmarshal \<Rightarrow> Body \<Rightarrow> ChatEvent list \<times> StreamEnd" where
  "ollama_streamResponse unm body =
     ollama_loop unm (bodyLines body) (bodyErr body) [ChatMessageStart]"

subsection \<open>Anthropic\<close>

definition handleEvent :: "json_object \<Rightarrow> unit ChunkStep" where
  "handleEvent event =
     (let eventType = (case as_string (map_of event ''type'') of Some t \<Rightarrow> t | None \<Rightarrow> [])
      in if eventType = ''message_start'' then Emitted [ChatMessageStart] ()
         else if eventType = ''content_block_start'' then Emitted [] ()
         else if eventType = ''content_block_delta'' then
           (case as_object (map_of event ''delta'') of
              None \<Rightarrow> Emitted [] ()
            | Some delta \<Rightarrow>
                (let deltaType = (case as_string (map_of delta ''type'') of
                                    Some t \<Rightarrow> t | None \<Rightarrow> [])
                 in if deltaType = ''text_delta'' then
                      (case as_string (map_of delta ''text'') of
                         Some t \<Rightarrow> Emitted [ChatTextDelta t] ()
                       | None \<Rightarrow> Emitted [] ())
                    else Emitted [] ()))
         else if eventType = ''content_block_stop'' then
           (case as_object (map_of event ''content_block'') of
              None \<Rightarrow> Emitted [] ()
            | Some blockMap \<Rightarrow>
                if map_of blockMap ''type'' = Some (JString ''tool_use'') then
                  (case (as_string (map_of blockMap ''id''), as_string (map_of blockMap ''name''),
                         as_object (map_of blockMap ''input'')) of
                     (Some i, Some n, Some inp) \<Rightarrow>
                       Emitted [ChatToolUse \<lparr>ID = i, Name = n, Input = Some inp\<rparr>] ()
                   | _ \<Rightarrow> Panicked [])
                else Emitted [] ())
         else if eventType = ''message_delta'' then Emitted [] ()
         else if eventType = ''message_stop'' then Emitted [ChatMessageDone None] ()
         else Emitted [] ())"

fun anthropic_loop ::
  "unmarshal \<Rightarrow> (string \<times> string option) list \<Rightarrow> string option \<Rightarrow> ChatEvent list \<Rightarrow>
   ChatEvent list \<times> StreamEnd" where
  "anthropic_loop unm [] scanErr events = (events @ scanner_error scanErr, StreamClosed)"
| "anthropic_loop unm ((line, pending) # rest) scanErr events =
     (if take 6 line \<noteq> ''data: '' then anthropic_loop unm rest scanErr events
      else
        (let data = drop 6 line
         in if data = ''[DONE]'' then (events @ scanner_error pending, StreamClosed)
            else
              (case unm data of
                 UnmarshalError e \<Rightarrow>
                   (events @ [ChatError (''failed to parse event: '' @ e)], StreamClosed)
               | Unmarshaled event \<Rightarrow>
                   (case handleEvent (nil_map event) of
                      Panicked evs \<Rightarrow> (events @ evs, StreamPanicked)
                    | Emitted evs u \<Rightarrow> anthropic_loop unm rest scanErr (events @ evs)))))"

definition anthropic_streamResponse :: "unmarshal \<Rightarrow> Body \<Rightarrow> ChatEvent list \<times> StreamEnd" where
  "anthropic_streamResponse unm body =
     anthropic_loop unm (bodyLines body) (bodyErr body) []"


section \<open>Stream normalization\<close>

text \<open>
  A normalized stream: one MessageStart, then TextDelta and ToolUse events, then exactly
  one MessageDone or Error, and nothing else.
\<close>

fun is_delta :: "ChatEvent \<Rightarrow> bool" where
  "is_delta (ChatTextDelta t) = True"
| "is_delta (ChatToolUse u) = True"
| "is_delta e = False"

fun is_terminator :: "ChatEvent \<Rightarrow> bool" where
  "is_terminator (ChatMessageDone u) = True"
| "is_terminator (ChatError e) = True"
| "is_terminator e = False"

definition normalized :: "ChatEvent list \<Rightarrow> bool" where
  "normalized events =
     (case events of
        ChatMessageStart # rest \<Rightarrow>
          rest \<noteq> [] \<and> list_all is_delta (butlast rest) \<and> is_terminator (last rest)
      | _ \<Rightarrow> False)"

text \<open>A body that the scanner reads to its end without an error.\<close>

definition clean_body :: "Body \<Rightarrow> bool" where
  "clean_body body = (bodyErr body = None \<and> list_all (\<lambda>(line, pending). pending = None) (bodyLines body))"

text \<open>An Ollama body holds a line that ends the stream: a done chunk or a line that does not parse.\<close>

definition ollama_ends :: "unmarshal \<Rightarrow> (string \<times> string option) list \<Rightarrow> bool" where
  "ollama_ends unm lines =
     list_ex (\<lambda>(line, pending).
                case unm line of
                  UnmarshalError e \<Rightarrow> True
                | Unmarshaled chunk \<Rightarrow> as_bool (map_of (nil_map chunk) ''done'') = Some True) lines"

text \<open>The type of the server event on a line of an Anthropic body.\<close>

definition anthropic_line_type :: "unmarshal \<Rightarrow> string \<Rightarrow> string option" where
  "anthropic_line_type unm line =
     (if take 6 line = ''data: '' then
        (case unm (drop 6 line) of
           UnmarshalError e \<Rightarrow> None
         | Unmarshaled event \<Rightarrow> as_string (map_of (nil_map event) ''type''))
      else None)"

fun is_error :: "ChatEvent \<Rightarrow> bool" where
  "is_error (ChatError e) = True"
| "is_error e = False"

fun is_done :: "ChatEvent \<Rightarrow> bool" where
  "is_done (ChatMessageDone u) = True"
| "is_done e = False"

text \<open>
  An Anthropic body that follows the streaming protocol of the server: among its data
  lines, the first holds a message_start event, the last a message_stop event, and the
  ones between hold events of other types (content_block_start, content_block_delta,
  content_block_stop, message_delta, ping); every data line parses, and none is the end
  marker \<^verbatim>\<open>[DONE]\<close>, which this server does not send. Lines without the prefix
  \<^verbatim>\<open>data: \<close> (the \<^verbatim>\<open>event:\<close> lines and the blank lines) may stand anywhere. The flag
  tells that message_start has been read.
\<close>

fun anthropic_protocol :: "unmarshal \<Rightarrow> (string \<times> string option) list \<Rightarrow> bool \<Rightarrow> bool" where
  "anthropic_protocol unm [] started = False"
| "anthropic_protocol unm ((line, pending) # rest) started =
     (if take 6 line \<noteq> ''data: '' then anthropic_protocol unm rest started
      else if drop 6 line = ''[DONE]'' then False
      else
        (case unm (drop 6 line) of
           UnmarshalError e \<Rightarrow> False
         | Unmarshaled event \<Rightarrow>
             (let eventType = as_string (map_of (nil_map event) ''type'')
              in if eventType = Some ''message_start''
                 then \<not> started \<and> anthropic_protocol unm rest True
                 else if eventType = Some ''message_stop''
                 then started \<and> list_all (\<lambda>(line, pending). take 6 line \<noteq> ''data: '') rest
                 else started \<and> anthropic_protocol unm rest True)))"


section \<open>Properties of the stream readers\<close>

text \<open>
  Claim C3 on three bodies. When the read of an OpenAI body fails, the reader leaves its
  loop, sends MessageDone and then the scanner's error: two terminators, where its own
  parse-error path and the other two readers send the Error alone. An Ollama body that
  ends without a done chunk gets no terminator. The Anthropic reader sends MessageStart and
  MessageDone only when the server sends message_start and message_stop: a body that holds
  the end marker alone gives the empty stream.
\<close>

theorem stream_normalization_counterexample:
  "\<not> normalized (fst (openai_streamResponse (\<lambda>s. UnmarshalError ''unused'')
                        \<lparr>bodyLines = [], bodyErr = Some ''unexpected EOF''\<rparr>)) \<and>
   fst (openai_streamResponse (\<lambda>s. UnmarshalError ''unused'')
          \<lparr>bodyLines = [], bodyErr = Some ''unexpected EOF''\<rparr>)
     = [ChatMessageStart, ChatMessageDone None, ChatError ''scanner error: unexpected EOF''] \<and>
   \<not> normalized (fst (ollama_streamResponse (\<lambda>s. UnmarshalError ''unused'')
                        \<lparr>bodyLines = [], bodyErr = None\<rparr>)) \<and>
   fst (ollama_streamResponse (\<lambda>s. UnmarshalError ''unused'')
          \<lparr>bodyLines = [], bodyErr = None\<rparr>) = [ChatMessageStart] \<and>
   \<not> normalized (fst (anthropic_streamResponse (\<lambda>s. UnmarshalError ''unused'')
                        \<lparr>bodyLines = [(''data: [DONE]'', None)], bodyErr = None\<rparr>)) \<and>
   fst (anthropic_streamResponse (\<lambda>s. UnmarshalError ''unused'')
          \<lparr>bodyLines = [(''data: [DONE]'', None)], bodyErr = None\<rparr>) = []"
  by (simp add: normalized_def openai_streamResponse_def ollama_streamResponse_def
        anthropic_streamResponse_def scanner_error_def)


lemma normalized_shape:
  "list_all is_delta ds \<Longrightarrow> is_terminator t \<Longrightarrow> normalized (ChatMessageStart # ds @ [t])"
  by (simp add: normalized_def butlast_append)

lemma openai_chunk_deltas:
  "openai_chunk unm chunk st = Emitted evs st' \<Longrightarrow> list_all is_delta evs"
  by (auto simp: openai_chunk_def Let_def
           split: option.splits list.splits json.splits if_splits prod.splits)

lemma openai_loop_clean:
  "list_all (\<lambda>(line, pending). pending = None) lines \<Longrightarrow>
   openai_loop unm lines None st acc = (evs, StreamClosed) \<Longrightarrow>
   \<exists>ds t. evs = acc @ ds @ [t] \<and> list_all is_delta ds \<and> is_terminator t"
proof (induction lines arbitrary: st acc)
  case Nil
  then show ?case by (auto simp: scanner_error_def intro: exI[of _ "[]"])
next
  case (Cons lp lines)
  obtain line pending where lp: "lp = (line, pending)" by (cases lp)
  with Cons.prems(1) have p: "pending = None" and rest: "list_all (\<lambda>(line, pending). pending = None) lines"
    by simp_all
  show ?case
  proof (cases "take 6 line \<noteq> ''data: ''")
    case True
    then have "openai_loop unm lines None st acc = (evs, StreamClosed)"
      using Cons.prems(2) lp by simp
    then show ?thesis using Cons.IH rest by blast
  next
    case data: False
    show ?thesis
    proof (cases "drop 6 line = ''[DONE]''")
      case True
      then have "evs = acc @ [] @ [ChatMessageDone None]"
        using Cons.prems(2) lp data p by (simp add: scanner_error_def)
      then show ?thesis by (intro exI[of _ "[]"] exI[of _ "ChatMessageDone None"]) simp
    next
      case notdone: False
      show ?thesis
      proof (cases "unm (drop 6 line)")
        case (UnmarshalError e)
        then have "evs = acc @ [] @ [ChatError (''failed to parse chunk: '' @ e)]"
          using Cons.prems(2) lp data notdone by simp
        then show ?thesis
          by (intro exI[of _ "[]"] exI[of _ "ChatError (''failed to parse chunk: '' @ e)"]) simp
      next
        case (Unmarshaled chunk)
        show ?thesis
        proof (cases "openai_chunk unm (nil_map chunk) st")
          case (Panicked es)
          then show ?thesis using Cons.prems(2) lp data notdone Unmarshaled by simp
        next
          case (Emitted es st')
          then have "openai_loop unm lines None st' (acc @ es) = (evs, StreamClosed)"
            using Cons.prems(2) lp data notdone Unmarshaled by simp
          then obtain ds t where "evs = (acc @ es) @ ds @ [t]" "list_all is_delta ds" "is_terminator t"
            using Cons.IH rest by blast
          moreover have "list_all is_delta es" using Emitted by (rule openai_chunk_deltas)
          ultimately show ?thesis by (intro exI[of _ "es @ ds"] exI[of _ t]) simp
        qed
      qed
    qed
  qed
qed

lemma ollama_tool_calls_deltas:
  "ollama_tool_calls tcs acc = Emitted evs u \<Longrightarrow> list_all is_delta acc \<Longrightarrow> list_all is_delta evs"
  by (induction tcs acc rule: ollama_tool_calls.induct)
     (auto simp: Let_def split: json.splits option.splits)

lemma ollama_chunk_deltas:
  "ollama_chunk chunk = Emitted evs u \<Longrightarrow> list_all is_delta evs"
  by (auto simp: ollama_chunk_def Let_def split: option.splits if_splits
           dest: ollama_tool_calls_deltas)

lemma ollama_loop_clean:
  "list_all (\<lambda>(line, pending). pending = None) lines \<Longrightarrow>
   ollama_loop unm lines None acc = (evs, StreamClosed) \<Longrightarrow>
   \<exists>ds tl. evs = acc @ ds @ tl \<and> list_all is_delta ds \<and>
     ((tl = [] \<and> \<not> ollama_ends unm lines) \<or> (\<exists>t. tl = [t] \<and> is_terminator t))"
proof (induction lines arbitrary: acc)
  case Nil
  then show ?case by (auto simp: scanner_error_def ollama_ends_def intro: exI[of _ "[]"])
next
  case (Cons lp lines)
  obtain line pending where lp: "lp = (line, pending)" by (cases lp)
  with Cons.prems(1) have p: "pending = None" and rest: "list_all (\<lambda>(line, pending). pending = None) lines"
    by simp_all
  show ?case
  proof (cases "unm line")
    case (UnmarshalError e)
    then have "evs = acc @ [] @ [ChatError (''failed to parse chunk: '' @ e)]"
      using Cons.prems(2) lp by simp
    then show ?thesis
      by (intro exI[of _ "[]"] exI[of _ "[ChatError (''failed to parse chunk: '' @ e)]"]) simp
  next
    case (Unmarshaled chunk)
    show ?thesis
    proof (cases "as_bool (map_of (nil_map chunk) ''done'') = Some True")
      case True
      then have "evs = acc @ [] @ [ChatMessageDone None]"
        using Cons.prems(2) lp p Unmarshaled by (simp add: scanner_error_def)
      then show ?thesis by (intro exI[of _ "[]"] exI[of _ "[ChatMessageDone None]"]) simp
    next
      case notdone: False
      show ?thesis
      proof (cases "ollama_chunk (nil_map chunk)")
        case (Panicked es)
        then show ?thesis using Cons.prems(2) lp Unmarshaled notdone by simp
      next
        case (Emitted es u)
        then have "ollama_loop unm lines None (acc @ es) = (evs, StreamClosed)"
          using Cons.prems(2) lp Unmarshaled notdone by simp
        then obtain ds tl where d: "evs = (acc @ es) @ ds @ tl" "list_all is_delta ds"
          "(tl = [] \<and> \<not> ollama_ends unm lines) \<or> (\<exists>t. tl = [t] \<and> is_terminator t)"
          using Cons.IH rest by blast
        have e: "list_all is_delta es" using Emitted by (rule ollama_chunk_deltas)
        have "ollama_ends unm (lp # lines) = ollama_ends unm lines"
          using lp Unmarshaled notdone by (simp add: ollama_ends_def)
        then show ?thesis using d e by (intro exI[of _ "es @ ds"] exI[of _ tl]) auto
      qed
    qed
  qed
qed

lemma handleEvent_emits:
  "handleEvent event = Emitted evs u \<Longrightarrow>
   list_all (\<lambda>e. \<not> is_error e) evs \<and>
   length (filter (\<lambda>e. e = ChatMessageStart) evs)
     \<le> (if as_string (map_of event ''type'') = Some ''message_start'' then 1 else 0) \<and>
   length (filter is_done evs)
     \<le> (if as_string (map_of event ''type'') = Some ''message_stop'' then 1 else 0)"
  by (auto simp: handleEvent_def Let_def split: option.splits if_splits prod.splits)

lemma handleEvent_panics: "handleEvent event = Panicked evs \<Longrightarrow> evs = []"
  by (auto simp: handleEvent_def Let_def split: option.splits if_splits prod.splits)

lemma anthropic_loop_shape:
  "anthropic_loop unm lines scanErr acc = (evs, fin) \<Longrightarrow>
   \<exists>es tl. evs = acc @ es @ tl \<and> list_all (\<lambda>e. \<not> is_error e) es \<and>
     (tl = [] \<or> (\<exists>e. tl = [ChatError e])) \<and>
     length (filter (\<lambda>e. e = ChatMessageStart) es)
       \<le> length (filter (\<lambda>(line, pending). anthropic_line_type unm line = Some ''message_start'') lines) \<and>
     length (filter is_done es)
       \<le> length (filter (\<lambda>(line, pending). anthropic_line_type unm line = Some ''message_stop'') lines)"
proof (induction lines arbitrary: acc)
  case Nil
  then show ?case
    by (cases scanErr) (auto simp: scanner_error_def intro: exI[of _ "[]"])
next
  case (Cons lp lines)
  obtain line pending where lp: "lp = (line, pending)" by (cases lp)
  show ?case
  proof (cases "take 6 line \<noteq> ''data: ''")
    case True
    then have "anthropic_loop unm lines scanErr acc = (evs, fin)"
      using Cons.prems lp by simp
    from Cons.IH[OF this] obtain es tl where "evs = acc @ es @ tl"
      "list_all (\<lambda>e. \<not> is_error e) es" "tl = [] \<or> (\<exists>e. tl = [ChatError e])"
      "length (filter (\<lambda>e. e = ChatMessageStart) es)
       \<le> length (filter (\<lambda>(line, pending). anthropic_line_type unm line = Some ''message_start'') lines)"
      "length (filter is_done es)
       \<le> length (filter (\<lambda>(line, pending). anthropic_line_type unm line = Some ''message_stop'') lines)"
      by blast
    then show ?thesis using lp by (intro exI[of _ es] exI[of _ tl]) auto
  next
    case data: False
    show ?thesis
    proof (cases "drop 6 line = ''[DONE]''")
      case True
      then have "evs = acc @ [] @ scanner_error pending"
        using Cons.prems lp data by simp
      moreover have "scanner_error pending = [] \<or> (\<exists>e. scanner_error pending = [ChatError e])"
        by (cases pending) (simp_all add: scanner_error_def)
      ultimately show ?thesis
        by (intro exI[of _ "[]"] exI[of _ "scanner_error pending"]) simp
    next
      case notdone: False
      show ?thesis
      proof (cases "unm (drop 6 line)")
        case (UnmarshalError e)
        then have "evs = acc @ [] @ [ChatError (''failed to parse event: '' @ e)]"
          using Cons.prems lp data notdone by simp
        then show ?thesis
          by (intro exI[of _ "[]"] exI[of _ "[ChatError (''failed to parse event: '' @ e)]"]) simp
      next
        case (Unmarshaled event)
        show ?thesis
        proof (cases "handleEvent (nil_map event)")
          case (Panicked es)
          then have "evs = acc @ [] @ []"
            using Cons.prems lp data notdone Unmarshaled handleEvent_panics by fastforce
          then show ?thesis by (intro exI[of _ "[]"] exI[of _ "[]"]) simp
        next
          case (Emitted es0 u)
          then have "anthropic_loop unm lines scanErr (acc @ es0) = (evs, fin)"
            using Cons.prems lp data notdone Unmarshaled by simp
          from Cons.IH[OF this] obtain es tl where d: "evs = (acc @ es0) @ es @ tl"
            "list_all (\<lambda>e. \<not> is_error e) es" "tl = [] \<or> (\<exists>e. tl = [ChatError e])"
            "length (filter (\<lambda>e. e = ChatMessageStart) es)
             \<le> length (filter (\<lambda>(line, pending). anthropic_line_type unm line = Some ''message_start'') lines)"
            "length (filter is_done es)
             \<le> length (filter (\<lambda>(line, pending). anthropic_line_type unm line = Some ''message_stop'') lines)"
            by blast
          have t: "anthropic_line_type unm line = as_string (map_of (nil_map event) ''type'')"
            using data Unmarshaled by (simp add: anthropic_line_type_def)
          from handleEvent_emits[OF Emitted] have h:
            "list_all (\<lambda>e. \<not> is_error e) es0"
            "length (filter (\<lambda>e. e = ChatMessageStart) es0)
               \<le> (if anthropic_line_type unm line = Some ''message_start'' then 1 else 0)"
            "length (filter is_done es0)
               \<le> (if anthropic_line_type unm line = Some ''message_stop'' then 1 else 0)"
            unfolding t by simp_all
          show ?thesis using d h lp
            by (intro exI[of _ "es0 @ es"] exI[of _ tl]) (auto split: if_splits)
        qed
      qed
    qed
  qed
qed


lemma handleEvent_message_start:
  "as_string (map_of event ''type'') = Some ''message_start'' \<Longrightarrow>
   handleEvent event = Emitted [ChatMessageStart] ()"
  by (simp add: handleEvent_def)

lemma handleEvent_message_stop:
  "as_string (map_of event ''type'') = Some ''message_stop'' \<Longrightarrow>
   handleEvent event = Emitted [ChatMessageDone None] ()"
  by (simp add: handleEvent_def)

lemma handleEvent_other:
  "as_string (map_of event ''type'') \<noteq> Some ''message_start'' \<Longrightarrow>
   as_string (map_of event ''type'') \<noteq> Some ''message_stop'' \<Longrightarrow>
   handleEvent event = Emitted evs u \<Longrightarrow> list_all is_delta evs"
  by (auto simp: handleEvent_def Let_def split: option.splits if_splits prod.splits)

lemma anthropic_loop_quiet:
  "list_all (\<lambda>(line, pending). take 6 line \<noteq> ''data: '') lines \<Longrightarrow>
   anthropic_loop unm lines None acc = (acc, StreamClosed)"
  by (induction lines) (auto simp: scanner_error_def)

lemma anthropic_loop_protocol:
  "anthropic_protocol unm lines started \<Longrightarrow>
   anthropic_loop unm lines None acc = (evs, fin) \<Longrightarrow> fin = StreamClosed \<Longrightarrow>
   \<exists>ds. evs = acc @ (if started then [] else [ChatMessageStart]) @ ds @ [ChatMessageDone None] \<and>
        list_all is_delta ds"
proof (induction lines arbitrary: started acc)
  case Nil
  then show ?case by simp
next
  case (Cons lp lines)
  obtain line pending where lp: "lp = (line, pending)" by (cases lp)
  show ?case
  proof (cases "take 6 line \<noteq> ''data: ''")
    case True
    then have "anthropic_protocol unm lines started" "anthropic_loop unm lines None acc = (evs, fin)"
      using Cons.prems lp by simp_all
    then show ?thesis using Cons.IH Cons.prems(3) by blast
  next
    case data: False
    then have notdone: "drop 6 line \<noteq> ''[DONE]''" using Cons.prems(1) lp by auto
    obtain event where u: "unm (drop 6 line) = Unmarshaled event"
      using Cons.prems(1) lp data notdone by (cases "unm (drop 6 line)") auto
    let ?t = "as_string (map_of (nil_map event) ''type'')"
    consider (start) "?t = Some ''message_start''" | (stop) "?t = Some ''message_stop''"
      | (other) "?t \<noteq> Some ''message_start''" "?t \<noteq> Some ''message_stop''" by blast
    then show ?thesis
    proof cases
      case start
      then have p: "\<not> started" "anthropic_protocol unm lines True"
        using Cons.prems(1) lp data notdone u by simp_all
      have "anthropic_loop unm lines None (acc @ [ChatMessageStart]) = (evs, fin)"
        using Cons.prems(2) lp data notdone u handleEvent_message_start[OF start] by simp
      from Cons.IH[OF p(2) this Cons.prems(3)] obtain ds where
        "evs = (acc @ [ChatMessageStart]) @ [] @ ds @ [ChatMessageDone None]" "list_all is_delta ds"
        by auto
      then show ?thesis using p(1) by (intro exI[of _ ds]) simp
    next
      case stop
      then have p: "started" "list_all (\<lambda>(line, pending). take 6 line \<noteq> ''data: '') lines"
        using Cons.prems(1) lp data notdone u by simp_all
      have "anthropic_loop unm lines None (acc @ [ChatMessageDone None]) = (evs, fin)"
        using Cons.prems(2) lp data notdone u handleEvent_message_stop[OF stop] by simp
      then have "evs = acc @ [ChatMessageDone None]"
        using anthropic_loop_quiet[OF p(2), of unm "acc @ [ChatMessageDone None]"] by simp
      then show ?thesis using p(1) by (intro exI[of _ "[]"]) simp
    next
      case other
      then have p: "started" "anthropic_protocol unm lines True"
        using Cons.prems(1) lp data notdone u by simp_all
      show ?thesis
      proof (cases "handleEvent (nil_map event)")
        case (Panicked es)
        then show ?thesis using Cons.prems(2,3) lp data notdone u by simp
      next
        case (Emitted es0 v)
        then have "anthropic_loop unm lines None (acc @ es0) = (evs, fin)"
          using Cons.prems(2) lp data notdone u by simp
        from Cons.IH[OF p(2) this Cons.prems(3)] obtain ds where
          d: "evs = (acc @ es0) @ [] @ ds @ [ChatMessageDone None]" "list_all is_delta ds"
          by auto
        have "list_all is_delta es0" using other Emitted by (rule handleEvent_other)
        then show ?thesis using d p(1) by (intro exI[of _ "es0 @ ds"]) simp
      qed
    qed
  qed
qed

lemma openai_loop_shape:
  "openai_loop unm lines scanErr st acc = (evs, StreamClosed) \<Longrightarrow>
   \<exists>ds tl. evs = acc @ ds @ tl \<and> list_all is_delta ds \<and>
     ((\<exists>t. tl = [t] \<and> is_terminator t) \<or> (\<exists>e. tl = [ChatMessageDone None, ChatError e]))"
proof (induction lines arbitrary: st acc)
  case Nil
  show ?case
  proof (cases scanErr)
    case None
    then have "evs = acc @ [] @ [ChatMessageDone None]"
      using Nil by (simp add: scanner_error_def)
    then show ?thesis by (intro exI[of _ "[]"] exI[of _ "[ChatMessageDone None]"]) simp
  next
    case (Some e)
    then have "evs = acc @ [] @ [ChatMessageDone None, ChatError (''scanner error: '' @ e)]"
      using Nil by (simp add: scanner_error_def)
    then show ?thesis
      by (intro exI[of _ "[]"]
            exI[of _ "[ChatMessageDone None, ChatError (''scanner error: '' @ e)]"]) simp
  qed
next
  case (Cons lp lines)
  obtain line pending where lp: "lp = (line, pending)" by (cases lp)
  show ?case
  proof (cases "take 6 line \<noteq> ''data: ''")
    case True
    then have "openai_loop unm lines scanErr st acc = (evs, StreamClosed)"
      using Cons.prems lp by simp
    then show ?thesis using Cons.IH by blast
  next
    case data: False
    show ?thesis
    proof (cases "drop 6 line = ''[DONE]''")
      case True
      then have e: "evs = acc @ [] @ ([ChatMessageDone None] @ scanner_error pending)"
        using Cons.prems lp data by simp
      show ?thesis
      proof (cases pending)
        case None
        then show ?thesis using e
          by (intro exI[of _ "[]"] exI[of _ "[ChatMessageDone None]"]) (simp add: scanner_error_def)
      next
        case (Some err)
        then show ?thesis using e
          by (intro exI[of _ "[]"]
                exI[of _ "[ChatMessageDone None, ChatError (''scanner error: '' @ err)]"])
             (simp add: scanner_error_def)
      qed
    next
      case notdone: False
      show ?thesis
      proof (cases "unm (drop 6 line)")
        case (UnmarshalError e)
        then have "evs = acc @ [] @ [ChatError (''failed to parse chunk: '' @ e)]"
          using Cons.prems lp data notdone by simp
        then show ?thesis
          by (intro exI[of _ "[]"] exI[of _ "[ChatError (''failed to parse chunk: '' @ e)]"]) simp
      next
        case (Unmarshaled chunk)
        show ?thesis
        proof (cases "openai_chunk unm (nil_map chunk) st")
          case (Panicked es)
          then show ?thesis using Cons.prems lp data notdone Unmarshaled by simp
        next
          case (Emitted es st')
          then have "openai_loop unm lines scanErr st' (acc @ es) = (evs, StreamClosed)"
            using Cons.prems lp data notdone Unmarshaled by simp
          from Cons.IH[OF this] obtain ds tl where d: "evs = (acc @ es) @ ds @ tl" "list_all is_delta ds"
            "(\<exists>t. tl = [t] \<and> is_terminator t) \<or> (\<exists>e. tl = [ChatMessageDone None, ChatError e])"
            by blast
          have "list_all is_delta es" using Emitted by (rule openai_chunk_deltas)
          then show ?thesis using d by (intro exI[of _ "es @ ds"] exI[of _ tl]) simp
        qed
      qed
    qed
  qed
qed

text \<open>
  Claim C3, where it holds. A run that ends without a failed unchecked type assertion
  closes the stream (\<open>StreamClosed\<close>).

  OpenAI: for a body that the scanner reads without an error the stream is one MessageStart,
  then TextDelta and ToolUse events, then exactly one MessageDone or Error and nothing
  after it. For every body the stream has that form or ends with MessageDone followed by
  the scanner's Error.

  Ollama: for a body that the scanner reads without an error the stream is one
  MessageStart, then TextDelta and ToolUse events, then at most one MessageDone or Error,
  which is there whenever the body holds a done chunk or a line that does not parse.

  Anthropic: for a body that follows the server's protocol and that the scanner reads
  without an error the stream is one MessageStart, then TextDelta and ToolUse events, then
  one MessageDone. For every body the reader sends an Error only as its last event, and
  not more MessageStart (MessageDone) events than the body has message_start
  (message_stop) events.
\<close>

theorem stream_normalization_adapters:
  "(clean_body body \<and> snd (openai_streamResponse unm body) = StreamClosed \<longrightarrow>
      normalized (fst (openai_streamResponse unm body))) \<and>
   (snd (openai_streamResponse unm body) = StreamClosed \<longrightarrow>
      normalized (fst (openai_streamResponse unm body)) \<or>
      (\<exists>ds e. fst (openai_streamResponse unm body)
                 = ChatMessageStart # ds @ [ChatMessageDone None, ChatError e] \<and>
              list_all is_delta ds)) \<and>
   (clean_body body \<and> snd (ollama_streamResponse unm body) = StreamClosed \<longrightarrow>
      (\<exists>ds tl. fst (ollama_streamResponse unm body) = ChatMessageStart # ds @ tl \<and>
          list_all is_delta ds \<and> (tl = [] \<or> (\<exists>t. tl = [t] \<and> is_terminator t))) \<and>
      (ollama_ends unm (bodyLines body) \<longrightarrow>
         normalized (fst (ollama_streamResponse unm body)))) \<and>
   (clean_body body \<and> anthropic_protocol unm (bodyLines body) False \<and>
    snd (anthropic_streamResponse unm body) = StreamClosed \<longrightarrow>
      normalized (fst (anthropic_streamResponse unm body))) \<and>
   list_all (\<lambda>e. \<not> is_error e) (butlast (fst (anthropic_streamResponse unm body))) \<and>
   length (filter (\<lambda>e. e = ChatMessageStart) (fst (anthropic_streamResponse unm body)))
     \<le> length (filter (\<lambda>(line, pending). anthropic_line_type unm line = Some ''message_start'')
                  (bodyLines body)) \<and>
   length (filter is_done (fst (anthropic_streamResponse unm body)))
     \<le> length (filter (\<lambda>(line, pending). anthropic_line_type unm line = Some ''message_stop'')
                  (bodyLines body))"
proof -
  have openai: "normalized (fst (openai_streamResponse unm body))"
    if cb: "clean_body body" and cl: "snd (openai_streamResponse unm body) = StreamClosed"
  proof -
    obtain evs where e: "openai_streamResponse unm body = (evs, StreamClosed)"
      using cl by (cases "openai_streamResponse unm body") auto
    then have "openai_loop unm (bodyLines body) None (None, None, []) [ChatMessageStart]
                 = (evs, StreamClosed)"
      using cb by (simp add: openai_streamResponse_def clean_body_def)
    from openai_loop_clean[OF _ this] cb
    obtain ds t where "evs = [ChatMessageStart] @ ds @ [t]" "list_all is_delta ds" "is_terminator t"
      by (auto simp: clean_body_def)
    then show ?thesis using e normalized_shape[of ds t] by simp
  qed
  have openai_all: "normalized (fst (openai_streamResponse unm body)) \<or>
      (\<exists>ds e. fst (openai_streamResponse unm body)
                 = ChatMessageStart # ds @ [ChatMessageDone None, ChatError e] \<and>
              list_all is_delta ds)"
    if cl: "snd (openai_streamResponse unm body) = StreamClosed"
  proof -
    obtain evs where e: "openai_streamResponse unm body = (evs, StreamClosed)"
      using cl by (cases "openai_streamResponse unm body") auto
    then have "openai_loop unm (bodyLines body) (bodyErr body) (None, None, []) [ChatMessageStart]
                 = (evs, StreamClosed)"
      by (simp add: openai_streamResponse_def)
    from openai_loop_shape[OF this]
    obtain ds tl where d: "evs = [ChatMessageStart] @ ds @ tl" "list_all is_delta ds"
      "(\<exists>t. tl = [t] \<and> is_terminator t) \<or> (\<exists>e. tl = [ChatMessageDone None, ChatError e])"
      by blast
    from d(3) show ?thesis
    proof
      assume "\<exists>t. tl = [t] \<and> is_terminator t"
      then obtain t where "tl = [t]" "is_terminator t" by blast
      then show ?thesis using d(1,2) e normalized_shape[of ds t] by simp
    next
      assume "\<exists>e. tl = [ChatMessageDone None, ChatError e]"
      then show ?thesis using d(1,2) e by auto
    qed
  qed
  have ollama: "(\<exists>ds tl. fst (ollama_streamResponse unm body) = ChatMessageStart # ds @ tl \<and>
          list_all is_delta ds \<and> (tl = [] \<or> (\<exists>t. tl = [t] \<and> is_terminator t))) \<and>
      (ollama_ends unm (bodyLines body) \<longrightarrow>
         normalized (fst (ollama_streamResponse unm body)))"
    if cb: "clean_body body" and cl: "snd (ollama_streamResponse unm body) = StreamClosed"
  proof -
    obtain evs where e: "ollama_streamResponse unm body = (evs, StreamClosed)"
      using cl by (cases "ollama_streamResponse unm body") auto
    then have "ollama_loop unm (bodyLines body) None [ChatMessageStart] = (evs, StreamClosed)"
      using cb by (simp add: ollama_streamResponse_def clean_body_def)
    from ollama_loop_clean[OF _ this] cb
    obtain ds tl where d: "evs = [ChatMessageStart] @ ds @ tl" "list_all is_delta ds"
      "(tl = [] \<and> \<not> ollama_ends unm (bodyLines body)) \<or> (\<exists>t. tl = [t] \<and> is_terminator t)"
      by (auto simp: clean_body_def)
    have "normalized evs" if oe: "ollama_ends unm (bodyLines body)"
    proof -
      from d(3) oe obtain t where "tl = [t]" "is_terminator t" by blast
      then show ?thesis using d(1,2) normalized_shape[of ds t] by simp
    qed
    then show ?thesis using d e by auto
  qed
  obtain evs fin where a: "anthropic_loop unm (bodyLines body) (bodyErr body) [] = (evs, fin)"
    by (cases "anthropic_loop unm (bodyLines body) (bodyErr body) []") auto
  have anthropic: "fst (anthropic_streamResponse unm body) = evs"
    and anthropic_end: "snd (anthropic_streamResponse unm body) = fin"
    using a by (simp_all add: anthropic_streamResponse_def)
  have protocol: "normalized evs"
    if cb: "clean_body body" and pr: "anthropic_protocol unm (bodyLines body) False"
      and cl: "fin = StreamClosed"
  proof -
    have "anthropic_loop unm (bodyLines body) None [] = (evs, fin)"
      using a cb by (simp add: clean_body_def)
    from anthropic_loop_protocol[OF pr this cl]
    obtain ds where "evs = [ChatMessageStart] @ ds @ [ChatMessageDone None]" "list_all is_delta ds"
      by auto
    then show ?thesis using normalized_shape[of ds "ChatMessageDone None"] by simp
  qed
  from anthropic_loop_shape[OF a] obtain es tl where s: "evs = es @ tl"
    "list_all (\<lambda>e. \<not> is_error e) es" "tl = [] \<or> (\<exists>e. tl = [ChatError e])"
    "length (filter (\<lambda>e. e = ChatMessageStart) es)
       \<le> length (filter (\<lambda>(line, pending). anthropic_line_type unm line = Some ''message_start'')
                    (bodyLines body))"
    "length (filter is_done es)
       \<le> length (filter (\<lambda>(line, pending). anthropic_line_type unm line = Some ''message_stop'')
                    (bodyLines body))"
    by auto
  have b: "list_all (\<lambda>e. \<not> is_error e) (butlast evs)"
  proof (cases "tl = []")
    case True
    then show ?thesis using s(1,2) by (cases es rule: rev_cases) auto
  next
    case False
    then obtain e where "tl = [ChatError e]" using s(3) by blast
    then show ?thesis using s(1,2) by (simp add: butlast_append)
  qed
  have c1: "length (filter (\<lambda>e. e = ChatMessageStart) evs) = length (filter (\<lambda>e. e = ChatMessageStart) es)"
    using s(1,3) by auto
  have c2: "length (filter is_done evs) = length (filter is_done es)"
    using s(1,3) by auto
  show ?thesis unfolding anthropic anthropic_end
    using openai openai_all ollama protocol b c1 c2 s(4,5) by simp
qed

text \<open>
  The witness: an OpenAI body with one content chunk, an empty line and the end marker; an
  Ollama body with one content chunk and the done chunk; an Anthropic body with the events
  message_start, content_block_delta with a text delta, and message_stop, each after its
  \<^verbatim>\<open>event:\<close> line.
\<close>

theorem stream_normalization_adapters_witness:
  \<open>(let unm_o = (\<lambda>s. if s = ''{"choices":[{"delta":{"content":"Hello"}}]}''
               then Unmarshaled (Some [(''choices'', JArray [JObject [(''delta'',
                      JObject [(''content'', JString ''Hello'')])]])])
               else UnmarshalError ''invalid character'');
        body_o = \<lparr>bodyLines = [(''data: {"choices":[{"delta":{"content":"Hello"}}]}'', None),
                        ([], None), (''data: [DONE]'', None)],
           bodyErr = None\<rparr>;
        unm_l = (\<lambda>s. if s = ''{"message":{"content":"Hello"}}''
               then Unmarshaled (Some [(''message'', JObject [(''content'', JString ''Hello'')])])
               else if s = ''{"done":true}'' then Unmarshaled (Some [(''done'', JBool True)])
               else UnmarshalError ''invalid character'');
        body_l = \<lparr>bodyLines = [(''{"message":{"content":"Hello"}}'', None), (''{"done":true}'', None)],
           bodyErr = None\<rparr>;
        unm_a = (\<lambda>s. if s = ''{"type":"message_start"}''
               then Unmarshaled (Some [(''type'', JString ''message_start'')])
               else if s = ''{"type":"content_block_delta","delta":{"type":"text_delta","text":"Hello"}}''
               then Unmarshaled (Some [(''type'', JString ''content_block_delta''),
                      (''delta'', JObject [(''type'', JString ''text_delta''),
                                           (''text'', JString ''Hello'')])])
               else if s = ''{"type":"message_stop"}''
               then Unmarshaled (Some [(''type'', JString ''message_stop'')])
               else UnmarshalError ''invalid character'');
        body_a = \<lparr>bodyLines = [(''event: message_start'', None),
                        (''data: {"type":"message_start"}'', None), ([], None),
                        (''event: content_block_delta'', None),
                        (''data: {"type":"content_block_delta","delta":{"type":"text_delta","text":"Hello"}}'', None),
                        ([], None),
                        (''event: message_stop'', None),
                        (''data: {"type":"message_stop"}'', None), ([], None)],
           bodyErr = None\<rparr>
    in clean_body body_o \<and> snd (openai_streamResponse unm_o body_o) = StreamClosed \<and>
       normalized (fst (openai_streamResponse unm_o body_o)) \<and>
       fst (openai_streamResponse unm_o body_o)
         = [ChatMessageStart, ChatTextDelta ''Hello'', ChatMessageDone None] \<and>
       clean_body body_l \<and> snd (ollama_streamResponse unm_l body_l) = StreamClosed \<and>
       ollama_ends unm_l (bodyLines body_l) \<and>
       normalized (fst (ollama_streamResponse unm_l body_l)) \<and>
       fst (ollama_streamResponse unm_l body_l)
         = [ChatMessageStart, ChatTextDelta ''Hello'', ChatMessageDone None] \<and>
       clean_body body_a \<and> anthropic_protocol unm_a (bodyLines body_a) False \<and>
       snd (anthropic_streamResponse unm_a body_a) = StreamClosed \<and>
       normalized (fst (anthropic_streamResponse unm_a body_a)) \<and>
       fst (anthropic_streamResponse unm_a body_a)
         = [ChatMessageStart, ChatTextDelta ''Hello'', ChatMessageDone None])\<close>
proof -
  let ?unm_o = \<open>(\<lambda>s. if s = ''{"choices":[{"delta":{"content":"Hello"}}]}''
               then Unmarshaled (Some [(''choices'', JArray [JObject [(''delta'',
                      JObject [(''content'', JString ''Hello'')])]])])
               else UnmarshalError ''invalid character'')\<close>
  let ?body_o = \<open>\<lparr>bodyLines = [(''data: {"choices":[{"delta":{"content":"Hello"}}]}'', None),
                        ([], None), (''data: [DONE]'', None)],
           bodyErr = None\<rparr>\<close>
  let ?unm_l = \<open>(\<lambda>s. if s = ''{"message":{"content":"Hello"}}''
               then Unmarshaled (Some [(''message'', JObject [(''content'', JString ''Hello'')])])
               else if s = ''{"done":true}'' then Unmarshaled (Some [(''done'', JBool True)])
               else UnmarshalError ''invalid character'')\<close>
  let ?body_l = \<open>\<lparr>bodyLines = [(''{"message":{"content":"Hello"}}'', None), (''{"done":true}'', None)],
           bodyErr = None\<rparr>\<close>
  let ?unm_a = \<open>(\<lambda>s. if s = ''{"type":"message_start"}''
               then Unmarshaled (Some [(''type'', JString ''message_start'')])
               else if s = ''{"type":"content_block_delta","delta":{"type":"text_delta","text":"Hello"}}''
               then Unmarshaled (Some [(''type'', JString ''content_block_delta''),
                      (''delta'', JObject [(''type'', JString ''text_delta''),
                                           (''text'', JString ''Hello'')])])
               else if s = ''{"type":"message_stop"}''
               then Unmarshaled (Some [(''type'', JString ''message_stop'')])
               else UnmarshalError ''invalid character'')\<close>
  let ?body_a = \<open>\<lparr>bodyLines = [(''event: message_start'', None),
                        (''data: {"type":"message_start"}'', None), ([], None),
                        (''event: content_block_delta'', None),
                        (''data: {"type":"content_block_delta","delta":{"type":"text_delta","text":"Hello"}}'', None),
                        ([], None),
                        (''event: message_stop'', None),
                        (''data: {"type":"message_stop"}'', None), ([], None)],
           bodyErr = None\<rparr>\<close>
  have o: "fst (openai_streamResponse ?unm_o ?body_o)
             = [ChatMessageStart, ChatTextDelta ''Hello'', ChatMessageDone None]"
    "snd (openai_streamResponse ?unm_o ?body_o) = StreamClosed" "clean_body ?body_o"
    by (simp_all add: openai_streamResponse_def openai_chunk_def as_array_def as_object_def
          as_string_def nil_map_def scanner_error_def clean_body_def)
  have l: "fst (ollama_streamResponse ?unm_l ?body_l)
             = [ChatMessageStart, ChatTextDelta ''Hello'', ChatMessageDone None]"
    "snd (ollama_streamResponse ?unm_l ?body_l) = StreamClosed" "clean_body ?body_l"
    "ollama_ends ?unm_l (bodyLines ?body_l)"
    by (simp_all add: ollama_streamResponse_def ollama_chunk_def as_array_def as_object_def
          as_string_def as_bool_def nil_map_def scanner_error_def clean_body_def ollama_ends_def)
  have a: "fst (anthropic_streamResponse ?unm_a ?body_a)
             = [ChatMessageStart, ChatTextDelta ''Hello'', ChatMessageDone None]"
    "snd (anthropic_streamResponse ?unm_a ?body_a) = StreamClosed" "clean_body ?body_a"
    "anthropic_protocol ?unm_a (bodyLines ?body_a) False"
    by (simp_all add: anthropic_streamResponse_def handleEvent_def as_string_def as_object_def
          nil_map_def scanner_error_def clean_body_def)
  show ?thesis
    using o l a
      stream_normalization_adapters[of ?body_o ?unm_o]
      stream_normalization_adapters[of ?body_l ?unm_l]
      stream_normalization_adapters[of ?body_a ?unm_a]
    by (simp add: Let_def)
qed

section \<open>Memory (internal/agent/memory.go)\<close>

text \<open>
  The conversation log with its token index. The estimator field of \<^verbatim>\<open>Memory\<close> is
  \<open>memEstimator\<close> here.
\<close>

record Memory =
  messages :: "Message list"
  tokenInfo :: "TokenInfo list"
  memEstimator :: SimpleEstimator
  totalTokens :: int
  systemTokens :: int

definition NewMemory :: "SimpleEstimator option \<Rightarrow> Memory" where
  "NewMemory est =
     \<lparr>messages = [], tokenInfo = [],
      memEstimator = (case est of None \<Rightarrow> NewSimpleEstimator | Some e \<Rightarrow> e),
      totalTokens = 0, systemTokens = 0\<rparr>"

fun has_tool_result :: "ContentBlock list \<Rightarrow> bool" where
  "has_tool_result [] = False"
| "has_tool_result (ToolResultBlock b # blocks) = True"
| "has_tool_result (block # blocks) = has_tool_result blocks"

definition isPrunable :: "Message \<Rightarrow> bool" where
  "isPrunable msg = (if Role msg = RoleTool then True else has_tool_result (Content msg))"

fun first_tool_name :: "ContentBlock list \<Rightarrow> string" where
  "first_tool_name [] = []"
| "first_tool_name (ToolUseBlock tu # blocks) = Name tu"
| "first_tool_name (block # blocks) = first_tool_name blocks"

definition extractToolName :: "Message \<Rightarrow> string" where
  "extractToolName msg = first_tool_name (Content msg)"

fun first_tool_use_id :: "ContentBlock list \<Rightarrow> string" where
  "first_tool_use_id [] = []"
| "first_tool_use_id (ToolResultBlock tr # blocks) = ToolUseID tr"
| "first_tool_use_id (block # blocks) = first_tool_use_id blocks"

definition extractToolUseID :: "Message \<Rightarrow> string" where
  "extractToolUseID msg = first_tool_use_id (Content msg)"

definition message_info :: "marshal \<Rightarrow> SimpleEstimator \<Rightarrow> nat \<Rightarrow> Message \<Rightarrow> TokenInfo" where
  "message_info mar e i msg =
     \<lparr>MessageIndex = int i,
      Tokens = EstimateMessage mar e (Some msg),
      InfoRole = Role msg,
      IsPrunable = isPrunable msg,
      ToolName = extractToolName msg,
      InfoToolUseID = extractToolUseID msg\<rparr>"

text \<open>\<^verbatim>\<open>AddMessage\<close> returns the tokens of the message and changes the memory.\<close>

definition AddMessage :: "marshal \<Rightarrow> Memory \<Rightarrow> Message \<Rightarrow> int \<times> Memory" where
  "AddMessage mar m msg =
     (let info = message_info mar (memEstimator m) (length (messages m)) msg
      in (Tokens info,
          m\<lparr>messages := messages m @ [msg],
            tokenInfo := tokenInfo m @ [info],
            totalTokens := totalTokens m + Tokens info\<rparr>))"

definition AddUserMessage :: "marshal \<Rightarrow> Memory \<Rightarrow> string \<Rightarrow> int \<times> Memory" where
  "AddUserMessage mar m content =
     AddMessage mar m \<lparr>Role = RoleUser, Content = [TextBlock content]\<rparr>"

definition GetMessages :: "Memory \<Rightarrow> Message list" where
  "GetMessages m = messages m"

definition GetTokenInfo :: "Memory \<Rightarrow> TokenInfo list" where
  "GetTokenInfo m = tokenInfo m"

definition GetTotalTokens :: "Memory \<Rightarrow> int" where
  "GetTotalTokens m = totalTokens m + systemTokens m"

definition SetSystemTokens :: "Memory \<Rightarrow> int \<Rightarrow> Memory" where
  "SetSystemTokens m tokens = m\<lparr>systemTokens := tokens\<rparr>"

text \<open>The loop of \<^verbatim>\<open>ReplaceMessages\<close>; \<open>i\<close> is the index of the head of the remaining list.\<close>

fun replace_loop ::
  "marshal \<Rightarrow> SimpleEstimator \<Rightarrow> nat \<Rightarrow> Message list \<Rightarrow> TokenInfo list \<times> int \<Rightarrow>
   TokenInfo list \<times> int" where
  "replace_loop mar e i [] acc = acc"
| "replace_loop mar e i (msg # msgs) (infos, tokens) =
     (let info = message_info mar e i msg
      in replace_loop mar e (Suc i) msgs (infos @ [info], tokens + Tokens info))"

definition ReplaceMessages :: "marshal \<Rightarrow> Memory \<Rightarrow> Message list \<Rightarrow> Memory" where
  "ReplaceMessages mar m msgs =
     (let (infos, tokens) = replace_loop mar (memEstimator m) 0 msgs ([], 0)
      in m\<lparr>messages := msgs, tokenInfo := infos, totalTokens := tokens\<rparr>)"

section \<open>Context manager (internal/context)\<close>

text \<open>Decimal digits of an integer, for the \<^verbatim>\<open>%d\<close> of \<^verbatim>\<open>fmt.Sprintf\<close>.\<close>

fun show_nat :: "nat \<Rightarrow> string" where
  "show_nat n =
     (if n < 10 then [''0123456789'' ! n]
      else show_nat (n div 10) @ [''0123456789'' ! (n mod 10)])"

declare show_nat.simps [simp del]

definition show_int :: "int \<Rightarrow> string" where
  "show_int i = (if i < 0 then ''-'' @ show_nat (nat (- i)) else show_nat (nat i))"

datatype ContextAction = ActionNone | ActionWarn | ActionPrune | ActionCompact

text \<open>
  The manager. The project files and the loaded project context have no part in
  \<^verbatim>\<open>PrepareContext\<close> and are left out; \<open>eventChan\<close> tells whether an event channel is
  installed. The estimator field is \<open>mgrEstimator\<close>.
\<close>

record 'x Manager =
  mgrEstimator :: SimpleEstimator
  compactor :: "'x Compactor option"
  pruner :: Pruner
  budget :: Budget
  autoCompact :: bool
  autoPrune :: bool
  eventChan :: bool

text \<open>The fields of \<^verbatim>\<open>ManagerConfig\<close> carry the prefix \<open>Mgr\<close>; a nil provider is \<open>None\<close>.\<close>

record 'x ManagerConfig =
  MgrProvider :: "'x Provider option"
  MgrMaxTokens :: int
  MgrReserveForResponse :: int
  MgrModelContextSize :: int
  MgrWarnThreshold :: float64
  MgrCompactThreshold :: float64
  MgrAutoCompact :: bool
  MgrAutoPrune :: bool
  MgrProtectedTools :: "string list"
  MgrEventChan :: bool

definition NewManager :: "'x ManagerConfig \<Rightarrow> 'x Manager" where
  "NewManager cfg =
     \<lparr>mgrEstimator = NewSimpleEstimator,
      compactor =
        (case MgrProvider cfg of
           None \<Rightarrow> None
         | Some p \<Rightarrow>
             Some (NewCompactor \<lparr>CompactorProvider = p,
                                 CompactorEstimator = Some NewSimpleEstimator,
                                 ProtectedMessages = 6, MaxSummaryTokens = 1000\<rparr>)),
      pruner = NewPruner \<lparr>ProtectedTools = MgrProtectedTools cfg,
                          ProtectionRatio = f64_lit (3 / 10)\<rparr>,
      budget = NewBudget \<lparr>BudgetMaxTokens = MgrMaxTokens cfg,
                          BudgetReserveForResponse = MgrReserveForResponse cfg,
                          BudgetModelContextSize = MgrModelContextSize cfg,
                          BudgetWarnThreshold = MgrWarnThreshold cfg,
                          BudgetCompactThreshold = MgrCompactThreshold cfg\<rparr>,
      autoCompact = MgrAutoCompact cfg,
      autoPrune = MgrAutoPrune cfg,
      eventChan = MgrEventChan cfg\<rparr>"

definition event_percent :: "int \<Rightarrow> int \<Rightarrow> float64" where
  "event_percent current max' =
     (if 0 < max' then f64_mul (f64_div (f64_of_int current) (f64_of_int max')) 100 else 0)"

definition NewWarningEvent :: "int \<Rightarrow> int \<Rightarrow> string \<Rightarrow> ContextEvent" where
  "NewWarningEvent current max' message =
     ContextEvent ''warning'' current max' (event_percent current max') message 0 None"

definition NewCompactedEvent :: "int \<Rightarrow> int \<Rightarrow> string \<Rightarrow> ContextEvent" where
  "NewCompactedEvent current max' message =
     ContextEvent ''compacted'' current max' (event_percent current max') message 0 None"

definition NewPrunedEvent :: "int \<Rightarrow> string \<Rightarrow> ContextEvent" where
  "NewPrunedEvent tokensSaved message = ContextEvent ''pruned'' 0 0 0 message 0 None"

definition NewErrorEvent :: "string \<Rightarrow> ContextEvent" where
  "NewErrorEvent err = ContextEvent ''error'' 0 0 0 err 0 (Some err)"

text \<open>
  The send is non-blocking: an event goes to the channel when one is installed (and has
  room), and is dropped otherwise.
\<close>

definition emitEvent :: "'x Manager \<Rightarrow> 'x World \<Rightarrow> ContextEvent \<Rightarrow> 'x World" where
  "emitEvent m w event =
     (if eventChan m then w\<lparr>contextEvents := contextEvents w @ [event]\<rparr> else w)"

definition CheckContext :: "'x Manager \<Rightarrow> int \<Rightarrow> ContextAction" where
  "CheckContext m currentTokens =
     (let snapshot = GetSnapshot (budget m) currentTokens
      in if AtCompactLevel snapshot then ActionCompact
         else if AtWarningLevel snapshot then ActionWarn
         else ActionNone)"

text \<open>\<^verbatim>\<open>PrepareContext\<close> returns the messages and the error (\<open>None\<close> for nil).\<close>

definition PrepareContext ::
  "marshal \<Rightarrow> 'x Manager \<Rightarrow> 'x World \<Rightarrow> Message list \<Rightarrow> TokenInfo list \<Rightarrow>
   (Message list \<times> string option) \<times> 'x World" where
  "PrepareContext mar m w msgs info =
     (let currentTokens = sum_tokens info;
          action = CheckContext m currentTokens
      in if action = ActionWarn then
           ((msgs, None),
            emitEvent m w (NewWarningEvent currentTokens (GetEffectiveLimit (budget m))
                             ''Approaching context limit''))
         else if action = ActionCompact then
           (case (if autoCompact m then compactor m else None) of
              Some c \<Rightarrow>
                (let ((compacted, result, err), w1) = Compact mar c w msgs
                 in case err of
                      Some e \<Rightarrow> ((msgs, Some e), emitEvent m w1 (NewErrorEvent e))
                    | None \<Rightarrow>
                        ((compacted, None),
                         emitEvent m w1
                           (NewCompactedEvent (CompactedTokens result)
                              (GetEffectiveLimit (budget m))
                              (''Compacted '' @ show_int (SummarizedMessages result) @
                               '' messages, saved ~'' @
                               show_int (OriginalTokens result - CompactedTokens result) @
                               '' tokens''))))
            | None \<Rightarrow>
                if autoPrune m \<and> ShouldPrune (pruner m) info then
                  (let (pruned, result) = Prune mar (pruner m) msgs info
                   in ((pruned, None),
                       emitEvent m w
                         (NewPrunedEvent (TokensSaved result)
                            (''Pruned '' @ show_int (MessagesPruned result) @
                             '' tool results, saved ~'' @ show_int (TokensSaved result) @
                             '' tokens''))))
                else
                  ((msgs, None),
                   emitEvent m w
                     (NewWarningEvent currentTokens (GetEffectiveLimit (budget m))
                        ''Context limit reached, consider starting a new conversation'')))
         else ((msgs, None), w))"

section \<open>Agent loop (internal/agent/agent.go)\<close>

definition MaxToolIterations :: nat where "MaxToolIterations = 10"

text \<open>
  The agent. \<open>agentProvider\<close> and \<open>agentMaxTokens\<close> are the fields \<^verbatim>\<open>provider\<close> and
  \<^verbatim>\<open>maxTokens\<close>. The confirmation channel delivers the user's decision; when the
  context is cancelled first, the wait ends with the context's error (\<open>Inl\<close>).
\<close>

record 'x Agent =
  agentProvider :: "'x Provider"
  toolRegistry :: "'x Registry"
  memory :: Memory
  executor :: "'x Executor"
  contextManager :: "'x Manager option"
  systemPrompt :: string
  agentMaxTokens :: int
  temperature :: float64
  model :: string
  confirmChan :: "('x \<Rightarrow> (string + Decision) \<times> 'x) option"

definition emit :: "'x World \<Rightarrow> Event \<Rightarrow> 'x World" where
  "emit w event = w\<lparr>agentEvents := agentEvents w @ [event]\<rparr>"

definition emitTokenUpdate :: "'x Agent \<Rightarrow> 'x World \<Rightarrow> 'x World" where
  "emitTokenUpdate a w =
     (case contextManager a of
        None \<Rightarrow> w
      | Some m \<Rightarrow>
          (let snapshot = GetSnapshot (budget m) (GetTotalTokens (memory a))
           in emit w (EventTokenUpdate
                        (TokenUpdateInfo (CurrentContextTokens snapshot)
                           (MaxContextTokens snapshot) (UsagePercent snapshot)
                           (SessionInputTokens snapshot + SessionOutputTokens snapshot)
                           (SessionCost snapshot) (AtWarningLevel snapshot)))))"

text \<open>The confirmation function that \<^verbatim>\<open>processLoop\<close> installs in the executor.\<close>

definition agentConfirm :: "('x \<Rightarrow> (string + Decision) \<times> 'x) \<Rightarrow> 'x ConfirmFunc" where
  "agentConfirm wait w toolName' action preview =
     (let w1 = emit w (EventToolPreview preview \<lparr>ID = [], Name = toolName', Input = None\<rparr>);
          (answer, x') = wait (ext w1)
      in case answer of
           Inr decision \<Rightarrow> ((decision, None), w1\<lparr>ext := x'\<rparr>)
         | Inl err \<Rightarrow> ((DecisionDeny, Some err), w1\<lparr>ext := x'\<rparr>))"

text \<open>
  Step 2 of an iteration: the snapshot of the memory goes through \<^verbatim>\<open>PrepareContext\<close>.
  The result is the agent, the world and the messages of the request.
\<close>

definition prepareStep ::
  "marshal \<Rightarrow> 'x Agent \<Rightarrow> 'x World \<Rightarrow> 'x Agent \<times> 'x World \<times> Message list" where
  "prepareStep mar a w =
     (let msgs = GetMessages (memory a);
          info = GetTokenInfo (memory a)
      in case contextManager a of
           None \<Rightarrow> (a, w, msgs)
         | Some m \<Rightarrow>
             (let ((preparedMsgs, err), w1) = PrepareContext mar m w msgs info
              in case err of
                   Some e \<Rightarrow> (a, emit w1 (EventError (''context management failed: '' @ e)), msgs)
                 | None \<Rightarrow>
                     if length preparedMsgs \<noteq> length msgs then
                       (let a1 = a\<lparr>memory := ReplaceMessages mar (memory a) preparedMsgs\<rparr>;
                            w2 = emit w1 (EventContextUpdate
                                   ''Conversation history was optimized to manage context size.'')
                        in (a1, emitTokenUpdate a1 w2, preparedMsgs))
                     else (a, w1, msgs)))"

text \<open>The assistant message under assembly while the stream is read.\<close>

record StreamState =
  assistantContent :: "ContentBlock list"
  textBuffer :: string
  toolCalls :: "ToolUseContent list"

definition flushText :: "StreamState \<Rightarrow> StreamState" where
  "flushText st =
     (if textBuffer st \<noteq> []
      then st\<lparr>assistantContent := assistantContent st @ [TextBlock (textBuffer st)],
              textBuffer := []\<rparr>
      else st)"

text \<open>
  The loop over the events of the stream. The flag of the result tells that the loop
  ended at an Error event, where \<^verbatim>\<open>processLoop\<close> returns.
\<close>

fun consume ::
  "ChatEvent list \<Rightarrow> StreamState \<Rightarrow> 'x Manager option \<Rightarrow> 'x World \<Rightarrow>
   bool \<times> StreamState \<times> 'x Manager option \<times> 'x World" where
  "consume [] st mgr w = (False, st, mgr, w)"
| "consume (ChatTextDelta t # events) st mgr w =
     consume events (st\<lparr>textBuffer := textBuffer st @ t\<rparr>) mgr (emit w (EventTextDelta t))"
| "consume (ChatToolUse tu # events) st mgr w =
     (let st1 = flushText st;
          st2 = st1\<lparr>assistantContent := assistantContent st1 @ [ToolUseBlock tu],
                    toolCalls := toolCalls st1 @ [tu]\<rparr>
      in consume events st2 mgr (emit w (EventToolCall tu)))"
| "consume (ChatMessageDone usage # events) st mgr w =
     (let st1 = flushText st;
          mgr1 = (case (usage, mgr) of
                    (Some u, Some m) \<Rightarrow>
                      Some (m\<lparr>budget := RecordUsage (budget m) (InputTokens u) (OutputTokens u)\<rparr>)
                  | _ \<Rightarrow> mgr)
      in consume events st1 mgr1 (emit w (EventMessageDone usage)))"
| "consume (ChatError err # events) st mgr w = (True, st, mgr, emit w (EventError err))"
| "consume (ChatMessageStart # events) st mgr w = consume events st mgr w"

text \<open>The loop over the queued tool calls.\<close>

fun runToolCalls ::
  "'x Os \<Rightarrow> ToolUseContent list \<Rightarrow> 'x Executor \<Rightarrow> 'x World \<Rightarrow> ToolResultContent list \<Rightarrow>
   ToolResultContent list \<times> 'x Executor \<times> 'x World" where
  "runToolCalls os [] e w toolResults = (toolResults, e, w)"
| "runToolCalls os (toolCall # calls) e w toolResults =
     (let (outcome, e1, w1) = Execute os e w toolCall;
          toolResult = toolResultOf toolCall outcome
      in runToolCalls os calls e1 (emit w1 (EventToolResult toolResult))
           (toolResults @ [toolResult]))"

text \<open>
  One iteration of the loop. The flag of the result tells that the loop goes on to the
  next iteration; it is false at a \<^verbatim>\<open>return\<close> and at the \<^verbatim>\<open>break\<close>.
\<close>

definition iteration ::
  "marshal \<Rightarrow> 'x Os \<Rightarrow> 'x Agent \<Rightarrow> 'x World \<Rightarrow> bool \<times> 'x Agent \<times> 'x World" where
  "iteration mar os a w =
     (let (a1, w1, msgs) = prepareStep mar a w;
          req = \<lparr>Messages = msgs, Tools = ToProviderTools (toolRegistry a1),
                 MaxTokens = agentMaxTokens a1, Temperature = temperature a1,
                 Model = model a1, System = systemPrompt a1\<rparr>;
          (r, w2) = callChat (agentProvider a1) w1 req
      in case r of
           Inl err \<Rightarrow> (False, a1, emit w2 (EventError (''failed to call provider: '' @ err)))
         | Inr chatEvents \<Rightarrow>
             (let (failed, st, mgr, w3) =
                    consume chatEvents
                      \<lparr>assistantContent = [], textBuffer = [], toolCalls = []\<rparr>
                      (contextManager a1) w2;
                  a2 = a1\<lparr>contextManager := mgr\<rparr>
              in if failed then (False, a2, w3)
                 else
                   (let assistantMessage = \<lparr>Role = RoleAssistant, Content = assistantContent st\<rparr>;
                        a3 = a2\<lparr>memory := snd (AddMessage mar (memory a2) assistantMessage)\<rparr>;
                        w4 = emitTokenUpdate a3 w3
                    in if toolCalls st = [] then (False, a3, w4)
                       else
                         (let (toolResults, e1, w5) =
                                runToolCalls os (toolCalls st) (executor a3) w4 [];
                              toolMessage = \<lparr>Role = RoleTool,
                                             Content = map ToolResultBlock toolResults\<rparr>;
                              a4 = a3\<lparr>executor := e1,
                                      memory := snd (AddMessage mar (memory a3) toolMessage)\<rparr>
                          in (True, a4, emitTokenUpdate a4 w5)))))"

fun iterate ::
  "marshal \<Rightarrow> 'x Os \<Rightarrow> nat \<Rightarrow> 'x Agent \<Rightarrow> 'x World \<Rightarrow> 'x Agent \<times> 'x World" where
  "iterate mar os 0 a w = (a, w)"
| "iterate mar os (Suc n) a w =
     (let (again, a1, w1) = iteration mar os a w
      in if again then iterate mar os n a1 w1 else (a1, w1))"

definition processLoop ::
  "marshal \<Rightarrow> 'x Os \<Rightarrow> 'x Agent \<Rightarrow> 'x World \<Rightarrow> string \<Rightarrow> 'x Agent \<times> 'x World" where
  "processLoop mar os a w userMessage =
     (let a1 = (case confirmChan a of
                  None \<Rightarrow> a
                | Some wait \<Rightarrow>
                    a\<lparr>executor := (executor a)\<lparr>confirmFn := Some (agentConfirm wait)\<rparr>\<rparr>);
          a2 = a1\<lparr>memory := snd (AddUserMessage mar (memory a1) userMessage)\<rparr>
      in iterate mar os MaxToolIterations a2 (emitTokenUpdate a2 w))"

section \<open>Tool-result linkage\<close>

text \<open>
  The linkage of tool results: every ToolResult block names the id of a ToolUse block of
  an assistant message that stands earlier in the sequence. \<open>linked_from seen\<close> walks the
  messages with the ids seen so far.
\<close>

definition block_use_ids :: "ContentBlock list \<Rightarrow> string list" where
  "block_use_ids blocks = concat (map (\<lambda>b. case b of ToolUseBlock u \<Rightarrow> [ID u] | _ \<Rightarrow> []) blocks)"

definition block_result_ids :: "ContentBlock list \<Rightarrow> string list" where
  "block_result_ids blocks =
     concat (map (\<lambda>b. case b of ToolResultBlock r \<Rightarrow> [ToolUseID r] | _ \<Rightarrow> []) blocks)"

definition use_ids :: "Message \<Rightarrow> string list" where
  "use_ids m = (if Role m = RoleAssistant then block_use_ids (Content m) else [])"

definition result_ids :: "Message \<Rightarrow> string list" where
  "result_ids m = block_result_ids (Content m)"

fun linked_from :: "string list \<Rightarrow> Message list \<Rightarrow> bool" where
  "linked_from seen [] = True"
| "linked_from seen (m # ms) =
     (list_all (\<lambda>i. i \<in> set seen) (result_ids m) \<and> linked_from (seen @ use_ids m) ms)"

definition linked :: "Message list \<Rightarrow> bool" where
  "linked ms = linked_from [] ms"

text \<open>
  The assistant message under assembly is consistent: its ToolUse blocks are the queued
  tool calls, in order, and it holds no ToolResult block.
\<close>

definition assembling :: "StreamState \<Rightarrow> bool" where
  "assembling st = (block_use_ids (assistantContent st) = map ID (toolCalls st) \<and>
                    block_result_ids (assistantContent st) = [])"

text \<open>
  No compaction can run: the agent has no context manager, or auto compaction is off, or
  the manager has no compactor (it was made without a provider).
\<close>

definition compaction_off :: "'x Manager option \<Rightarrow> bool" where
  "compaction_off mgr = (case mgr of None \<Rightarrow> True | Some m \<Rightarrow> \<not> autoCompact m \<or> compactor m = None)"

section \<open>Properties of the agent loop\<close>

text \<open>Evaluating the thresholds of a snapshot at concrete token counts.\<close>

lemmas f64_eval = f64_add_def f64_mul_def f64_div_def f64_of_int_def f64_lit_def round64_def
  scale_round.simps rne_def Let_def int_of_f64_def

lemma AtCompactLevel_GetSnapshot:
  "AtCompactLevel (GetSnapshot b n) =
     (f64_mul (compactThreshold b) 100 \<le>
        (if 0 < GetEffectiveLimit b
         then f64_mul (f64_div (f64_of_int n) (f64_of_int (GetEffectiveLimit b))) 100 else 0))"
  by (simp add: GetSnapshot_def Let_def)

lemma AtWarningLevel_GetSnapshot:
  "AtWarningLevel (GetSnapshot b n) =
     (f64_mul (warnThreshold b) 100 \<le>
        (if 0 < GetEffectiveLimit b
         then f64_mul (f64_div (f64_of_int n) (f64_of_int (GetEffectiveLimit b))) 100 else 0))"
  by (simp add: GetSnapshot_def Let_def)

text \<open>
  Claim C1 at a pruned context. The memory holds five messages of 7, 25, 114, 5 and 154
  tokens, 305 of the 320 the budget allows, so the context is at the compact level; auto
  compaction is off and auto pruning is on. \<^verbatim>\<open>PrepareContext\<close> returns without error the
  pruned set, in which the tool result of 400 bytes is replaced by the placeholder: a
  message set different from the one passed in. \<^verbatim>\<open>processLoop\<close> compares the lengths of the
  two sets, which pruning never changes: it keeps the memory, sends neither ContextUpdate
  nor TokenUpdate, and builds the request from the original messages.
\<close>

theorem processLoop_drops_pruned_context:
  "(let mar = (\<lambda>obj. None);
        os = \<lparr>ToLower = (\<lambda>s. s), generatePreview = (\<lambda>x dir t. []), Save = (\<lambda>x s. x)\<rparr>;
        u1 = \<lparr>Role = RoleUser, Content = [TextBlock ''list the files'']\<rparr>;
        a1 = \<lparr>Role = RoleAssistant,
              Content = [ToolUseBlock \<lparr>ID = ''t1'', Name = ''bash'', Input = None\<rparr>]\<rparr>;
        t1 = \<lparr>Role = RoleTool,
              Content = [ToolResultBlock \<lparr>ToolUseID = ''t1'',
                           ResultContent = replicate 400 CHR ''x'', IsError = False\<rparr>]\<rparr>;
        t1' = \<lparr>Role = RoleTool,
               Content = [ToolResultBlock \<lparr>ToolUseID = ''t1'',
                            ResultContent = PrunedPlaceholder, IsError = False\<rparr>]\<rparr>;
        a2 = \<lparr>Role = RoleAssistant, Content = [TextBlock ''done'']\<rparr>;
        u2 = \<lparr>Role = RoleUser, Content = [TextBlock (replicate 600 CHR ''y'')]\<rparr>;
        mem = foldl (\<lambda>m msg. snd (AddMessage mar m msg)) (NewMemory (Some NewSimpleEstimator))
                [u1, a1, t1, a2, u2];
        provider = (\<lambda>x req. (Inl ''connection refused'', x));
        m = NewManager \<lparr>MgrProvider = Some provider, MgrMaxTokens = 320,
              MgrReserveForResponse = 0, MgrModelContextSize = 0, MgrWarnThreshold = 0,
              MgrCompactThreshold = 0, MgrAutoCompact = False, MgrAutoPrune = True,
              MgrProtectedTools = [], MgrEventChan = False\<rparr>;
        a = \<lparr>agentProvider = provider, toolRegistry = [], memory = mem,
             executor = \<lparr>registry = [], confirmFn = None, settings = None, workDir = []\<rparr>,
             contextManager = Some m, systemPrompt = [], agentMaxTokens = 1024,
             temperature = 0, model = ''test-model'', confirmChan = None\<rparr>;
        w = \<lparr>ext = (), chatLog = [], execLog = [], agentEvents = [], contextEvents = []\<rparr>
    in messages (memory a) = [u1, a1, t1, a2, u2] \<and>
       map Tokens (tokenInfo (memory a)) = [7, 25, 114, 5, 154] \<and>
       fst (PrepareContext mar m w (messages (memory a)) (tokenInfo (memory a)))
         = ([u1, a1, t1', a2, u2], None) \<and>
       [u1, a1, t1', a2, u2] \<noteq> [u1, a1, t1, a2, u2] \<and>
       prepareStep mar a w = (a, w, [u1, a1, t1, a2, u2]) \<and>
       iteration mar os a w
         = (False, a,
            w\<lparr>chatLog := [\<lparr>Messages = [u1, a1, t1, a2, u2], Tools = [], MaxTokens = 1024,
                            Temperature = 0, Model = ''test-model'', System = []\<rparr>],
              agentEvents := [EventError ''failed to call provider: connection refused'']\<rparr>))"
proof -
  have f1: "f64_mul (f64_lit (9 / 10)) 100 \<le> f64_mul (f64_div (f64_of_int 305) (f64_of_int 320)) 100"
    by (simp add: f64_eval)
  have f2: "f64_lit (1 / 10) \<le> f64_div (f64_of_int 114) (f64_of_int 305)"
    by (simp add: f64_eval)
  have f3: "int_of_f64 (f64_mul (f64_of_int 305) (f64_lit (3 / 10))) = 91"
    by (simp add: f64_eval)
  have f4: "f64_of_int 305 \<noteq> 0"
    by (simp add: f64_eval)
  have "length PrunedPlaceholder \<noteq> length (replicate 400 CHR ''x'')"
    by (simp add: PrunedPlaceholder_def)
  then have p: "PrunedPlaceholder \<noteq> replicate 400 CHR ''x''"
    by (metis (no_types))
  show ?thesis
    using p
    by (simp add: Let_def AddMessage_def NewMemory_def message_info_def isPrunable_def
          extractToolName_def extractToolUseID_def EstimateTokens_default RoleUser_def
          RoleAssistant_def RoleTool_def
          NewManager_def NewPruner_def NewBudget_def NewCompactor_def DefaultProtectedTools_def
          PrepareContext_def CheckContext_def AtCompactLevel_GetSnapshot AtWarningLevel_GetSnapshot
          GetEffectiveLimit_def sum_tokens_def ShouldPrune_def isProtectedTool_def
          Prune_def pruneMessage_def emitEvent_def prepareStep_def GetMessages_def
          GetTokenInfo_def iteration_def callChat_def emit_def ToProviderTools_def f1 f2 f3 f4)
qed

subsection \<open>Linkage of tool results\<close>

lemma use_ids_blocks: "use_ids m = (if Role m = RoleAssistant then block_use_ids (Content m) else [])"
  by (simp add: use_ids_def)

lemma result_ids_blocks: "result_ids m = block_result_ids (Content m)"
  by (simp add: result_ids_def)

lemma block_ids_append:
  "block_use_ids (xs @ ys) = block_use_ids xs @ block_use_ids ys"
  "block_result_ids (xs @ ys) = block_result_ids xs @ block_result_ids ys"
  by (simp_all add: block_use_ids_def block_result_ids_def)

lemma block_ids_single:
  "block_use_ids [] = []" "block_result_ids [] = []"
  "block_use_ids [TextBlock t] = []" "block_result_ids [TextBlock t] = []"
  "block_use_ids [ToolUseBlock u] = [ID u]" "block_result_ids [ToolUseBlock u] = []"
  by (simp_all add: block_use_ids_def block_result_ids_def)

lemma block_result_ids_results: "block_result_ids (map ToolResultBlock rs) = map ToolUseID rs"
  by (induction rs) (simp_all add: block_result_ids_def)

lemma linked_from_append:
  "linked_from seen (xs @ ys) =
     (linked_from seen xs \<and> linked_from (seen @ concat (map use_ids xs)) ys)"
  by (induction xs arbitrary: seen) auto

lemma linked_snoc:
  "linked (ms @ [m]) =
     (linked ms \<and> list_all (\<lambda>i. i \<in> set (concat (map use_ids ms))) (result_ids m))"
  by (simp add: linked_def linked_from_append)

lemma messages_AddMessage: "messages (snd (AddMessage mar m msg)) = messages m @ [msg]"
  by (simp add: AddMessage_def Let_def)

lemma Prune_length: "length (fst (Prune mar p msgs info)) = length msgs"
proof -
  have l: "length (fst (prune_loop mar p info c 0 msgs ([], r))) = length msgs" for c r
    using prune_loop_shape[of mar p info c 0 msgs "[]" r] by auto
  show ?thesis
  proof (cases "length msgs = 0 \<or> length info = 0")
    case True
    then show ?thesis by (auto simp: Prune_def Let_def)
  next
    case False
    then show ?thesis using l
      by (simp add: Prune_def Let_def split_beta)
  qed
qed

lemma PrepareContext_without_compaction:
  assumes "\<not> autoCompact m \<or> compactor m = None"
  shows "snd (fst (PrepareContext mar m w msgs info)) = None \<and>
         length (fst (fst (PrepareContext mar m w msgs info))) = length msgs"
  using assms Prune_length[of mar "pruner m" msgs info]
  by (auto simp: PrepareContext_def Let_def split_beta)

lemma prepareStep_without_compaction:
  assumes "\<forall>m. contextManager a = Some m \<longrightarrow> \<not> autoCompact m \<or> compactor m = None"
  shows "\<exists>w1. prepareStep mar a w = (a, w1, messages (memory a))"
proof (cases "contextManager a")
  case None
  then show ?thesis by (simp add: prepareStep_def GetMessages_def Let_def)
next
  case (Some m)
  obtain p e w1 where
    pc: "PrepareContext mar m w (messages (memory a)) (tokenInfo (memory a)) = ((p, e), w1)"
    by (metis surj_pair)
  have "\<not> autoCompact m \<or> compactor m = None" using assms Some by simp
  from PrepareContext_without_compaction[OF this, of mar w "messages (memory a)" "tokenInfo (memory a)"]
  have "e = None" and "length p = length (messages (memory a))"
    using pc by simp_all
  then show ?thesis
    using Some pc by (simp add: prepareStep_def GetMessages_def GetTokenInfo_def Let_def)
qed

lemma assembling_flushText: "assembling st \<Longrightarrow> assembling (flushText st)"
  by (simp add: assembling_def flushText_def block_ids_append block_ids_single)

lemma assembling_text: "assembling (st\<lparr>textBuffer := t\<rparr>) = assembling st"
  by (simp add: assembling_def)

lemma assembling_tool:
  "assembling st \<Longrightarrow>
   assembling (st\<lparr>assistantContent := assistantContent st @ [ToolUseBlock tu],
                  toolCalls := toolCalls st @ [tu]\<rparr>)"
  by (simp add: assembling_def block_ids_append block_ids_single)

lemma consume_assembling:
  "assembling st \<Longrightarrow> consume events st mgr w = (failed, st', mgr', w') \<Longrightarrow> assembling st'"
proof (induction events arbitrary: st mgr w)
  case Nil
  then show ?case by simp
next
  case (Cons e events)
  show ?case
  proof (cases e)
    case ChatMessageStart
    then show ?thesis using Cons by simp
  next
    case (ChatTextDelta t)
    then have "consume events (st\<lparr>textBuffer := textBuffer st @ t\<rparr>) mgr (emit w (EventTextDelta t))
                 = (failed, st', mgr', w')"
      using Cons.prems(2) by simp
    then show ?thesis using Cons.IH Cons.prems(1) assembling_text by blast
  next
    case (ChatToolUse tu)
    then have "consume events
                 ((flushText st)\<lparr>assistantContent := assistantContent (flushText st) @ [ToolUseBlock tu],
                                  toolCalls := toolCalls (flushText st) @ [tu]\<rparr>)
                 mgr (emit w (EventToolCall tu)) = (failed, st', mgr', w')"
      using Cons.prems(2) by (simp add: Let_def)
    then show ?thesis
      using Cons.IH assembling_tool[OF assembling_flushText[OF Cons.prems(1)]] by blast
  next
    case (ChatMessageDone usage)
    then obtain mgr1 where "consume events (flushText st) mgr1 (emit w (EventMessageDone usage))
                 = (failed, st', mgr', w')"
      using Cons.prems(2) by (simp add: Let_def)
    then show ?thesis using Cons.IH assembling_flushText[OF Cons.prems(1)] by blast
  next
    case (ChatError err)
    then show ?thesis using Cons.prems by simp
  qed
qed

lemma consume_compaction_off:
  "compaction_off mgr \<Longrightarrow> consume events st mgr w = (failed, st', mgr', w') \<Longrightarrow> compaction_off mgr'"
proof (induction events arbitrary: st mgr w)
  case Nil
  then show ?case by simp
next
  case (Cons e events)
  show ?case
  proof (cases e)
    case (ChatMessageDone usage)
    let ?mgr1 = "case (usage, mgr) of
                   (Some u, Some m) \<Rightarrow>
                     Some (m\<lparr>budget := RecordUsage (budget m) (InputTokens u) (OutputTokens u)\<rparr>)
                 | _ \<Rightarrow> mgr"
    have "compaction_off ?mgr1"
      using Cons.prems(1) by (auto simp: compaction_off_def split: option.splits)
    moreover have "consume events (flushText st) ?mgr1 (emit w (EventMessageDone usage))
                 = (failed, st', mgr', w')"
      using Cons.prems(2) ChatMessageDone by (simp add: Let_def)
    ultimately show ?thesis using Cons.IH by blast
  next
    case ChatMessageStart
    then show ?thesis using Cons by simp
  next
    case (ChatTextDelta t)
    then show ?thesis using Cons by simp
  next
    case (ChatToolUse tu)
    then show ?thesis using Cons by (simp add: Let_def)
  next
    case (ChatError err)
    then show ?thesis using Cons.prems by simp
  qed
qed

lemma ToolUseID_toolResultOf: "ToolUseID (toolResultOf toolCall outcome) = ID toolCall"
  by (cases "(toolCall, outcome)" rule: toolResultOf.cases) auto

lemma runToolCalls_ids:
  "map ToolUseID (fst (runToolCalls os calls e w acc)) = map ToolUseID acc @ map ID calls"
proof (induction calls arbitrary: e w acc)
  case Nil
  show ?case by simp
next
  case (Cons c calls)
  obtain outcome e1 w1 where x: "Execute os e w c = (outcome, e1, w1)" by (metis prod_cases3)
  show ?case using Cons.IH[of e1 "emit w1 (EventToolResult (toolResultOf c outcome))"
                              "acc @ [toolResultOf c outcome]"] x
    by (simp add: Let_def ToolUseID_toolResultOf)
qed



lemma linked_add_assistant:
  assumes "linked ms" and "block_result_ids content = []"
  shows "linked (ms @ [\<lparr>Role = RoleAssistant, Content = content\<rparr>])"
  using assms by (simp add: linked_snoc result_ids_blocks)

lemma linked_add_user:
  assumes "linked ms"
  shows "linked (ms @ [\<lparr>Role = RoleUser, Content = [TextBlock t]\<rparr>])"
  using assms by (simp add: linked_snoc result_ids_blocks block_ids_single)

lemma linked_add_tool_results:
  assumes "linked ms" and "block_result_ids content = []"
    and "map ToolUseID results = block_use_ids content"
  shows "linked (ms @ [\<lparr>Role = RoleAssistant, Content = content\<rparr>,
                       \<lparr>Role = RoleTool, Content = map ToolResultBlock results\<rparr>])"
proof -
  have "linked ((ms @ [\<lparr>Role = RoleAssistant, Content = content\<rparr>])
                @ [\<lparr>Role = RoleTool, Content = map ToolResultBlock results\<rparr>])"
    unfolding linked_snoc[of "ms @ [\<lparr>Role = RoleAssistant, Content = content\<rparr>]"]
    using linked_add_assistant[OF assms(1,2)] assms(3)
    by (simp add: result_ids_blocks block_result_ids_results use_ids_blocks list_all_iff)
  then show ?thesis by simp
qed

lemma iteration_keeps_linkage:
  assumes l: "linked (messages (memory a))" and c: "compaction_off (contextManager a)"
    and i: "iteration mar os a w = (again, a', w')"
  shows "linked (messages (memory a')) \<and> compaction_off (contextManager a')"
proof -
  have "\<forall>m. contextManager a = Some m \<longrightarrow> \<not> autoCompact m \<or> compactor m = None"
    using c by (auto simp: compaction_off_def)
  from prepareStep_without_compaction[OF this, of mar w]
  obtain w1 where p: "prepareStep mar a w = (a, w1, messages (memory a))" by blast
  let ?req = "\<lparr>Messages = messages (memory a), Tools = ToProviderTools (toolRegistry a),
               MaxTokens = agentMaxTokens a, Temperature = temperature a,
               Model = model a, System = systemPrompt a\<rparr>"
  obtain r w2 where ch: "callChat (agentProvider a) w1 ?req = (r, w2)" by (metis surj_pair)
  show ?thesis
  proof (cases r)
    case (Inl err)
    then have "a' = a" using i p ch by (simp add: iteration_def Let_def)
    then show ?thesis using l c by simp
  next
    case (Inr chatEvents)
    obtain failed st mgr w3 where
      co: "consume chatEvents \<lparr>assistantContent = [], textBuffer = [], toolCalls = []\<rparr>
             (contextManager a) w2 = (failed, st, mgr, w3)"
      by (metis prod_cases4)
    have st: "assembling st"
      using consume_assembling[OF _ co] by (simp add: assembling_def block_ids_single)
    have mg: "compaction_off mgr" using consume_compaction_off[OF c co] .
    let ?a2 = "a\<lparr>contextManager := mgr\<rparr>"
    let ?am = "\<lparr>Role = RoleAssistant, Content = assistantContent st\<rparr>"
    let ?a3 = "?a2\<lparr>memory := snd (AddMessage mar (memory ?a2) ?am)\<rparr>"
    show ?thesis
    proof (cases failed)
      case True
      then have "a' = ?a2" using i p ch Inr co by (simp add: iteration_def Let_def)
      then show ?thesis using l mg by simp
    next
      case nf: False
      show ?thesis
      proof (cases "toolCalls st = []")
        case True
        then have "a' = ?a3" using i p ch Inr co nf by (simp add: iteration_def Let_def)
        moreover have "linked (messages (memory ?a3))"
          using linked_add_assistant[OF l] st by (simp add: messages_AddMessage assembling_def)
        ultimately show ?thesis using mg by simp
      next
        case False
        obtain toolResults e1 w5 where
          rt: "runToolCalls os (toolCalls st) (executor ?a3) (emitTokenUpdate ?a3 w3) []
                 = (toolResults, e1, w5)"
          by (metis prod_cases3)
        let ?tm = "\<lparr>Role = RoleTool, Content = map ToolResultBlock toolResults\<rparr>"
        let ?a4 = "?a3\<lparr>executor := e1, memory := snd (AddMessage mar (memory ?a3) ?tm)\<rparr>"
        have "a' = ?a4" using i p ch Inr co nf False rt by (simp add: iteration_def Let_def)
        moreover have "map ToolUseID toolResults = map ID (toolCalls st)"
          using runToolCalls_ids[of os "toolCalls st" "executor ?a3" "emitTokenUpdate ?a3 w3" "[]"] rt
          by simp
        then have "linked (messages (memory ?a4))"
          using linked_add_tool_results[OF l, of "assistantContent st" toolResults] st
          by (simp add: messages_AddMessage assembling_def)
        ultimately show ?thesis using mg by simp
      qed
    qed
  qed
qed

lemma iterate_keeps_linkage:
  "linked (messages (memory a)) \<Longrightarrow> compaction_off (contextManager a) \<Longrightarrow>
   iterate mar os n a w = (a', w') \<Longrightarrow>
   linked (messages (memory a')) \<and> compaction_off (contextManager a')"
proof (induction n arbitrary: a w)
  case 0
  then show ?case by simp
next
  case (Suc n)
  obtain again a1 w1 where it: "iteration mar os a w = (again, a1, w1)" by (metis prod_cases3)
  from iteration_keeps_linkage[OF Suc.prems(1,2) it]
  have k: "linked (messages (memory a1))" "compaction_off (contextManager a1)" by simp_all
  show ?case
  proof (cases again)
    case True
    then have "iterate mar os n a1 w1 = (a', w')" using Suc.prems(3) it by simp
    then show ?thesis using Suc.IH k by blast
  next
    case False
    then have "a' = a1" using Suc.prems(3) it by simp
    then show ?thesis using k by simp
  qed
qed

lemma processLoop_keeps_linkage:
  assumes "linked (messages (memory a))" and "compaction_off (contextManager a)"
  shows "linked (messages (memory (fst (processLoop mar os a w userMessage)))) \<and>
         compaction_off (contextManager (fst (processLoop mar os a w userMessage)))"
proof -
  let ?a1 = "case confirmChan a of
               None \<Rightarrow> a
             | Some wait \<Rightarrow> a\<lparr>executor := (executor a)\<lparr>confirmFn := Some (agentConfirm wait)\<rparr>\<rparr>"
  let ?a2 = "?a1\<lparr>memory := snd (AddUserMessage mar (memory ?a1) userMessage)\<rparr>"
  have m: "memory ?a1 = memory a" "contextManager ?a1 = contextManager a"
    by (simp_all split: option.splits)
  have l: "linked (messages (memory ?a2))"
    using linked_add_user[OF assms(1), of userMessage]
    by (simp add: m AddUserMessage_def messages_AddMessage)
  have c: "compaction_off (contextManager ?a2)" using assms(2) by (simp add: m)
  obtain a' w' where r: "processLoop mar os a w userMessage = (a', w')" by (metis surj_pair)
  then have "iterate mar os MaxToolIterations ?a2 (emitTokenUpdate ?a2 w) = (a', w')"
    by (simp add: processLoop_def Let_def)
  from iterate_keeps_linkage[OF l c this] show ?thesis using r by simp
qed

lemma Compact_keeps_linkage:
  assumes "linked msgs" and "linked (drop (length msgs - protectedMessages c) msgs)"
  shows "linked (fst (fst (Compact mar c w msgs)))"
proof (cases "length msgs \<le> protectedMessages c")
  case True
  then show ?thesis using assms(1) by (simp add: Compact_def Let_def)
next
  case False
  obtain s w' where g: "generateSummary c w (take (length msgs - protectedMessages c) msgs) = (s, w')"
    by (metis surj_pair)
  show ?thesis
  proof (cases s)
    case (Inl err)
    then show ?thesis using False g by (simp add: Compact_def Let_def linked_def)
  next
    case (Inr summary)
    then have "fst (fst (Compact mar c w msgs))
                 = [SummaryMessage summary, AcknowledgmentMessage]
                   @ drop (length msgs - protectedMessages c) msgs"
      using False g by (simp add: Compact_def Let_def)
    moreover have "linked ([SummaryMessage summary, AcknowledgmentMessage] @ ms) = linked ms" for ms
      by (simp add: linked_def SummaryMessage_def AcknowledgmentMessage_def use_ids_blocks
            result_ids_blocks block_ids_single RoleUser_def RoleAssistant_def)
    ultimately show ?thesis using assms(2) by simp
  qed
qed



text \<open>Evaluating a run of the loop on a scripted provider.\<close>

lemma iterate_unfold:
  "iterate mar os n a w =
     (if n = 0 then (a, w)
      else (case iteration mar os a w of
              (again, a1, w1) \<Rightarrow> if again then iterate mar os (n - 1) a1 w1 else (a1, w1)))"
  by (cases n) (auto simp: Let_def split: prod.splits)

lemma thresholds:
  "f64_mul (f64_lit (9 / 10)) 100 = 90" "f64_mul (f64_lit (4 / 5)) 100 = 80"
  "\<not> f64_lit (3 / 10) \<le> 0"
  by (simp_all add: f64_add_def f64_mul_def f64_div_def f64_of_int_def f64_lit_def round64_def
        scale_round.simps rne_def Let_def)

lemma percents:
  "f64_mul (f64_div (f64_of_int 5) (f64_of_int 128)) 100 = 125 / 32"
  "f64_mul (f64_div (f64_of_int 14) (f64_of_int 128)) 100 = 175 / 16"
  "f64_mul (f64_div (f64_of_int 45) (f64_of_int 128)) 100 = 1125 / 32"
  "f64_mul (f64_div (f64_of_int 54) (f64_of_int 128)) 100 = 675 / 16"
  "f64_mul (f64_div (f64_of_int 61) (f64_of_int 128)) 100 = 1525 / 32"
  "f64_mul (f64_div (f64_of_int 101) (f64_of_int 128)) 100 = 2525 / 32"
  "f64_mul (f64_div (f64_of_int 141) (f64_of_int 128)) 100 = 3525 / 32"
  by (simp_all add: f64_add_def f64_mul_def f64_div_def f64_of_int_def f64_lit_def round64_def
        scale_round.simps rne_def Let_def)

lemmas run_defs = Let_def processLoop_def MaxToolIterations_def iterate_unfold iteration_def
  prepareStep_def PrepareContext_def CheckContext_def AtCompactLevel_GetSnapshot
  AtWarningLevel_GetSnapshot GetEffectiveLimit_def emitTokenUpdate_def emit_def
  AddUserMessage_def AddMessage_def message_info_def isPrunable_def extractToolName_def
  extractToolUseID_def EstimateTokens_default SetSystemTokens_def NewMemory_def
  NewManager_def NewBudget_def NewPruner_def NewCompactor_def EstimateSystemPrompt_def
  GetMessages_def GetTokenInfo_def sum_tokens_def callChat_def flushText_def
  ToProviderTools_def RoleUser_def RoleAssistant_def RoleTool_def thresholds percents
  emitEvent_def Execute_def needsConfirmation_def invokeTool_def Get_def
  NewResult_def NewErrorResult_def input_string_def describeAction_def
  Compact_def generateSummary_def ReplaceMessages_def EstimateMessages_def
  SummaryMessage_def AcknowledgmentMessage_def
  linked_def use_ids_def result_ids_def block_use_ids_def block_result_ids_def

text \<open>
  Claim C2 at a compaction. A new agent with the default six protected messages and a
  budget of 128 tokens talks to a provider that answers from a script; its one tool takes
  no arguments, so every input is the empty object, which serializes to \<^verbatim>\<open>{}\<close>.
  Turn 1 is answered with a text. In turn 2 the assistant calls the tool (t1), the result
  is stored, and the next call of the provider fails: the turn ends with five messages,
  which are linked. In turn 3 the assistant calls the tool twice (t2, t3). The third
  iteration finds ten messages of 141 tokens, above 90% of the budget, and compacts: the
  first four messages are summarized, the last six are kept. The kept part begins with
  the tool result t1, whose ToolUse was in the fourth message. The agent replaces the
  memory (eight messages instead of ten) and sends the request with them; the result t1
  names no earlier ToolUse.
\<close>

theorem compaction_breaks_linkage_counterexample:
  "(let mar = (\<lambda>obj. Some ''{}'');
        os = \<lparr>ToLower = (\<lambda>s. s), generatePreview = (\<lambda>x dir t. []), Save = (\<lambda>x s. x)\<rparr>;
        script = (\<lambda>x req. case x of [] \<Rightarrow> (Inl ''no more responses'', []) | r # rs \<Rightarrow> (r, rs));
        tool = \<lparr>toolName = ''git_status'', toolDescription = ''show the working tree status'',
                toolSchema = None, toolExecute = (\<lambda>x params. (Inr (NewResult ''ok''), x))\<rparr>;
        agent = \<lparr>agentProvider = script, toolRegistry = [(''git_status'', tool)],
                 memory = SetSystemTokens (NewMemory (Some NewSimpleEstimator))
                            (EstimateSystemPrompt ''You are helpful''),
                 executor = \<lparr>registry = [(''git_status'', tool)], confirmFn = None,
                              settings = None, workDir = ''/w''\<rparr>,
                 contextManager = Some (NewManager
                   \<lparr>MgrProvider = Some script, MgrMaxTokens = 128, MgrReserveForResponse = 0,
                    MgrModelContextSize = 0, MgrWarnThreshold = 0, MgrCompactThreshold = 0,
                    MgrAutoCompact = True, MgrAutoPrune = True, MgrProtectedTools = [],
                    MgrEventChan = False\<rparr>),
                 systemPrompt = ''You are helpful'', agentMaxTokens = 1024, temperature = 0,
                 model = ''test-model'', confirmChan = None\<rparr>;
        use = (\<lambda>i. \<lparr>ID = i, Name = ''git_status'', Input = Some []\<rparr>);
        w = \<lparr>ext = [Inr [ChatMessageStart, ChatTextDelta ''hi'', ChatMessageDone None],
                    Inr [ChatMessageStart, ChatToolUse (use ''t1''), ChatMessageDone None],
                    Inl ''connection reset'',
                    Inr [ChatMessageStart, ChatToolUse (use ''t2''), ChatMessageDone None],
                    Inr [ChatMessageStart, ChatToolUse (use ''t3''), ChatMessageDone None],
                    Inr [ChatMessageStart, ChatTextDelta ''SUM'', ChatMessageDone None],
                    Inr [ChatMessageStart, ChatTextDelta ''done'', ChatMessageDone None]],
             chatLog = [], execLog = [], agentEvents = [], contextEvents = []\<rparr>;
        r1 = processLoop mar os agent w ''hello'';
        r2 = processLoop mar os (fst r1) (snd r1) ''status'';
        r3 = processLoop mar os (fst r2) (snd r2) ''status again''
    in messages (memory agent) = [] \<and>
       map (\<lambda>m. (Role m, use_ids m, result_ids m)) (messages (memory (fst r2))) =
         [(''user'', [], []), (''assistant'', [], []), (''user'', [], []),
          (''assistant'', [''t1''], []), (''tool'', [], [''t1''])] \<and>
       linked (messages (memory (fst r2))) \<and>
       map (\<lambda>m. (Role m, use_ids m, result_ids m)) (messages (memory (fst r3))) =
         [(''user'', [], []), (''assistant'', [], []), (''tool'', [], [''t1'']),
          (''user'', [], []), (''assistant'', [''t2''], []), (''tool'', [], [''t2'']),
          (''assistant'', [''t3''], []), (''tool'', [], [''t3'']), (''assistant'', [], [])] \<and>
       \<not> linked (messages (memory (fst r3))) \<and>
       length (chatLog (snd r3)) = 7 \<and>
       \<not> linked (Messages (last (chatLog (snd r3)))))"
  by (simp add: run_defs cong: let_weak_cong prod.case_cong_weak option.case_cong_weak sum.case_cong_weak)

text \<open>
  Claim C2, amended. The memory of a new agent is linked. While no compaction can run (no
  context manager, auto compaction off, or a manager made without a provider), a turn of
  the agent loop keeps the memory linked and leaves compaction off: the loop appends the
  user message, assistant messages without ToolResult blocks, and tool messages whose
  results carry the ids of the tool calls of the assistant message before them; a pruned
  context never replaces the memory. \<^verbatim>\<open>Compact\<close> returns a linked list when its input is
  linked and the protected suffix, the last P messages, is linked by itself.
\<close>

theorem linkage_kept_without_compaction:
  "linked (messages (NewMemory est)) \<and>
   compaction_off (Some (NewManager cfg)) = (\<not> MgrAutoCompact cfg \<or> MgrProvider cfg = None) \<and>
   (linked (messages (memory a)) \<and> compaction_off (contextManager a) \<longrightarrow>
      linked (messages (memory (fst (processLoop mar os a w userMessage)))) \<and>
      compaction_off (contextManager (fst (processLoop mar os a w userMessage)))) \<and>
   (linked msgs \<and> linked (drop (length msgs - protectedMessages c) msgs) \<longrightarrow>
      linked (fst (fst (Compact mar c w' msgs))))"
proof -
  have "linked (messages (NewMemory est))" by (simp add: NewMemory_def linked_def)
  moreover have "compaction_off (Some (NewManager cfg))
                   = (\<not> MgrAutoCompact cfg \<or> MgrProvider cfg = None)"
    by (simp add: compaction_off_def NewManager_def split: option.splits)
  ultimately show ?thesis
    using processLoop_keeps_linkage[of a mar os w userMessage] Compact_keeps_linkage[of msgs c mar w']
    by blast
qed

text \<open>
  The witness: an agent with auto compaction off whose provider asks for one tool call and
  then answers with a text; and eight linked messages whose last six hold the ToolUse t1
  and its result.
\<close>

theorem linkage_kept_without_compaction_witness:
  "(let mar = (\<lambda>obj. Some ''{}'');
        os = \<lparr>ToLower = (\<lambda>s. s), generatePreview = (\<lambda>x dir t. []), Save = (\<lambda>x s. x)\<rparr>;
        script = (\<lambda>x req. case x of [] \<Rightarrow> (Inl ''no more responses'', []) | r # rs \<Rightarrow> (r, rs));
        tool = \<lparr>toolName = ''git_status'', toolDescription = ''show the working tree status'',
                toolSchema = None, toolExecute = (\<lambda>x params. (Inr (NewResult ''ok''), x))\<rparr>;
        cfg = \<lparr>MgrProvider = Some script, MgrMaxTokens = 128, MgrReserveForResponse = 0,
               MgrModelContextSize = 0, MgrWarnThreshold = 0, MgrCompactThreshold = 0,
               MgrAutoCompact = False, MgrAutoPrune = True, MgrProtectedTools = [],
               MgrEventChan = False\<rparr>;
        agent = \<lparr>agentProvider = script, toolRegistry = [(''git_status'', tool)],
                 memory = NewMemory (Some NewSimpleEstimator),
                 executor = \<lparr>registry = [(''git_status'', tool)], confirmFn = None,
                              settings = None, workDir = ''/w''\<rparr>,
                 contextManager = Some (NewManager cfg),
                 systemPrompt = ''You are helpful'', agentMaxTokens = 1024, temperature = 0,
                 model = ''test-model'', confirmChan = None\<rparr>;
        w = \<lparr>ext = [Inr [ChatMessageStart, ChatToolUse \<lparr>ID = ''t1'', Name = ''git_status'',
                                                          Input = Some []\<rparr>, ChatMessageDone None],
                    Inr [ChatMessageStart, ChatTextDelta ''clean'', ChatMessageDone None]],
             chatLog = [], execLog = [], agentEvents = [], contextEvents = []\<rparr>;
        r = processLoop mar os agent w ''status'';
        msgs = [\<lparr>Role = RoleUser, Content = [TextBlock ''one'']\<rparr>,
                \<lparr>Role = RoleAssistant, Content = [TextBlock ''two'']\<rparr>,
                \<lparr>Role = RoleUser, Content = [TextBlock ''status'']\<rparr>,
                \<lparr>Role = RoleAssistant,
                 Content = [ToolUseBlock \<lparr>ID = ''t1'', Name = ''git_status'', Input = Some []\<rparr>]\<rparr>,
                \<lparr>Role = RoleTool,
                 Content = [ToolResultBlock \<lparr>ToolUseID = ''t1'', ResultContent = ''ok'',
                                              IsError = False\<rparr>]\<rparr>,
                \<lparr>Role = RoleAssistant, Content = [TextBlock ''clean'']\<rparr>,
                \<lparr>Role = RoleUser, Content = [TextBlock ''thanks'']\<rparr>,
                \<lparr>Role = RoleAssistant, Content = [TextBlock ''welcome'']\<rparr>];
        c = NewCompactor \<lparr>CompactorProvider = script, CompactorEstimator = None,
                           ProtectedMessages = 0, MaxSummaryTokens = 0\<rparr>
    in linked (messages (memory agent)) \<and> compaction_off (contextManager agent) \<and>
       map (\<lambda>m. (Role m, use_ids m, result_ids m)) (messages (memory (fst r))) =
         [(''user'', [], []), (''assistant'', [''t1''], []), (''tool'', [], [''t1'']),
          (''assistant'', [], [])] \<and>
       linked (messages (memory (fst r))) \<and>
       linked msgs \<and> linked (drop (length msgs - protectedMessages c) msgs) \<and>
       linked (fst (fst (Compact mar c w msgs))))"
  using linkage_kept_without_compaction[of
      "Some NewSimpleEstimator"
      "\<lparr>MgrProvider = Some (\<lambda>x req. case x of [] \<Rightarrow> (Inl ''no more responses'', []) | r # rs \<Rightarrow> (r, rs)),
        MgrMaxTokens = 128, MgrReserveForResponse = 0,
        MgrModelContextSize = 0, MgrWarnThreshold = 0, MgrCompactThreshold = 0,
        MgrAutoCompact = False, MgrAutoPrune = True, MgrProtectedTools = [],
        MgrEventChan = False\<rparr>"
      "\<lparr>agentProvider = (\<lambda>x req. case x of [] \<Rightarrow> (Inl ''no more responses'', []) | r # rs \<Rightarrow> (r, rs)),
        toolRegistry = [(''git_status'', \<lparr>toolName = ''git_status'', toolDescription = ''show the working tree status'',
                toolSchema = None, toolExecute = (\<lambda>x params. (Inr (NewResult ''ok''), x))\<rparr>)],
        memory = NewMemory (Some NewSimpleEstimator),
        executor = \<lparr>registry = [(''git_status'', \<lparr>toolName = ''git_status'', toolDescription = ''show the working tree status'',
                toolSchema = None, toolExecute = (\<lambda>x params. (Inr (NewResult ''ok''), x))\<rparr>)], confirmFn = None,
                     settings = None, workDir = ''/w''\<rparr>,
        contextManager = Some (NewManager \<lparr>MgrProvider = Some (\<lambda>x req. case x of [] \<Rightarrow> (Inl ''no more responses'', []) | r # rs \<Rightarrow> (r, rs)),
          MgrMaxTokens = 128, MgrReserveForResponse = 0,
          MgrModelContextSize = 0, MgrWarnThreshold = 0, MgrCompactThreshold = 0,
          MgrAutoCompact = False, MgrAutoPrune = True, MgrProtectedTools = [],
          MgrEventChan = False\<rparr>),
        systemPrompt = ''You are helpful'', agentMaxTokens = 1024, temperature = 0,
        model = ''test-model'', confirmChan = None\<rparr>"
      "\<lambda>obj. Some ''{}''"
      "\<lparr>ToLower = (\<lambda>s. s), generatePreview = (\<lambda>x dir t. []), Save = (\<lambda>x s. x)\<rparr>"
      "\<lparr>ext = [Inr [ChatMessageStart, ChatToolUse \<lparr>ID = ''t1'', Name = ''git_status'',
                                                          Input = Some []\<rparr>, ChatMessageDone None],
                    Inr [ChatMessageStart, ChatTextDelta ''clean'', ChatMessageDone None]],
             chatLog = [], execLog = [], agentEvents = [], contextEvents = []\<rparr>"
      "''status''"
      "[\<lparr>Role = RoleUser, Content = [TextBlock ''one'']\<rparr>,
                \<lparr>Role = RoleAssistant, Content = [TextBlock ''two'']\<rparr>,
                \<lparr>Role = RoleUser, Content = [TextBlock ''status'']\<rparr>,
                \<lparr>Role = RoleAssistant,
                 Content = [ToolUseBlock \<lparr>ID = ''t1'', Name = ''git_status'', Input = Some []\<rparr>]\<rparr>,
                \<lparr>Role = RoleTool,
                 Content = [ToolResultBlock \<lparr>ToolUseID = ''t1'', ResultContent = ''ok'',
                                              IsError = False\<rparr>]\<rparr>,
                \<lparr>Role = RoleAssistant, Content = [TextBlock ''clean'']\<rparr>,
                \<lparr>Role = RoleUser, Content = [TextBlock ''thanks'']\<rparr>,
                \<lparr>Role = RoleAssistant, Content = [TextBlock ''welcome'']\<rparr>]"
      "NewCompactor \<lparr>CompactorProvider = (\<lambda>x req. case x of [] \<Rightarrow> (Inl ''no more responses'', []) | r # rs \<Rightarrow> (r, rs)), CompactorEstimator = None,
                           ProtectedMessages = 0, MaxSummaryTokens = 0\<rparr>"
      "\<lparr>ext = [Inr [ChatMessageStart, ChatToolUse \<lparr>ID = ''t1'', Name = ''git_status'',
                                                          Input = Some []\<rparr>, ChatMessageDone None],
                    Inr [ChatMessageStart, ChatTextDelta ''clean'', ChatMessageDone None]],
             chatLog = [], execLog = [], agentEvents = [], contextEvents = []\<rparr>"]
  by (simp add: run_defs compaction_off_def DefaultProtectedMessages_def
        cong: let_weak_cong prod.case_cong_weak option.case_cong_weak sum.case_cong_weak)

end
